(* ===== verification/Prelude.thy ===== *)
theory Prelude
  imports Main "HOL-Library.Word"
begin

text \<open>
  Shared vocabulary of the development: the machine types of the JavaScript runtime
  (UTF-16 code units, bytes), the lemma collections the component theories fill, and
  generic facts on lists and options that several components use.
\<close>

section \<open>Machine types of the runtime\<close>

text \<open>
  A JavaScript string is a sequence of UTF-16 code units; a Node \<open>Buffer\<close> is a sequence
  of bytes. Both are kept at their width.
\<close>

type_synonym u16 = "16 word"
type_synonym byte = "8 word"
type_synonym jstring = "u16 list"
type_synonym bytes = "byte list"

text \<open>
  String literals of the source (\<open>'block'\<close>, \<open>'utf8'\<close>, object keys) are ASCII;
  \<open>js_str\<close> turns an Isabelle string literal into the code units JavaScript stores.
\<close>

definition js_str :: "string \<Rightarrow> jstring" where
  "js_str s = map (\<lambda>c. of_nat (of_char c)) s"

text \<open>
  UTF-16 surrogates: a high surrogate followed by a low one encodes one code point above
  \<open>U+FFFF\<close>; a surrogate elsewhere is \<^emph>\<open>lone\<close>.
\<close>

definition is_high_surrogate :: "u16 \<Rightarrow> bool" where
  "is_high_surrogate c \<longleftrightarrow> 0xD800 \<le> c \<and> c \<le> 0xDBFF"

definition is_low_surrogate :: "u16 \<Rightarrow> bool" where
  "is_low_surrogate c \<longleftrightarrow> 0xDC00 \<le> c \<and> c \<le> 0xDFFF"

definition is_surrogate :: "u16 \<Rightarrow> bool" where
  "is_surrogate c \<longleftrightarrow> is_high_surrogate c \<or> is_low_surrogate c"

section \<open>Exceptions as values\<close>

text \<open>
  A computation that may throw is a value of \<open>'e + 'a\<close>, \<open>Inl\<close> the exception.
  \<open>sum_bind m f\<close> runs \<open>f\<close> on the result of \<open>m\<close> and passes an exception on,
  as consecutive statements of a JavaScript function body do.
\<close>

definition sum_bind :: "'e + 'a \<Rightarrow> ('a \<Rightarrow> 'e + 'b) \<Rightarrow> 'e + 'b" where
  "sum_bind m f = (case m of Inl e \<Rightarrow> Inl e | Inr a \<Rightarrow> f a)"

section \<open>Lemma collections\<close>

text \<open>
  \<open>js_simps\<close> collects the equations that evaluate the runtime model on concrete
  inputs (literals, the JSON serializer, the UTF-8 encoder); witnesses use it.
\<close>

named_theorems js_simps "equations evaluating the JavaScript runtime model"

section \<open>Generic lemmas\<close>

lemma js_str_Nil [simp, js_simps]: "js_str [] = []"
  by (simp add: js_str_def)

lemma js_str_Cons [js_simps]: "js_str (c # s) = of_nat (of_char c) # js_str s"
  by (simp add: js_str_def)

lemma js_str_append [simp]: "js_str (s @ t) = js_str s @ js_str t"
  by (simp add: js_str_def)

lemma length_js_str [simp]: "length (js_str s) = length s"
  by (simp add: js_str_def)

lemma unat_u16_less: "unat (c::u16) < 65536"
  using unsigned_less [of c] by simp

lemma unat_byte_less: "unat (b::byte) < 256"
  using unsigned_less [of b] by simp

lemma unat_of_char_u16 [simp]: "unat (of_nat (of_char c) :: u16) = of_char c"
proof -
  have "of_char c < (65536::nat)"
    using nat_of_char_less_256 [of c] by linarith
  then show ?thesis
    by (simp add: unat_of_nat)
qed

lemma unat_js_str_char:
  "c \<in> set (js_str s) \<Longrightarrow> unat c < 256"
  by (auto simp: js_str_def)

lemma js_str_inj: "js_str s = js_str t \<longleftrightarrow> s = t"
proof
  assume eq: "js_str s = js_str t"
  have inj: "inj (\<lambda>c::char. (of_nat (of_char c) :: u16))"
  proof (rule injI)
    fix c d :: char
    assume "(of_nat (of_char c) :: u16) = of_nat (of_char d)"
    then have "unat (of_nat (of_char c) :: u16) = unat (of_nat (of_char d) :: u16)"
      by simp
    then show "c = d" by simp
  qed
  from eq have "map (\<lambda>c::char. (of_nat (of_char c) :: u16)) s
      = map (\<lambda>c. of_nat (of_char c)) t"
    by (simp add: js_str_def)
  with inj show "s = t"
    by (simp add: inj_map_eq_map)
qed simp

lemma sum_bind_Inl [simp]: "sum_bind (Inl e) f = Inl e"
  by (simp add: sum_bind_def)

lemma sum_bind_Inr [simp]: "sum_bind (Inr a) f = f a"
  by (simp add: sum_bind_def)

lemma sum_bind_eq_Inr:
  "sum_bind m f = Inr b \<longleftrightarrow> (\<exists>a. m = Inr a \<and> f a = Inr b)"
  by (cases m) (simp_all add: sum_bind_def)

lemma sum_bind_eq_Inl:
  "sum_bind m f = Inl e \<longleftrightarrow> m = Inl e \<or> (\<exists>a. m = Inr a \<and> f a = Inl e)"
  by (cases m) (simp_all add: sum_bind_def)

lemma map_sum_eq_Inr_iff:
  "map_sum f g x = Inr b \<longleftrightarrow> (\<exists>a. x = Inr a \<and> b = g a)"
  by (cases x) auto

lemma map_sum_eq_Inl_iff:
  "map_sum f g x = Inl e \<longleftrightarrow> (\<exists>a. x = Inl a \<and> e = f a)"
  by (cases x) auto

lemma is_high_surrogate_unat: "is_high_surrogate c \<longleftrightarrow> 0xD800 \<le> unat c \<and> unat c \<le> 0xDBFF"
  by (simp add: is_high_surrogate_def word_le_nat_alt)

lemma is_low_surrogate_unat: "is_low_surrogate c \<longleftrightarrow> 0xDC00 \<le> unat c \<and> unat c \<le> 0xDFFF"
  by (simp add: is_low_surrogate_def word_le_nat_alt)

end
