(* ===== verification/Base64.thy ===== *)
theory Base64
  imports Prelude
begin

text \<open>
  Base64 with the standard alphabet and \<open>=\<close> padding, as the generated protobuf
  classes write a \<open>bytes\<close> field in \<open>toObject()\<close> (\<open>getData_asB64\<close>).
\<close>

section \<open>Encoder\<close>

definition b64_char :: "nat \<Rightarrow> u16" where
  "b64_char n =
     (if n < 26 then of_nat (65 + n)
      else if n < 52 then of_nat (71 + n)
      else if n < 62 then of_nat (n - 4)
      else if n = 62 then 43 else 47)"

fun base64_encode :: "bytes \<Rightarrow> jstring" where
  "base64_encode [] = []"
| "base64_encode [a] = [b64_char (unat a div 4), b64_char (unat a mod 4 * 16), 61, 61]"
| "base64_encode [a, b] =
     [b64_char (unat a div 4), b64_char (unat a mod 4 * 16 + unat b div 16),
      b64_char (unat b mod 16 * 4), 61]"
| "base64_encode (a # b # c # r) =
     [b64_char (unat a div 4), b64_char (unat a mod 4 * 16 + unat b div 16),
      b64_char (unat b mod 16 * 4 + unat c div 64), b64_char (unat c mod 64)] @ base64_encode r"

end
