(* ===== verification/Messages.thy ===== *)
theory Messages
  imports Base64
begin

text \<open>
  The generated protobuf classes the consumer fills in and reads (from the exchange
  and chain API packages, not under \<open>src/\<close>): one record per message with the fields
  the consumer sets or gets, each new message starting from the proto3 defaults (empty
  string, zero, \<open>false\<close>, unset sub-message, empty repeated field). A setter is a record
  update, \<open>addMsgs\<close> appends, \<open>setXList\<close> replaces.
\<close>

type_synonym chain_id = int

section \<open>Prepare\<close>

record coin =
  coin_denom :: jstring
  coin_amount :: jstring

definition new_coin :: coin where
  "new_coin = \<lparr>coin_denom = [], coin_amount = []\<rparr>"

record cosmos_tx_fee =
  txfee_price :: "coin list"
  txfee_gas :: int
  txfee_delegate_fee :: bool

definition new_cosmos_tx_fee :: cosmos_tx_fee where
  "new_cosmos_tx_fee = \<lparr>txfee_price = [], txfee_gas = 0, txfee_delegate_fee = False\<rparr>"

record prepare_tx_request =
  ptx_chain_id :: chain_id
  ptx_signer_address :: jstring
  ptx_fee :: "cosmos_tx_fee option"
  ptx_msgs :: "bytes list"

definition new_prepare_tx_request :: prepare_tx_request where
  "new_prepare_tx_request =
     \<lparr>ptx_chain_id = 0, ptx_signer_address = [], ptx_fee = None, ptx_msgs = []\<rparr>"

record prepare_tx_response =
  ptr_data :: jstring
  ptr_pub_key_type :: jstring
  ptr_fee_payer :: jstring
  ptr_fee_payer_sig :: jstring

section \<open>Broadcast\<close>

record cosmos_pub_key =
  pk_type :: jstring
  pk_key :: jstring

definition new_cosmos_pub_key :: cosmos_pub_key where
  "new_cosmos_pub_key = \<lparr>pk_type = [], pk_key = []\<rparr>"

record broadcast_tx_request =
  btx_mode :: jstring
  btx_chain_id :: chain_id
  btx_pub_key :: "cosmos_pub_key option"
  btx_signature :: jstring
  btx_tx :: bytes
  btx_fee_payer :: jstring
  btx_fee_payer_sig :: jstring
  btx_msgs :: "bytes list"

definition new_broadcast_tx_request :: broadcast_tx_request where
  "new_broadcast_tx_request =
     \<lparr>btx_mode = [], btx_chain_id = 0, btx_pub_key = None, btx_signature = [], btx_tx = [],
      btx_fee_payer = [], btx_fee_payer_sig = [], btx_msgs = []\<rparr>"

record broadcast_tx_response =
  brs_tx_hash :: jstring
  brs_height :: int
  brs_index :: int
  brs_codespace :: jstring
  brs_code :: int
  brs_data :: bytes
  brs_raw_log :: jstring
  brs_timestamp :: jstring

text \<open>\<open>toObject()\<close>: the plain object of the response, its \<open>bytes\<close> field as Base64 text.\<close>

record broadcast_tx_response_object =
  obj_tx_hash :: jstring
  obj_height :: int
  obj_index :: int
  obj_codespace :: jstring
  obj_code :: int
  obj_data :: jstring
  obj_raw_log :: jstring
  obj_timestamp :: jstring

definition to_object :: "broadcast_tx_response \<Rightarrow> broadcast_tx_response_object" where
  "to_object r =
     \<lparr>obj_tx_hash = brs_tx_hash r, obj_height = brs_height r, obj_index = brs_index r,
      obj_codespace = brs_codespace r, obj_code = brs_code r,
      obj_data = base64_encode (brs_data r), obj_raw_log = brs_raw_log r,
      obj_timestamp = brs_timestamp r\<rparr>"

end
