(* ===== verification/Transport.thy ===== *)
theory Transport
  imports Messages
begin

text \<open>
  The interface between the consumer and its transport: \<open>BaseConsumer.request\<close> (not
  under \<open>src/\<close>) sends one request to one remote method of \<open>InjectiveExchangeRPC\<close>
  and resolves with the typed response or rejects with an error whose \<open>message\<close> may
  be absent. A \<open>transport\<close> is any pair of such endpoints: every lemma of the consumer
  holds for all of them. The state the consumer changes in the world is the sequence of
  requests it has handed to the transport, the \<open>call_log\<close>.
\<close>

type_synonym rpc_failure = "jstring option"

datatype rpc_method = PrepareTx | BroadcastTx

datatype rpc_call =
    PrepareTxCall prepare_tx_request
  | BroadcastTxCall broadcast_tx_request

fun call_method :: "rpc_call \<Rightarrow> rpc_method" where
  "call_method (PrepareTxCall r) = PrepareTx"
| "call_method (BroadcastTxCall r) = BroadcastTx"

record transport =
  prepare_tx :: "prepare_tx_request \<Rightarrow> rpc_failure + prepare_tx_response"
  broadcast_tx :: "broadcast_tx_request \<Rightarrow> rpc_failure + broadcast_tx_response"

type_synonym call_log = "rpc_call list"

text \<open>
  \<open>this.request(req, InjectiveExchangeRPC.PrepareTx)\<close> and
  \<open>this.request(req, InjectiveExchangeRPC.BroadcastTx)\<close>: one request, logged, and the
  transport's answer.
\<close>

definition request_prepare_tx ::
  "transport \<Rightarrow> prepare_tx_request \<Rightarrow> call_log \<Rightarrow> (rpc_failure + prepare_tx_response) \<times> call_log" where
  "request_prepare_tx t r log = (prepare_tx t r, log @ [PrepareTxCall r])"

definition request_broadcast_tx ::
  "transport \<Rightarrow> broadcast_tx_request \<Rightarrow> call_log \<Rightarrow> (rpc_failure + broadcast_tx_response) \<times> call_log" where
  "request_broadcast_tx t r log = (broadcast_tx t r, log @ [BroadcastTxCall r])"

end
