(* ===== verification/JsNumber.thy ===== *)
theory JsNumber
  imports Prelude "HOL-Library.Code_Target_Nat"
begin

text \<open>
  JSON numbers that are integers, as JavaScript holds them: IEEE doubles. \<open>JSON.parse\<close>
  turns an integer literal into the Number value for it, the nearest double with ties to
  even (\<open>round_double\<close>, 53 significant bits); \<open>Number::toString\<close> prints a double below
  \<open>10^21\<close> with the fewest significant digits \<open>s\<close> such that \<open>s \<times> 10^(n-k)\<close> still rounds
  to it, the closest such when two do and the even one on a tie, padded with zeros
  (\<open>shortest_nat\<close>). \<open>js_int\<close> are the integers that are doubles printed without an
  exponent. Every safe integer (\<open>|n| \<le> 2^53\<close>) is one and prints as its own digits.
\<close>

section \<open>Doubles\<close>

fun bitlen :: "nat \<Rightarrow> nat" where
  "bitlen n = (if n = 0 then 0 else Suc (bitlen (n div 2)))"

declare bitlen.simps [simp del]

definition round_nat :: "nat \<Rightarrow> nat" where
  "round_nat a =
     (let e = bitlen a - 53; u = 2 ^ e; q = a div u; r = a mod u
      in (if u < 2 * r \<or> (2 * r = u \<and> odd q) then q + 1 else q) * u)"

definition round_double :: "int \<Rightarrow> int" where
  "round_double n = sgn n * int (round_nat (nat \<bar>n\<bar>))"

definition json_int_limit :: nat where
  "json_int_limit = 10 ^ 21"

definition js_int :: "int \<Rightarrow> bool" where
  "js_int n \<longleftrightarrow> round_double n = n \<and> nat \<bar>n\<bar> < json_int_limit"

section \<open>Shortest digits\<close>

fun ndigits :: "nat \<Rightarrow> nat" where
  "ndigits n = (if n < 10 then 1 else Suc (ndigits (n div 10)))"

declare ndigits.simps [simp del]

text \<open>The units \<open>10^(n-k)\<close> for \<open>k = 1, 2, ...\<close> significant digits.\<close>

definition digit_units :: "nat \<Rightarrow> nat list" where
  "digit_units a = map (\<lambda>k. 10 ^ (ndigits a - k)) [1..<Suc (ndigits a)]"

text \<open>The multiples of \<open>u\<close> next to \<open>a\<close> that round to \<open>a\<close>.\<close>

definition round_candidates :: "nat \<Rightarrow> nat \<Rightarrow> nat list" where
  "round_candidates a u = filter (\<lambda>c. round_nat c = a) [a div u * u, a div u * u + u]"

definition closest :: "nat \<Rightarrow> nat \<Rightarrow> nat list \<Rightarrow> nat" where
  "closest a u cs =
     (case cs of
       [c] \<Rightarrow> c
     | [lo, hi] \<Rightarrow>
         (if a - lo < hi - a then lo else if hi - a < a - lo then hi
          else if even (lo div u) then lo else hi)
     | _ \<Rightarrow> a)"

definition shortest_nat :: "nat \<Rightarrow> nat" where
  "shortest_nat a =
     (case find (\<lambda>u. round_candidates a u \<noteq> []) (digit_units a) of
       None \<Rightarrow> a
     | Some u \<Rightarrow> closest a u (round_candidates a u))"

section \<open>Bit length\<close>

lemma bitlen_0 [simp]: "bitlen 0 = 0"
  by (simp add: bitlen.simps)

lemma bitlen_pos: "0 < n \<Longrightarrow> bitlen n = Suc (bitlen (n div 2))"
  by (simp add: bitlen.simps)

lemma bitlen_less: "n < 2 ^ k \<longleftrightarrow> bitlen n \<le> k"
proof (induction n arbitrary: k rule: bitlen.induct)
  case (1 n)
  show ?case
  proof (cases "n = 0")
    case False
    then show ?thesis using "1.IH" [of "k - 1"] by (cases k) (auto simp: bitlen_pos)
  qed simp
qed

lemma bitlen_double: "0 < m \<Longrightarrow> bitlen (m * 2) = Suc (bitlen m)"
  by (simp add: bitlen_pos)

lemma bitlen_mult_pow: "0 < m \<Longrightarrow> bitlen (m * 2 ^ e) = bitlen m + e"
proof (induction e arbitrary: m)
  case (Suc e)
  then show ?case using Suc.IH [of "m * 2"] by (simp add: bitlen_double mult.assoc)
qed simp

lemma bitlen_half: "bitlen (n div 2) = bitlen n - 1"
  by (cases "n = 0") (simp_all add: bitlen_pos)

lemma bitlen_div_pow: "bitlen (n div 2 ^ e) = bitlen n - e"
proof (induction e arbitrary: n)
  case (Suc e)
  then show ?case using Suc.IH [of "n div 2"] by (simp add: bitlen_half div_mult2_eq)
qed simp

section \<open>Rounding\<close>

lemma round_nat_small: "bitlen a \<le> 53 \<Longrightarrow> round_nat a = a"
  by (simp add: round_nat_def)

lemma round_nat_0 [simp]: "round_nat 0 = 0"
  by (simp add: round_nat_small)

lemma round_nat_exact:
  assumes "m < 2 ^ 53"
  shows "round_nat (m * 2 ^ e) = m * 2 ^ e"
proof (cases "m = 0")
  case False
  let ?E = "bitlen (m * 2 ^ e) - 53"
  have "bitlen m \<le> 53" using assms bitlen_less by blast
  then have E: "?E \<le> e" using False by (simp add: bitlen_mult_pow)
  then have eq: "m * 2 ^ e = (m * 2 ^ (e - ?E)) * 2 ^ ?E"
    by (simp add: mult.assoc power_add [symmetric])
  have "m * 2 ^ e div 2 ^ ?E = m * 2 ^ (e - ?E)" and "m * 2 ^ e mod 2 ^ ?E = 0"
    by (subst eq, simp)+
  then show ?thesis by (simp add: round_nat_def Let_def eq [symmetric])
qed simp

lemma safe_round_nat: "a \<le> 2 ^ 53 \<Longrightarrow> round_nat a = a"
  using round_nat_exact [of "2 ^ 52" 1] round_nat_exact [of a 0]
  by (cases "a = 2 ^ 53") simp_all

lemma round_nat_idem: "round_nat (round_nat a) = round_nat a"
proof -
  define e where "e = bitlen a - 53"
  define q where "q = a div 2 ^ e"
  have "bitlen q \<le> 53" by (simp add: q_def e_def bitlen_div_pow)
  then have q: "q < 2 ^ 53" using bitlen_less by blast
  obtain q' where r: "round_nat a = q' * 2 ^ e" and q': "q' = q \<or> q' = q + 1"
    by (auto simp: round_nat_def Let_def e_def q_def)
  show ?thesis
  proof (cases "q' < 2 ^ 53")
    case True
    then show ?thesis by (simp add: r round_nat_exact)
  next
    case False
    with q q' have "q' = 2 ^ 52 * 2" by auto
    then have "round_nat a = 2 ^ 52 * 2 ^ Suc e" by (simp add: r)
    then show ?thesis using round_nat_exact [of "2 ^ 52" "Suc e"] by simp
  qed
qed

lemma round_nat_pos: "0 < a \<Longrightarrow> 0 < round_nat a"
proof -
  assume a: "0 < a"
  define e where "e = bitlen a - 53"
  have "\<not> a < 2 ^ e"
    using a bitlen_less [of a e] by (cases "e = 0") (auto simp: e_def)
  then have "0 < a div 2 ^ e" by (simp add: div_greater_zero_iff)
  then show ?thesis by (simp add: round_nat_def Let_def e_def [symmetric])
qed

lemma round_nat_eq_0: "round_nat a = 0 \<longleftrightarrow> a = 0"
  using round_nat_pos [of a] by (cases "a = 0") auto

text \<open>The rounding error is at most half a unit in the last place.\<close>

lemma round_nat_error:
  "2 * (if a \<le> round_nat a then round_nat a - a else a - round_nat a) \<le> 2 ^ (bitlen a - 53)"
proof -
  define u :: nat where "u = 2 ^ (bitlen a - 53)"
  define q where "q = a div u"
  define r where "r = a mod u"
  have a: "a = q * u + r" by (simp add: q_def r_def)
  have "0 < u" by (simp add: u_def)
  then have r: "r < u" by (simp add: r_def)
  have R: "round_nat a = (if u < 2 * r \<or> (2 * r = u \<and> odd q) then q + 1 else q) * u"
    by (simp add: round_nat_def Let_def u_def [symmetric] q_def [symmetric] r_def [symmetric])
  show ?thesis
  proof (cases "u < 2 * r \<or> (2 * r = u \<and> odd q)")
    case True
    then have "round_nat a = a + (u - r)" using R r a by simp
    with True show ?thesis unfolding u_def [symmetric] by auto
  next
    case False
    then have "round_nat a = q * u" using R by auto
    then have "round_nat a + r = a" using a by simp
    with False show ?thesis unfolding u_def [symmetric] by auto
  qed
qed

lemma round_double_idem: "round_double (round_double n) = round_double n"
  by (cases "0 < n") (auto simp: round_double_def round_nat_idem round_nat_eq_0 abs_if sgn_if)

lemma js_int_round:
  "nat \<bar>round_double n\<bar> < json_int_limit \<Longrightarrow> js_int (round_double n)"
  by (simp add: js_int_def round_double_idem)

lemma safe_js_int: "\<bar>n\<bar> \<le> 2 ^ 53 \<Longrightarrow> js_int n"
proof -
  assume "\<bar>n\<bar> \<le> 2 ^ 53"
  then have "nat \<bar>n\<bar> \<le> 2 ^ 53" by (simp add: nat_le_iff)
  then show ?thesis
    by (auto simp: js_int_def round_double_def safe_round_nat json_int_limit_def abs_if sgn_if)
qed

lemma js_int_of_rounded:
  assumes "round_nat a = a" and "a < json_int_limit"
  shows "js_int (int a)" and "js_int (- int a)"
  using assms by (auto simp: js_int_def round_double_def sgn_if)

lemma js_int_nat_abs: "js_int n \<Longrightarrow> round_nat (nat \<bar>n\<bar>) = nat \<bar>n\<bar> \<and> nat \<bar>n\<bar> < json_int_limit"
  by (cases "0 < n") (auto simp: js_int_def round_double_def sgn_if abs_if split: if_splits)

section \<open>The shortest digits round back\<close>

lemma closest_in: "cs \<noteq> [] \<Longrightarrow> length cs \<le> 2 \<Longrightarrow> closest a u cs \<in> set cs"
  by (cases cs rule: remdups_adj.cases) (auto simp: closest_def)

lemma shortest_cases:
  "shortest_nat a = a
   \<or> (\<exists>u \<in> set (digit_units a). shortest_nat a \<in> set (round_candidates a u))"
proof (cases "find (\<lambda>u. round_candidates a u \<noteq> []) (digit_units a)")
  case (Some u)
  then have u: "u \<in> set (digit_units a)" and ne: "round_candidates a u \<noteq> []"
    by (auto simp: find_Some_iff)
  have "length (round_candidates a u) \<le> 2"
    unfolding round_candidates_def using length_filter_le [of _ "[a div u * u, a div u * u + u]"] by simp
  then have "shortest_nat a \<in> set (round_candidates a u)"
    using Some closest_in [OF ne] by (simp add: shortest_nat_def)
  with u show ?thesis by blast
qed (simp add: shortest_nat_def)

lemma round_candidates_mem:
  "c \<in> set (round_candidates a u) \<Longrightarrow> round_nat c = a \<and> (c = a div u * u \<or> c = (a div u + 1) * u)"
  unfolding round_candidates_def set_filter by auto

lemma round_shortest: "round_nat a = a \<Longrightarrow> round_nat (shortest_nat a) = a"
  using shortest_cases [of a] round_candidates_mem by metis

lemma shortest_eq_0: "round_nat a = a \<Longrightarrow> shortest_nat a = 0 \<longleftrightarrow> a = 0"
  using round_shortest [of a] round_nat_eq_0 [of "shortest_nat a"] by auto

lemma ndigits_le: "a < 10 ^ k \<Longrightarrow> 0 < k \<Longrightarrow> ndigits a \<le> k"
proof (induction a arbitrary: k rule: ndigits.induct)
  case (1 a)
  show ?case
  proof (cases "a < 10")
    case False
    obtain k' where k: "k = Suc k'" using "1.prems"(2) by (cases k) auto
    have "0 < k'"
      using False "1.prems"(1) k by (cases k') auto
    moreover have "a div 10 < 10 ^ k'"
      using "1.prems"(1) k by (simp add: less_mult_imp_div_less mult.commute)
    ultimately have "ndigits (a div 10) \<le> k'" using "1.IH" False by blast
    then show ?thesis using False k by (subst ndigits.simps) simp
  qed (use "1.prems" in \<open>simp add: ndigits.simps\<close>)
qed

lemma digit_unit_pow:
  "u \<in> set (digit_units a) \<Longrightarrow> a < 10 ^ 21 \<Longrightarrow> \<exists>j \<le> 20. u = 10 ^ j"
proof -
  assume u: "u \<in> set (digit_units a)" and a: "a < 10 ^ 21"
  have "ndigits a \<le> 21" using ndigits_le [OF a] by simp
  with u show ?thesis by (auto simp: digit_units_def)
qed

lemma next_multiple_le: "a < m * u \<Longrightarrow> (a div u + 1) * u \<le> m * (u :: nat)"
proof -
  assume a: "a < m * u"
  then have "0 < u" by (cases u) simp_all
  with a have "a div u < m" by (simp add: div_less_iff_less_mult)
  then have "a div u + 1 \<le> m" by simp
  then show ?thesis by (rule mult_le_mono1)
qed

lemma round_limit: "round_nat json_int_limit = json_int_limit"
proof -
  have eq: "json_int_limit = 5 ^ 21 * 2 ^ 21" by (simp add: json_int_limit_def)
  have "(5 :: nat) ^ 21 < 2 ^ 53" by simp
  then show ?thesis unfolding eq by (rule round_nat_exact)
qed

lemma shortest_limit:
  assumes a: "a < json_int_limit" and r: "round_nat a = a"
  shows "shortest_nat a < json_int_limit"
  using shortest_cases [of a]
proof
  assume "\<exists>u \<in> set (digit_units a). shortest_nat a \<in> set (round_candidates a u)"
  then obtain u where u: "u \<in> set (digit_units a)" and c: "shortest_nat a \<in> set (round_candidates a u)"
    by blast
  have a21: "a < 10 ^ 21" using a by (simp add: json_int_limit_def)
  obtain j where j: "j \<le> 20" "u = 10 ^ j" using digit_unit_pow [OF u a21] by blast
  then have lim: "json_int_limit = 10 ^ (21 - j) * u"
    by (simp add: json_int_limit_def power_add [symmetric])
  have lo: "a div u * u \<le> a" by (simp add: times_div_less_eq_dividend)
  have hi: "(a div u + 1) * u \<le> json_int_limit"
    using next_multiple_le [of a "10 ^ (21 - j)" u] a lim by simp
  have "round_nat (shortest_nat a) = a" and cases: "shortest_nat a = a div u * u \<or> shortest_nat a = (a div u + 1) * u"
    using round_candidates_mem [OF c] by simp_all
  then have "shortest_nat a \<noteq> json_int_limit" using a round_limit by auto
  with cases lo hi a show ?thesis by linarith
qed (use a in simp)

section \<open>Safe integers print as their digits\<close>

lemma round_to_safe:
  assumes r: "round_nat c = a" and a: "a \<le> 2 ^ 53"
  shows "c = a \<or> (a = 2 ^ 53 \<and> c = 2 ^ 53 + 1)"
proof (cases "c \<le> 2 ^ 53")
  case True
  then show ?thesis using r safe_round_nat by auto
next
  case False
  define b where "b = bitlen c"
  have "\<not> bitlen c \<le> 53" using False bitlen_less [of c 53] by simp
  then have b: "54 \<le> b" by (simp add: b_def)
  have err: "2 * (c - a) \<le> 2 ^ (b - 53)"
    using round_nat_error [of c] r False a by (simp add: b_def)
  show ?thesis
  proof (cases "b = 54")
    case True
    then have "c - a \<le> 1" using err by simp
    then show ?thesis using False a by arith
  next
    case False
    define k where "k = b - 55"
    have k: "b = k + 55" using b False by (simp add: k_def)
    have "\<not> c < 2 ^ (k + 54)" using bitlen_less [of c "k + 54"] k by (simp add: b_def)
    then have c1: "2 ^ k * 2 ^ 54 \<le> c" by (simp add: power_add)
    have "2 * (c - a) \<le> 2 ^ k * 4" using err k by (simp add: power_add)
    then have c2: "c \<le> 2 ^ k * 2 + a" by arith
    define x :: nat where "x = 2 ^ k"
    have "x * 18014398509481984 \<le> c" "c \<le> x * 2 + a" "1 \<le> x" "a \<le> 9007199254740992"
      using c1 c2 a by (simp_all add: x_def)
    then have False by linarith
    then show ?thesis ..
  qed
qed

lemma shortest_safe:
  assumes a: "a \<le> 2 ^ 53"
  shows "shortest_nat a = a"
proof (cases "find (\<lambda>u. round_candidates a u \<noteq> []) (digit_units a)")
  case (Some u)
  have "u \<in> set (digit_units a)" and ne: "round_candidates a u \<noteq> []"
    using Some by (auto simp: find_Some_iff)
  then obtain j where j: "u = 10 ^ j" by (auto simp: digit_units_def)
  let ?lo = "a div u * u" and ?hi = "a div u * u + u"
  have ra: "round_nat a = a" using a by (rule safe_round_nat)
  have lo: "?lo \<le> a" by (simp add: times_div_less_eq_dividend)
  have "0 < u" using j by simp
  then have hi: "a < ?hi" using mod_less_divisor [of u a] div_mult_mod_eq [of a u] by linarith
  have short: "shortest_nat a = closest a u (round_candidates a u)" using Some by (simp add: shortest_nat_def)
  show ?thesis
  proof (cases "?lo = a")
    case True
    with ra hi show ?thesis by (simp add: short round_candidates_def closest_def)
  next
    case False
    have "round_nat ?lo \<noteq> a"
    proof
      assume "round_nat ?lo = a"
      from round_to_safe [OF this a] show False
      proof (elim disjE conjE)
      qed (use False lo in linarith)+
    qed
    then have cs: "round_candidates a u = (if round_nat ?hi = a then [?hi] else [])"
      by (simp add: round_candidates_def)
    then have rh: "round_nat ?hi = a" using ne by (auto split: if_splits)
    have "?hi = a"
    proof (rule ccontr)
      assume "?hi \<noteq> a"
      then have h: "a = 2 ^ 53" "?hi = 2 ^ 53 + 1" using round_to_safe [OF rh a] by auto
      have "u \<noteq> 1"
      proof
        assume "u = 1"
        then have "?lo = a" by simp
        with False show False by simp
      qed
      then have "0 < j" using j by (cases j) auto
      then have "even ?hi" using j by (cases j) simp_all
      with h show False by simp
    qed
    then show ?thesis using cs rh by (simp add: short closest_def)
  qed
qed (simp add: shortest_nat_def)

end
