(* ===== verification/JsValue.thy ===== *)
theory JsValue
  imports JsNumber
begin

text \<open>
  The values the consumer builds, parses and serializes: the JSON-representable values
  of the JavaScript runtime, ordinary objects with their own-key order, and the two
  property accesses of \<open>TransactionConsumer.broadcastTxRequest\<close>
  (\<open>parsedTypedData.message\<close> and \<open>... .msgs = null\<close>), in strict mode.
  Errors the runtime throws are values of \<open>js_error\<close>.
\<close>

section \<open>Errors\<close>

datatype type_error =
    ReadPropertyOfNullish      \<comment> \<open>\<open>undefined.p\<close>, \<open>null.p\<close>\<close>
  | SetPropertyOfNullish       \<comment> \<open>\<open>undefined.p = v\<close>, \<open>null.p = v\<close>\<close>
  | SetPropertyOnPrimitive     \<comment> \<open>\<open>"s".p = v\<close> in strict mode\<close>
  | BufferFromUndefined        \<comment> \<open>\<open>Buffer.from(undefined, 'utf8')\<close>\<close>

datatype js_error =
    TypeError type_error
  | SyntaxError                   \<comment> \<open>\<open>JSON.parse\<close> on text that is not JSON\<close>
  | UnmodelledNumber              \<comment> \<open>a JSON number that is not an integer below \<open>10^21\<close>\<close>
  | GrpcException "jstring option" \<comment> \<open>\<open>new GrpcException(e.message)\<close>\<close>
  | ExternalError jstring         \<comment> \<open>thrown by an external utility, with its message\<close>

section \<open>Values\<close>

text \<open>
  Numbers are the integers that are doubles below \<open>10^21\<close> (\<open>js_int\<close>); \<open>JArray\<close> holes
  read as \<open>undefined\<close>, which is how \<open>JSON.stringify\<close> treats them. An object is its
  list of own data properties in creation order.
\<close>

datatype jsval =
    JUndefined
  | JNull
  | JBool bool
  | JNumber int
  | JString jstring
  | JArray "jsval list"
  | JObject "(jstring \<times> jsval) list"

section \<open>Array indices and the own-key order\<close>

text \<open>
  \<open>OrdinaryOwnPropertyKeys\<close>: keys that are array indices come first, in ascending
  numeric order, then the other string keys in creation order. An array index is the
  canonical decimal text of a number below \<open>2^32 - 1\<close>.
\<close>

definition is_digit :: "u16 \<Rightarrow> bool" where
  "is_digit c \<longleftrightarrow> 48 \<le> c \<and> c \<le> 57"

definition decimal_value :: "jstring \<Rightarrow> nat" where
  "decimal_value ds = foldl (\<lambda>n c. 10 * n + (unat c - 48)) 0 ds"

definition array_index :: "jstring \<Rightarrow> nat option" where
  "array_index k =
     (if k \<noteq> [] \<and> list_all is_digit k \<and> (hd k = 48 \<longrightarrow> length k = 1)
         \<and> decimal_value k < 2 ^ 32 - 1
      then Some (decimal_value k) else None)"

definition index_key :: "jstring \<Rightarrow> nat" where
  "index_key k = (case array_index k of Some i \<Rightarrow> i | None \<Rightarrow> 0)"

definition own_entries :: "(jstring \<times> 'a) list \<Rightarrow> (jstring \<times> 'a) list" where
  "own_entries ps =
     sort_key (\<lambda>p. index_key (fst p)) (filter (\<lambda>p. array_index (fst p) \<noteq> None) ps)
     @ filter (\<lambda>p. array_index (fst p) = None) ps"

section \<open>Ordinary objects as association lists\<close>

text \<open>
  Setting an existing own property keeps its position; a new one is appended. This is
  also how \<open>JSON.parse\<close> builds an object when a key is repeated.
\<close>

fun obj_set :: "(jstring \<times> 'a) list \<Rightarrow> jstring \<Rightarrow> 'a \<Rightarrow> (jstring \<times> 'a) list" where
  "obj_set [] k v = [(k, v)]"
| "obj_set ((k', v') # ps) k v =
     (if k' = k then (k, v) # ps else (k', v') # obj_set ps k v)"

definition obj_get :: "(jstring \<times> jsval) list \<Rightarrow> jstring \<Rightarrow> jsval" where
  "obj_get ps k = (case map_of ps k of None \<Rightarrow> JUndefined | Some v \<Rightarrow> v)"

section \<open>Property read and strict-mode property write\<close>

text \<open>
  \<open>get_prop v k\<close> is \<open>v[k]\<close>. Own data properties of objects, and \<open>length\<close> and the
  indices of strings and arrays, are modelled; inherited members of the prototypes are
  functions, which are not values of this model, so the model reads them as
  \<open>undefined\<close> (the consumer only reads \<open>message\<close>, which no prototype defines).
\<close>

fun get_prop :: "jsval \<Rightarrow> jstring \<Rightarrow> js_error + jsval" where
  "get_prop JUndefined k = Inl (TypeError ReadPropertyOfNullish)"
| "get_prop JNull k = Inl (TypeError ReadPropertyOfNullish)"
| "get_prop (JObject ps) k = Inr (obj_get ps k)"
| "get_prop (JString s) k =
     (if k = js_str ''length'' then Inr (JNumber (int (length s)))
      else case array_index k of
        Some i \<Rightarrow> Inr (if i < length s then JString [s ! i] else JUndefined)
      | None \<Rightarrow> Inr JUndefined)"
| "get_prop (JArray xs) k =
     (if k = js_str ''length'' then Inr (JNumber (int (length xs)))
      else case array_index k of
        Some i \<Rightarrow> Inr (if i < length xs then xs ! i else JUndefined)
      | None \<Rightarrow> Inr JUndefined)"
| "get_prop (JBool b) k = Inr JUndefined"
| "get_prop (JNumber n) k = Inr JUndefined"

text \<open>
  \<open>set_named_prop v k x\<close> is the strict-mode assignment \<open>v[k] = x\<close> for a key \<open>k\<close>
  that is neither an array index nor \<open>length\<close> (the consumer assigns \<open>msgs\<close>).
  On an array such a key becomes a named property, which \<open>JSON.stringify\<close> never
  visits, so the array's JSON value is unchanged.
\<close>

fun set_named_prop :: "jsval \<Rightarrow> jstring \<Rightarrow> jsval \<Rightarrow> js_error + jsval" where
  "set_named_prop JUndefined k x = Inl (TypeError SetPropertyOfNullish)"
| "set_named_prop JNull k x = Inl (TypeError SetPropertyOfNullish)"
| "set_named_prop (JBool b) k x = Inl (TypeError SetPropertyOnPrimitive)"
| "set_named_prop (JNumber n) k x = Inl (TypeError SetPropertyOnPrimitive)"
| "set_named_prop (JString s) k x = Inl (TypeError SetPropertyOnPrimitive)"
| "set_named_prop (JArray xs) k x = Inr (JArray xs)"
| "set_named_prop (JObject ps) k x = Inr (JObject (obj_set ps k x))"

section \<open>Well-formed values\<close>

text \<open>
  What every value the runtime can hold satisfies: numbers are exact doubles, and an
  object has each key once.
\<close>

fun wf_jsval :: "jsval \<Rightarrow> bool" where
  "wf_jsval (JNumber n) = js_int n"
| "wf_jsval (JArray xs) = list_all wf_jsval xs"
| "wf_jsval (JObject ps) = (distinct (map fst ps) \<and> list_all (\<lambda>p. wf_jsval (snd p)) ps)"
| "wf_jsval v = True"

section \<open>Lemmas on objects\<close>

lemma set_own_entries: "set (own_entries ps) = set ps"
  by (auto simp: own_entries_def)

lemma map_of_obj_set: "map_of (obj_set ps k v) = (map_of ps)(k \<mapsto> v)"
  by (induction ps) (auto simp: fun_eq_iff)

lemma obj_get_obj_set: "obj_get (obj_set ps k v) k' = (if k' = k then v else obj_get ps k')"
  by (simp add: obj_get_def map_of_obj_set)

lemma fst_set_obj_set: "fst ` set (obj_set ps k v) = insert k (fst ` set ps)"
  by (induction ps) (force split: if_splits)+

lemma distinct_obj_set: "distinct (map fst ps) \<Longrightarrow> distinct (map fst (obj_set ps k v))"
  by (induction ps) (auto simp: fst_set_obj_set)

lemma set_obj_set: "set (obj_set ps k v) \<subseteq> insert (k, v) (set ps)"
  by (induction ps) (auto split: if_splits)

lemma wf_obj_set:
  assumes "wf_jsval (JObject ps)" and "wf_jsval x"
  shows "wf_jsval (JObject (obj_set ps k x))"
proof -
  have "\<forall>p\<in>set (obj_set ps k x). wf_jsval (snd p)"
    using set_obj_set [of ps k x] assms by (auto simp: list_all_iff)
  with assms show ?thesis
    by (simp add: distinct_obj_set list_all_iff)
qed

lemma wf_set_named_prop:
  "wf_jsval m \<Longrightarrow> wf_jsval x \<Longrightarrow> set_named_prop m k x = Inr m' \<Longrightarrow> wf_jsval m'"
  by (cases m) (use wf_obj_set [of _ x k] in auto)

lemma wf_obj_get:
  assumes "list_all (\<lambda>p. wf_jsval (snd p)) ps"
  shows "wf_jsval (obj_get ps k)"
proof (cases "map_of ps k")
  case (Some v)
  then have "(k, v) \<in> set ps" by (rule map_of_SomeD)
  with assms Some show ?thesis by (auto simp: obj_get_def list_all_iff)
qed (simp add: obj_get_def)

lemma wf_get_prop:
  "wf_jsval v \<Longrightarrow> k \<noteq> js_str ''length'' \<Longrightarrow> get_prop v k = Inr w \<Longrightarrow> wf_jsval w"
  by (cases v) (auto simp: wf_obj_get list_all_length split: option.splits if_splits)

end
