(* ===== verification/JsonStringify.thy ===== *)
theory JsonStringify
  imports JsValue
begin

text \<open>
  \<open>JSON.stringify(v)\<close> with no replacer and no indentation, as the consumer calls it on
  the caller's message and on the typed data's \<open>message\<close> field: QuoteJSONString
  (well-formed, with lone surrogates escaped), number text for integer doubles (Number::toString), and
  SerializeJSONProperty, SerializeJSONObject and SerializeJSONArray. The result
  \<open>None\<close> is JavaScript's \<open>undefined\<close>.
\<close>

section \<open>Strings\<close>

definition hex_digit :: "nat \<Rightarrow> u16" where
  "hex_digit d = (if d < 10 then of_nat (48 + d) else of_nat (87 + d))"

text \<open>UnicodeEscape: \<open>\u\<close> and four lowercase hexadecimal digits.\<close>

definition unicode_escape :: "u16 \<Rightarrow> jstring" where
  "unicode_escape c =
     (let n = unat c in
      [92, 117, hex_digit (n div 4096), hex_digit (n div 256 mod 16),
       hex_digit (n div 16 mod 16), hex_digit (n mod 16)])"

text \<open>The table of QuoteJSONString for one code unit that is not part of a surrogate pair.\<close>

definition escape_unit :: "u16 \<Rightarrow> jstring" where
  "escape_unit c =
     (if c = 0x08 then [92, 98]
      else if c = 0x09 then [92, 116]
      else if c = 0x0A then [92, 110]
      else if c = 0x0C then [92, 102]
      else if c = 0x0D then [92, 114]
      else if c = 0x22 then [92, 34]
      else if c = 0x5C then [92, 92]
      else if c < 0x20 \<or> is_surrogate c then unicode_escape c
      else [c])"

fun quote_units :: "jstring \<Rightarrow> jstring" where
  "quote_units [] = []"
| "quote_units [c] = escape_unit c"
| "quote_units (c # d # ds) =
     (if is_high_surrogate c \<and> is_low_surrogate d then c # d # quote_units ds
      else escape_unit c @ quote_units (d # ds))"

definition quote_json_string :: "jstring \<Rightarrow> jstring" where
  "quote_json_string s = 34 # quote_units s @ [34]"

section \<open>Numbers\<close>

text \<open>
  \<open>Number::toString\<close> of an integer double below \<open>10^21\<close> in magnitude: the decimal
  digits of its shortest representation \<open>shortest_nat\<close>.
\<close>

fun nat_digits :: "nat \<Rightarrow> jstring" where
  "nat_digits n = (if n < 10 then [of_nat (48 + n)] else nat_digits (n div 10) @ [of_nat (48 + n mod 10)])"

declare nat_digits.simps [simp del]

definition number_text :: "int \<Rightarrow> jstring" where
  "number_text n =
     (if n < 0 then 45 # nat_digits (shortest_nat (nat (- n))) else nat_digits (shortest_nat (nat n)))"

section \<open>Values\<close>

fun join_comma :: "jstring list \<Rightarrow> jstring" where
  "join_comma [] = []"
| "join_comma [s] = s"
| "join_comma (s # t # ts) = s @ 44 # join_comma (t # ts)"

text \<open>
  SerializeJSONObject visits the own keys in \<open>own_entries\<close> order, skips a property whose
  value serializes to \<open>undefined\<close>, and writes \<open>"key":text\<close>; SerializeJSONArray writes
  \<open>null\<close> for an element that serializes to \<open>undefined\<close>. Serializing a property has no
  effect in this model (no \<open>toJSON\<close>, no getters), so the members are serialized in
  creation order and then put in key order, which gives the same text.
\<close>

definition member_texts :: "(jstring \<times> jstring option) list \<Rightarrow> jstring list" where
  "member_texts ms =
     List.map_filter (\<lambda>(k, t). map_option (\<lambda>s. quote_json_string k @ 58 # s) t) ms"

definition null_text :: jstring where
  "null_text = js_str ''null''"

fun stringify :: "jsval \<Rightarrow> jstring option"
and stringify_elems :: "jsval list \<Rightarrow> jstring list"
and stringify_members :: "(jstring \<times> jsval) list \<Rightarrow> (jstring \<times> jstring option) list" where
  "stringify JUndefined = None"
| "stringify JNull = Some null_text"
| "stringify (JBool b) = Some (if b then js_str ''true'' else js_str ''false'')"
| "stringify (JNumber n) = Some (number_text n)"
| "stringify (JString s) = Some (quote_json_string s)"
| "stringify (JArray xs) = Some (91 # join_comma (stringify_elems xs) @ [93])"
| "stringify (JObject ps) =
     Some (123 # join_comma (member_texts (own_entries (stringify_members ps))) @ [125])"
| "stringify_elems [] = []"
| "stringify_elems (x # xs) =
     (case stringify x of None \<Rightarrow> null_text | Some s \<Rightarrow> s) # stringify_elems xs"
| "stringify_members [] = []"
| "stringify_members ((k, v) # ps) = (k, stringify v) # stringify_members ps"

section \<open>Lemmas\<close>

theorem stringify_None_iff: "stringify v = None \<longleftrightarrow> v = JUndefined"
  by (cases v) simp_all

end
