(* ===== verification/Utf8.thy ===== *)
theory Utf8
  imports Prelude
begin

text \<open>
  \<open>Buffer.from(s, 'utf8')\<close>, which the consumer applies to every JSON text it sends:
  each code point of the UTF-16 string becomes one to four bytes, a surrogate pair
  becomes the four-byte form of its code point, and a lone surrogate becomes the bytes
  of \<open>U+FFFD\<close>. A strict UTF-8 decoder serves as the specification of the encoder:
  decoding the bytes gives back the string with its lone surrogates replaced.
\<close>

section \<open>Encoder\<close>

definition byte_of :: "nat \<Rightarrow> byte" where
  "byte_of n = of_nat n"

definition utf8_of_cp :: "nat \<Rightarrow> bytes" where
  "utf8_of_cp n =
     (if n < 0x80 then [byte_of n]
      else if n < 0x800 then [byte_of (0xC0 + n div 64), byte_of (0x80 + n mod 64)]
      else if n < 0x10000 then
        [byte_of (0xE0 + n div 4096), byte_of (0x80 + n div 64 mod 64), byte_of (0x80 + n mod 64)]
      else [byte_of (0xF0 + n div 262144), byte_of (0x80 + n div 4096 mod 64),
            byte_of (0x80 + n div 64 mod 64), byte_of (0x80 + n mod 64)])"

definition pair_cp :: "u16 \<Rightarrow> u16 \<Rightarrow> nat" where
  "pair_cp hi lo = 0x10000 + (unat hi - 0xD800) * 1024 + (unat lo - 0xDC00)"

definition replacement_char :: u16 where
  "replacement_char = 0xFFFD"

definition utf8_unit :: "u16 \<Rightarrow> bytes" where
  "utf8_unit c = (if is_surrogate c then utf8_of_cp (unat replacement_char) else utf8_of_cp (unat c))"

fun utf8_encode :: "jstring \<Rightarrow> bytes" where
  "utf8_encode [] = []"
| "utf8_encode [c] = utf8_unit c"
| "utf8_encode (c # d # ds) =
     (if is_high_surrogate c \<and> is_low_surrogate d then utf8_of_cp (pair_cp c d) @ utf8_encode ds
      else utf8_unit c @ utf8_encode (d # ds))"

text \<open>\<open>String.prototype.toWellFormed\<close>: the string the encoder really encodes.\<close>

fun to_well_formed :: "jstring \<Rightarrow> jstring" where
  "to_well_formed [] = []"
| "to_well_formed [c] = [if is_surrogate c then replacement_char else c]"
| "to_well_formed (c # d # ds) =
     (if is_high_surrogate c \<and> is_low_surrogate d then c # d # to_well_formed ds
      else (if is_surrogate c then replacement_char else c) # to_well_formed (d # ds))"

section \<open>Decoder\<close>

definition is_cont :: "byte \<Rightarrow> bool" where
  "is_cont b \<longleftrightarrow> 0x80 \<le> unat b \<and> unat b < 0xC0"

definition cont_bits :: "byte \<Rightarrow> nat" where
  "cont_bits b = unat b - 0x80"

definition cp_units :: "nat \<Rightarrow> jstring" where
  "cp_units n =
     (if n < 0x10000 then [of_nat n]
      else [of_nat (0xD800 + (n - 0x10000) div 1024), of_nat (0xDC00 + (n - 0x10000) mod 1024)])"

text \<open>
  One code point: the shortest form only, no encoded surrogates, nothing above
  \<open>U+10FFFF\<close>; the rest of the input is returned.
\<close>

definition utf8_decode_one :: "bytes \<Rightarrow> (nat \<times> bytes) option" where
  "utf8_decode_one bs =
     (case bs of
       [] \<Rightarrow> None
     | b # r \<Rightarrow>
         if unat b < 0x80 then Some (unat b, r)
         else if 0xC0 \<le> unat b \<and> unat b < 0xE0 then
           (case r of
             c # r' \<Rightarrow>
               (let n = (unat b - 0xC0) * 64 + cont_bits c in
                if is_cont c \<and> 0x80 \<le> n then Some (n, r') else None)
           | _ \<Rightarrow> None)
         else if 0xE0 \<le> unat b \<and> unat b < 0xF0 then
           (case r of
             c # d # r' \<Rightarrow>
               (let n = (unat b - 0xE0) * 4096 + cont_bits c * 64 + cont_bits d in
                if is_cont c \<and> is_cont d \<and> 0x800 \<le> n \<and> \<not> (0xD800 \<le> n \<and> n \<le> 0xDFFF)
                then Some (n, r') else None)
           | _ \<Rightarrow> None)
         else if 0xF0 \<le> unat b \<and> unat b < 0xF8 then
           (case r of
             c # d # e # r' \<Rightarrow>
               (let n = (unat b - 0xF0) * 262144 + cont_bits c * 4096 + cont_bits d * 64
                        + cont_bits e in
                if is_cont c \<and> is_cont d \<and> is_cont e \<and> 0x10000 \<le> n \<and> n \<le> 0x10FFFF
                then Some (n, r') else None)
           | _ \<Rightarrow> None)
         else None)"

function utf8_decode :: "bytes \<Rightarrow> jstring option" where
  "utf8_decode bs =
     (if bs = [] then Some []
      else case utf8_decode_one bs of
        None \<Rightarrow> None
      | Some (n, r) \<Rightarrow> map_option (append (cp_units n)) (utf8_decode r))"
  by pat_completeness auto
termination
  by (relation "measure length")
     (auto simp: utf8_decode_one_def Let_def split: list.splits if_splits)

declare utf8_decode.simps [simp del]

text \<open>The code points UTF-8 can carry: up to \<open>U+10FFFF\<close>, surrogates excluded.\<close>

definition valid_cp :: "nat \<Rightarrow> bool" where
  "valid_cp n \<longleftrightarrow> n \<le> 0x10FFFF \<and> \<not> (0xD800 \<le> n \<and> n \<le> 0xDFFF)"

text \<open>A string without lone surrogates.\<close>

fun well_formed_utf16 :: "jstring \<Rightarrow> bool" where
  "well_formed_utf16 [] = True"
| "well_formed_utf16 [c] = (\<not> is_surrogate c)"
| "well_formed_utf16 (c # d # ds) =
     (if is_high_surrogate c \<and> is_low_surrogate d then well_formed_utf16 ds
      else \<not> is_surrogate c \<and> well_formed_utf16 (d # ds))"

section \<open>The encoder against the decoder\<close>

subsection \<open>One code point\<close>

lemma unat_byte_of: "n < 256 \<Longrightarrow> unat (byte_of n) = n"
  by (simp add: byte_of_def unat_of_nat)

lemma decode_one_1: "n < 0x80 \<Longrightarrow> utf8_decode_one (utf8_of_cp n @ r) = Some (n, r)"
  by (simp add: utf8_of_cp_def utf8_decode_one_def unat_byte_of)

lemma decode_one_2: "0x80 \<le> n \<Longrightarrow> n < 0x800 \<Longrightarrow> utf8_decode_one (utf8_of_cp n @ r) = Some (n, r)"
proof -
  assume a: "0x80 \<le> n" "n < 0x800"
  then have b: "n div 64 < 32" by simp
  have "0xC0 + n div 64 < 256" "0x80 + n mod 64 < 256" using b by linarith+
  with a b show ?thesis
    by (simp add: utf8_of_cp_def utf8_decode_one_def unat_byte_of is_cont_def cont_bits_def Let_def)
qed

lemma div_mod_64_3: "(n::nat) div 4096 * 4096 + n div 64 mod 64 * 64 + n mod 64 = n"
proof -
  have "n div 64 = n div 64 div 64 * 64 + n div 64 mod 64" by simp
  moreover have "n div 64 div 64 = n div 4096" by (simp add: div_mult2_eq)
  ultimately have "n div 64 = n div 4096 * 64 + n div 64 mod 64" by simp
  then have "n div 64 * 64 = n div 4096 * 4096 + n div 64 mod 64 * 64" by simp
  then show ?thesis by (metis div_mult_mod_eq)
qed

lemma div_mod_64_4:
  "(n::nat) div 262144 * 262144 + n div 4096 mod 64 * 4096 + n div 64 mod 64 * 64 + n mod 64 = n"
proof -
  have "n div 4096 = n div 4096 div 64 * 64 + n div 4096 mod 64" by simp
  moreover have "n div 4096 div 64 = n div 262144" by (simp add: div_mult2_eq)
  ultimately have "n div 4096 * 4096 = n div 262144 * 262144 + n div 4096 mod 64 * 4096" by simp
  then show ?thesis using div_mod_64_3 [of n] by simp
qed

lemma decode_one_3:
  "0x800 \<le> n \<Longrightarrow> n < 0x10000 \<Longrightarrow> \<not> (0xD800 \<le> n \<and> n \<le> 0xDFFF) \<Longrightarrow>
   utf8_decode_one (utf8_of_cp n @ r) = Some (n, r)"
proof -
  assume a: "0x800 \<le> n" "n < 0x10000" "\<not> (0xD800 \<le> n \<and> n \<le> 0xDFFF)"
  have b: "n div 4096 < 16" using a by simp
  have "0xE0 + n div 4096 < 256" "0x80 + n div 64 mod 64 < 256" "0x80 + n mod 64 < 256"
    using b by linarith+
  with a b div_mod_64_3 [of n] show ?thesis
    by (simp add: utf8_of_cp_def utf8_decode_one_def unat_byte_of is_cont_def cont_bits_def Let_def)
qed

lemma decode_one_4:
  "0x10000 \<le> n \<Longrightarrow> n \<le> 0x10FFFF \<Longrightarrow> utf8_decode_one (utf8_of_cp n @ r) = Some (n, r)"
proof -
  assume a: "0x10000 \<le> n" "n \<le> 0x10FFFF"
  have b: "n div 262144 < 8" using a by simp
  have "0xF0 + n div 262144 < 256" "0x80 + n div 4096 mod 64 < 256"
    "0x80 + n div 64 mod 64 < 256" "0x80 + n mod 64 < 256"
    using b by linarith+
  with a b div_mod_64_4 [of n] show ?thesis
    by (simp add: utf8_of_cp_def utf8_decode_one_def unat_byte_of is_cont_def cont_bits_def Let_def)
qed

lemma decode_one_cp: "valid_cp n \<Longrightarrow> utf8_decode_one (utf8_of_cp n @ r) = Some (n, r)"
  unfolding valid_cp_def
  by (cases "n < 0x80"; cases "n < 0x800"; cases "n < 0x10000")
     (simp_all add: decode_one_1 decode_one_2 decode_one_3 decode_one_4)

lemma utf8_of_cp_nonempty: "utf8_of_cp n \<noteq> []"
  by (simp add: utf8_of_cp_def)

lemma utf8_decode_cp:
  "valid_cp n \<Longrightarrow> utf8_decode (utf8_of_cp n @ r) = map_option (append (cp_units n)) (utf8_decode r)"
  by (simp add: utf8_decode.simps [of "utf8_of_cp n @ r"] decode_one_cp utf8_of_cp_nonempty)

lemma cp_units_unat: "cp_units (unat c) = [c]"
proof -
  have "unat c < 0x10000" using unat_u16_less [of c] by simp
  then show ?thesis by (simp add: cp_units_def)
qed

lemma valid_cp_unit: "\<not> is_surrogate c \<Longrightarrow> valid_cp (unat c)"
  using unat_u16_less [of c]
  by (auto simp: valid_cp_def is_surrogate_def is_high_surrogate_unat is_low_surrogate_unat)

lemma valid_cp_replacement: "valid_cp (unat replacement_char)"
  by (simp add: valid_cp_def replacement_char_def)

lemma pair_cp_valid:
  "is_high_surrogate c \<Longrightarrow> is_low_surrogate d \<Longrightarrow> valid_cp (pair_cp c d) \<and> 0x10000 \<le> pair_cp c d"
  by (auto simp: valid_cp_def pair_cp_def is_high_surrogate_unat is_low_surrogate_unat)

lemma cp_units_pair:
  assumes h: "is_high_surrogate c" and l: "is_low_surrogate d"
  shows "cp_units (pair_cp c d) = [c, d]"
proof -
  let ?a = "unat c - 0xD800" and ?b = "unat d - 0xDC00"
  have ab: "?a < 1024" "?b < 1024"
    using h l by (auto simp: is_high_surrogate_unat is_low_surrogate_unat)
  have q: "(?a * 1024 + ?b) div 1024 = ?a" and r: "(?a * 1024 + ?b) mod 1024 = ?b"
    using ab by simp_all
  have "0xD800 + ?a = unat c" "0xDC00 + ?b = unat d"
    using h l by (auto simp: is_high_surrogate_unat is_low_surrogate_unat)
  then have "(of_nat (0xD800 + ?a) :: u16) = c" "(of_nat (0xDC00 + ?b) :: u16) = d"
    by simp_all
  with q r show ?thesis
    by (simp add: cp_units_def pair_cp_def)
qed

lemma utf8_unit_eq: "utf8_unit c = utf8_of_cp (unat (if is_surrogate c then replacement_char else c))"
  by (simp add: utf8_unit_def)

lemma valid_cp_unit_wf: "valid_cp (unat (if is_surrogate c then replacement_char else c))"
  by (simp add: valid_cp_unit valid_cp_replacement)

lemma utf8_decode_encode: "utf8_decode (utf8_encode s) = Some (to_well_formed s)"
proof (induction s rule: utf8_encode.induct)
  case 1
  then show ?case by (simp add: utf8_decode.simps)
next
  case (2 c)
  have "utf8_decode (utf8_unit c @ []) = map_option (append (cp_units (unat (if is_surrogate c then replacement_char else c)))) (utf8_decode [])"
    unfolding utf8_unit_eq by (rule utf8_decode_cp [OF valid_cp_unit_wf])
  then show ?case by (simp add: cp_units_unat utf8_decode.simps [of "[]"])
next
  case (3 c d ds)
  show ?case
  proof (cases "is_high_surrogate c \<and> is_low_surrogate d")
    case True
    with "3.IH"(1) show ?thesis
      by (simp add: utf8_decode_cp pair_cp_valid cp_units_pair)
  next
    case False
    then have enc: "utf8_encode (c # d # ds) = utf8_unit c @ utf8_encode (d # ds)"
      and wf: "to_well_formed (c # d # ds)
               = (if is_surrogate c then replacement_char else c) # to_well_formed (d # ds)"
      by (simp_all only: utf8_encode.simps(3) to_well_formed.simps(3) if_not_P if_False)
    have "utf8_decode (utf8_unit c @ utf8_encode (d # ds))
          = map_option (append [if is_surrogate c then replacement_char else c])
              (utf8_decode (utf8_encode (d # ds)))"
      unfolding utf8_unit_eq
      by (simp only: utf8_decode_cp [OF valid_cp_unit_wf] cp_units_unat)
    with "3.IH"(2) False enc wf show ?thesis
      by simp
  qed
qed

subsection \<open>Consequences\<close>

lemma to_well_formed_id: "well_formed_utf16 s \<Longrightarrow> to_well_formed s = s"
  by (induction s rule: to_well_formed.induct) (auto split: if_splits)

end
