(* ===== verification/JsonBytes.thy ===== *)
theory JsonBytes
  imports JsonStringify Utf8
begin

text \<open>
  The text \<open>JSON.stringify\<close> produces is well-formed UTF-16: QuoteJSONString keeps a
  surrogate pair and escapes every lone surrogate as \<open>\uXXXX\<close>, and everything else it
  writes is ASCII. So \<open>Buffer.from(JSON.stringify(v), 'utf8')\<close> replaces nothing, and
  its bytes determine the text exactly (see the lemmas on \<open>json_buffer\<close> in
  \<open>TransactionConsumer\<close>).
\<close>

section \<open>Well-formed strings\<close>

lemma well_formed_Cons_plain:
  "\<not> is_surrogate c \<Longrightarrow> well_formed_utf16 (c # s) = well_formed_utf16 s"
  by (cases s) (simp_all add: is_surrogate_def)

lemma well_formed_append:
  "well_formed_utf16 s \<Longrightarrow> well_formed_utf16 t \<Longrightarrow> well_formed_utf16 (s @ t)"
proof (induction s rule: well_formed_utf16.induct)
  case (2 c)
  then show ?case by (simp add: well_formed_Cons_plain)
next
  case (3 c d ds)
  then show ?case by (auto split: if_splits)
qed simp

lemma well_formed_plain:
  "list_all (\<lambda>c. \<not> is_surrogate c) s \<Longrightarrow> well_formed_utf16 s"
  by (induction s) (simp_all add: well_formed_Cons_plain)

lemma small_not_surrogate: "unat c < 0xD800 \<Longrightarrow> \<not> is_surrogate c"
  by (simp add: is_surrogate_def is_high_surrogate_unat is_low_surrogate_unat)

lemma of_nat_not_surrogate: "m < 0xD800 \<Longrightarrow> \<not> is_surrogate (of_nat m :: u16)"
  by (rule small_not_surrogate) (simp add: unat_of_nat)

lemma js_str_plain: "list_all (\<lambda>c. \<not> is_surrogate c) (js_str s)"
proof -
  have "c \<in> set (js_str s) \<Longrightarrow> \<not> is_surrogate c" for c
    using unat_js_str_char [of c s] small_not_surrogate [of c] by simp
  then show ?thesis by (simp add: list_all_iff)
qed

section \<open>The pieces of the serializer\<close>

lemma hex_digit_plain: "d < 16 \<Longrightarrow> \<not> is_surrogate (hex_digit d)"
  using of_nat_not_surrogate [of "48 + d"] of_nat_not_surrogate [of "87 + d"]
  by (simp add: hex_digit_def)

lemma unicode_escape_plain: "list_all (\<lambda>c. \<not> is_surrogate c) (unicode_escape c)"
proof -
  have "unat c < 65536" by (rule unat_u16_less)
  then have "unat c div 4096 < 16" by simp
  then show ?thesis
    by (simp add: unicode_escape_def Let_def hex_digit_plain small_not_surrogate)
qed

lemma escape_unit_plain: "list_all (\<lambda>c. \<not> is_surrogate c) (escape_unit c)"
  by (simp add: escape_unit_def unicode_escape_plain small_not_surrogate)

lemma quote_units_well_formed: "well_formed_utf16 (quote_units s)"
proof (induction s rule: quote_units.induct)
  case (3 c d ds)
  then show ?case
    by (simp add: well_formed_append well_formed_plain escape_unit_plain)
qed (simp_all add: well_formed_plain escape_unit_plain)

lemma quote_json_string_well_formed: "well_formed_utf16 (quote_json_string s)"
  by (simp add: quote_json_string_def well_formed_Cons_plain small_not_surrogate
      well_formed_append quote_units_well_formed)

lemma nat_digits_plain: "list_all (\<lambda>c. \<not> is_surrogate c) (nat_digits n)"
proof (induction n rule: nat_digits.induct)
  case (1 n)
  then show ?case
    using of_nat_not_surrogate [of "48 + n"] of_nat_not_surrogate [of "48 + n mod 10"]
    by (subst nat_digits.simps) simp
qed

lemma number_text_well_formed: "well_formed_utf16 (number_text n)"
  by (simp add: number_text_def well_formed_plain nat_digits_plain small_not_surrogate)

lemma join_comma_well_formed:
  "list_all well_formed_utf16 ts \<Longrightarrow> well_formed_utf16 (join_comma ts)"
  by (induction ts rule: join_comma.induct)
     (simp_all add: well_formed_append well_formed_Cons_plain small_not_surrogate)

lemma member_texts_well_formed:
  assumes "\<forall>(k, t) \<in> set ms. \<forall>s. t = Some s \<longrightarrow> well_formed_utf16 s"
  shows "list_all well_formed_utf16 (member_texts ms)"
  using assms
  by (auto simp: member_texts_def list_all_iff map_filter_def quote_json_string_well_formed
      well_formed_append well_formed_Cons_plain small_not_surrogate)

section \<open>The serializer\<close>

lemma stringify_well_formed_all:
  shows "\<forall>s. stringify v = Some s \<longrightarrow> well_formed_utf16 s"
    and "list_all well_formed_utf16 (stringify_elems xs)"
    and "\<forall>(k, t) \<in> set (stringify_members ps). \<forall>s. t = Some s \<longrightarrow> well_formed_utf16 s"
proof (induction v and xs and ps rule: stringify_stringify_elems_stringify_members.induct)
  case (6 xs)
  then show ?case
    by (simp add: join_comma_well_formed well_formed_append well_formed_Cons_plain small_not_surrogate)
next
  case (7 ps)
  then have "list_all well_formed_utf16 (member_texts (own_entries (stringify_members ps)))"
    by (intro member_texts_well_formed) (simp add: set_own_entries)
  then show ?case
    by (simp add: join_comma_well_formed well_formed_append well_formed_Cons_plain small_not_surrogate)
next
  case (9 x xs)
  then show ?case
    by (simp add: null_text_def well_formed_plain js_str_plain split: option.splits)
qed (auto simp: null_text_def well_formed_plain js_str_plain quote_json_string_well_formed
       number_text_well_formed)

lemma stringify_well_formed: "stringify v = Some s \<Longrightarrow> well_formed_utf16 s"
  using stringify_well_formed_all(1) [of v] by simp

end
