(* ===== verification/JsonParse.thy ===== *)
theory JsonParse
  imports JsValue
begin

text \<open>
  \<open>JSON.parse(text)\<close> without a reviver, as \<open>broadcastTxRequest\<close> applies it to the
  typed data of the prepare response: whitespace, literals, strings with all escapes,
  integer numbers, arrays and objects (built with \<open>obj_set\<close>, so a repeated key keeps
  its first position and its last value). The recursive descent carries fuel; running
  out is \<open>None\<close>, and \<open>json_parse_fuel_enough\<close> shows the fuel \<open>json_parse\<close> gives
  is always enough.
\<close>

section \<open>Lexical pieces\<close>

definition is_json_ws :: "u16 \<Rightarrow> bool" where
  "is_json_ws c \<longleftrightarrow> c = 32 \<or> c = 9 \<or> c = 10 \<or> c = 13"

definition skip_ws :: "jstring \<Rightarrow> jstring" where
  "skip_ws s = dropWhile is_json_ws s"

definition hex_value :: "u16 \<Rightarrow> nat option" where
  "hex_value c =
     (if 48 \<le> unat c \<and> unat c \<le> 57 then Some (unat c - 48)
      else if 97 \<le> unat c \<and> unat c \<le> 102 then Some (unat c - 87)
      else if 65 \<le> unat c \<and> unat c \<le> 70 then Some (unat c - 55)
      else None)"

definition hex4 :: "u16 \<Rightarrow> u16 \<Rightarrow> u16 \<Rightarrow> u16 \<Rightarrow> u16 option" where
  "hex4 a b c d =
     (case (hex_value a, hex_value b, hex_value c, hex_value d) of
       (Some w, Some x, Some y, Some z) \<Rightarrow> Some (of_nat (w * 4096 + x * 256 + y * 16 + z))
     | _ \<Rightarrow> None)"

text \<open>The one-character escapes \<open>\" \\ \/ \b \f \n \r \t\<close>.\<close>

definition simple_escape :: "u16 \<Rightarrow> u16 option" where
  "simple_escape e =
     (if e = 34 then Some 34 else if e = 92 then Some 92 else if e = 47 then Some 47
      else if e = 98 then Some 8 else if e = 102 then Some 12 else if e = 110 then Some 10
      else if e = 114 then Some 13 else if e = 116 then Some 9 else None)"

text \<open>The characters of a string after its opening quote, up to the closing quote.\<close>

fun parse_string_body :: "jstring \<Rightarrow> jstring \<Rightarrow> js_error + (jstring \<times> jstring)" where
  "parse_string_body acc [] = Inl SyntaxError"
| "parse_string_body acc (c # r) =
     (if c = 34 then Inr (acc, r)
      else if c = 92 then
        (case r of
          [] \<Rightarrow> Inl SyntaxError
        | e # r' \<Rightarrow>
            if e = 117 then
              (case r' of
                a # b # x # y # r'' \<Rightarrow>
                  (case hex4 a b x y of
                    None \<Rightarrow> Inl SyntaxError
                  | Some u \<Rightarrow> parse_string_body (acc @ [u]) r'')
              | _ \<Rightarrow> Inl SyntaxError)
            else
              (case simple_escape e of
                None \<Rightarrow> Inl SyntaxError
              | Some u \<Rightarrow> parse_string_body (acc @ [u]) r'))
      else if c < 0x20 then Inl SyntaxError
      else parse_string_body (acc @ [c]) r)"

text \<open>
  Numbers: an optional minus sign and an integer part without leading zeros, read as
  the nearest double (\<open>round_nat\<close>). A fraction or an exponent, and integers whose
  double reaches \<open>10^21\<close> (printed with an exponent), are not modelled
  (\<open>UnmodelledNumber\<close>).
\<close>

definition parse_number :: "jstring \<Rightarrow> js_error + (jsval \<times> jstring)" where
  "parse_number s =
     (let neg = (s \<noteq> [] \<and> hd s = 45);
          s1 = (if neg then tl s else s);
          ds = takeWhile is_digit s1;
          r = dropWhile is_digit s1
      in if ds = [] \<or> (hd ds = 48 \<and> 1 < length ds) then Inl SyntaxError
         else if r \<noteq> [] \<and> (hd r = 46 \<or> hd r = 101 \<or> hd r = 69) then Inl UnmodelledNumber
         else
           (let a = round_nat (decimal_value ds)
            in if a < json_int_limit then Inr (JNumber (if neg then - int a else int a), r)
               else Inl UnmodelledNumber))"

section \<open>Values\<close>

text \<open>
  \<open>parse_value\<close> starts at the first character of a value; \<open>parse_elems\<close> and
  \<open>parse_members\<close> at the first element or member of a non-empty array or object, with
  what is parsed so far, and they return after the closing bracket.
\<close>

fun parse_value :: "nat \<Rightarrow> jstring \<Rightarrow> (js_error + (jsval \<times> jstring)) option"
and parse_elems :: "nat \<Rightarrow> jsval list \<Rightarrow> jstring \<Rightarrow> (js_error + (jsval list \<times> jstring)) option"
and parse_members :: "nat \<Rightarrow> (jstring \<times> jsval) list \<Rightarrow> jstring
                      \<Rightarrow> (js_error + ((jstring \<times> jsval) list \<times> jstring)) option" where
  "parse_value 0 s = None"
| "parse_value (Suc f) s =
     (case s of
       [] \<Rightarrow> Some (Inl SyntaxError)
     | c # r \<Rightarrow>
         if c = 123 then
           (let r1 = skip_ws r in
            if r1 \<noteq> [] \<and> hd r1 = 125 then Some (Inr (JObject [], tl r1))
            else map_option (map_sum id (\<lambda>(ps, r2). (JObject ps, r2))) (parse_members f [] r1))
         else if c = 91 then
           (let r1 = skip_ws r in
            if r1 \<noteq> [] \<and> hd r1 = 93 then Some (Inr (JArray [], tl r1))
            else map_option (map_sum id (\<lambda>(xs, r2). (JArray xs, r2))) (parse_elems f [] r1))
         else if c = 34 then Some (map_sum id (\<lambda>(t, r2). (JString t, r2)) (parse_string_body [] r))
         else if take 4 s = js_str ''true'' then Some (Inr (JBool True, drop 4 s))
         else if take 5 s = js_str ''false'' then Some (Inr (JBool False, drop 5 s))
         else if take 4 s = js_str ''null'' then Some (Inr (JNull, drop 4 s))
         else if c = 45 \<or> is_digit c then Some (parse_number s)
         else Some (Inl SyntaxError))"
| "parse_elems 0 acc s = None"
| "parse_elems (Suc f) acc s =
     (case parse_value f s of
       None \<Rightarrow> None
     | Some (Inl e) \<Rightarrow> Some (Inl e)
     | Some (Inr (v, r)) \<Rightarrow>
         (case skip_ws r of
           [] \<Rightarrow> Some (Inl SyntaxError)
         | c # r' \<Rightarrow>
             if c = 44 then parse_elems f (acc @ [v]) (skip_ws r')
             else if c = 93 then Some (Inr (acc @ [v], r'))
             else Some (Inl SyntaxError)))"
| "parse_members 0 ps s = None"
| "parse_members (Suc f) ps s =
     (case s of
       [] \<Rightarrow> Some (Inl SyntaxError)
     | c # r \<Rightarrow>
         if c \<noteq> 34 then Some (Inl SyntaxError)
         else
           (case parse_string_body [] r of
             Inl e \<Rightarrow> Some (Inl e)
           | Inr (k, r1) \<Rightarrow>
               (case skip_ws r1 of
                 [] \<Rightarrow> Some (Inl SyntaxError)
               | d # r2 \<Rightarrow>
                   if d \<noteq> 58 then Some (Inl SyntaxError)
                   else
                     (case parse_value f (skip_ws r2) of
                       None \<Rightarrow> None
                     | Some (Inl e) \<Rightarrow> Some (Inl e)
                     | Some (Inr (v, r3)) \<Rightarrow>
                         (case skip_ws r3 of
                           [] \<Rightarrow> Some (Inl SyntaxError)
                         | c' # r4 \<Rightarrow>
                             if c' = 44 then parse_members f (obj_set ps k v) (skip_ws r4)
                             else if c' = 125 then Some (Inr (obj_set ps k v, r4))
                             else Some (Inl SyntaxError))))))"

text \<open>
  The whole text: whitespace, one value, whitespace, end. The fuel \<open>2 * length s + 2\<close>
  is always enough (\<open>json_parse_fuel_enough\<close>), so the \<open>None\<close> branch is never taken.
\<close>

definition json_parse :: "jstring \<Rightarrow> js_error + jsval" where
  "json_parse s =
     (case parse_value (2 * length s + 2) (skip_ws s) of
       None \<Rightarrow> Inl SyntaxError
     | Some (Inl e) \<Rightarrow> Inl e
     | Some (Inr (v, r)) \<Rightarrow> if skip_ws r = [] then Inr v else Inl SyntaxError)"

section \<open>The fuel is enough\<close>

text \<open>
  Every successful step consumes input, so the remainder after a value is strictly
  shorter; a nested value starts at least two characters further in (its bracket and the
  separator before it). Hence fuel \<open>2 * length s + 1\<close> suffices for a value starting at \<open>s\<close>.
\<close>

lemma length_skip_ws: "length (skip_ws s) \<le> length s"
  by (simp add: skip_ws_def length_dropWhile_le)

lemma parse_string_body_shorter:
  "parse_string_body acc s = Inr (t, r) \<Longrightarrow> length r < length s"
proof (induction acc s rule: parse_string_body.induct)
  case (2 acc c r')
  then show ?case
    by (simp split: if_splits list.splits option.splits) (simp_all add: less_SucI)
qed simp

lemma parse_elems_Suc_Inr:
  "parse_elems (Suc f) acc s = Some (Inr (xs, r)) \<longleftrightarrow>
   (\<exists>v r0 c r'. parse_value f s = Some (Inr (v, r0)) \<and> skip_ws r0 = c # r' \<and>
      (c = 44 \<and> parse_elems f (acc @ [v]) (skip_ws r') = Some (Inr (xs, r))
       \<or> c = 93 \<and> xs = acc @ [v] \<and> r = r'))"
  by (auto split: option.splits sum.splits list.splits if_splits)

lemma parse_members_Suc_Inr:
  "parse_members (Suc f) ps s = Some (Inr (qs, r)) \<longleftrightarrow>
   (\<exists>r0 k r1 r2 v r3 c r4. s = 34 # r0 \<and> parse_string_body [] r0 = Inr (k, r1)
      \<and> skip_ws r1 = 58 # r2 \<and> parse_value f (skip_ws r2) = Some (Inr (v, r3))
      \<and> skip_ws r3 = c # r4 \<and>
      (c = 44 \<and> parse_members f (obj_set ps k v) (skip_ws r4) = Some (Inr (qs, r))
       \<or> c = 125 \<and> qs = obj_set ps k v \<and> r = r4))"
  by (auto split: option.splits sum.splits list.splits if_splits)

lemma parse_elems_Suc_None:
  "parse_elems (Suc f) acc s = None \<longleftrightarrow>
   parse_value f s = None \<or> (\<exists>v r r'. parse_value f s = Some (Inr (v, r)) \<and> skip_ws r = 44 # r'
      \<and> parse_elems f (acc @ [v]) (skip_ws r') = None)"
  by (auto split: option.splits sum.splits list.splits if_splits)

lemma parse_members_Suc_None:
  "parse_members (Suc f) ps s = None \<longleftrightarrow>
   (\<exists>r0 k r1 r2. s = 34 # r0 \<and> parse_string_body [] r0 = Inr (k, r1) \<and> skip_ws r1 = 58 # r2 \<and>
      (parse_value f (skip_ws r2) = None \<or> (\<exists>v r3 r4. parse_value f (skip_ws r2) = Some (Inr (v, r3))
         \<and> skip_ws r3 = 44 # r4 \<and> parse_members f (obj_set ps k v) (skip_ws r4) = None)))"
  by (auto split: option.splits sum.splits list.splits if_splits)

lemma parse_number_shorter:
  "parse_number s = Inr (v, r) \<Longrightarrow> length r < length s"
proof -
  assume p: "parse_number s = Inr (v, r)"
  define s1 where "s1 = (if s \<noteq> [] \<and> hd s = 45 then tl s else s)"
  have "takeWhile is_digit s1 \<noteq> []" and r: "r = dropWhile is_digit s1"
    using p by (auto simp: parse_number_def Let_def s1_def split: if_splits)
  then have "length r < length s1"
    by (metis length_append length_greater_0_conv less_add_same_cancel2 takeWhile_dropWhile_id)
  moreover have "length s1 \<le> length s" by (simp add: s1_def)
  ultimately show ?thesis by simp
qed

lemma parse_shorter:
  shows "\<forall>v r. parse_value f s = Some (Inr (v, r)) \<longrightarrow> length r < length s"
    and "\<forall>xs r. parse_elems f acc s = Some (Inr (xs, r)) \<longrightarrow> length r < length s"
    and "\<forall>qs r. parse_members f ps s = Some (Inr (qs, r)) \<longrightarrow> length r < length s"
proof (induction f s and f acc s and f ps s rule: parse_value_parse_elems_parse_members.induct)
  case (2 f s)
  show ?case
  proof (intro allI impI)
    fix v r
    assume h: "parse_value (Suc f) s = Some (Inr (v, r))"
    show "length r < length s"
    proof (cases s)
      case Nil
      with h show ?thesis by simp
    next
      case (Cons c r')
      have ws: "length (skip_ws r') < length s" using Cons length_skip_ws [of r'] by simp
      consider (obj) "c = 123" | (arr) "c \<noteq> 123" "c = 91" | (other) "c \<noteq> 123" "c \<noteq> 91"
        by blast
      then show ?thesis
      proof cases
        case obj
        show ?thesis
        proof (cases "skip_ws r' \<noteq> [] \<and> hd (skip_ws r') = 125")
          case True
          with h Cons obj have "r = tl (skip_ws r')" by simp
          with ws show ?thesis by simp
        next
          case False
          with h Cons obj obtain qs where "parse_members f [] (skip_ws r') = Some (Inr (qs, r))"
            by (auto simp: map_sum_eq_Inr_iff)
          with "2.IH"(1) [of c r' "skip_ws r'"] Cons obj False ws show ?thesis by auto
        qed
      next
        case arr
        show ?thesis
        proof (cases "skip_ws r' \<noteq> [] \<and> hd (skip_ws r') = 93")
          case True
          with h Cons arr have "r = tl (skip_ws r')" by simp
          with ws show ?thesis by simp
        next
          case False
          with h Cons arr obtain xs where "parse_elems f [] (skip_ws r') = Some (Inr (xs, r))"
            by (auto simp: map_sum_eq_Inr_iff)
          with "2.IH"(2) [of c r' "skip_ws r'"] Cons arr False ws show ?thesis by auto
        qed
      next
        case other
        from h Cons other
        have "(\<exists>t. parse_string_body [] r' = Inr (t, r)) \<or> r = drop 4 s \<or> r = drop 5 s
              \<or> parse_number s = Inr (v, r)"
          by (auto simp: map_sum_eq_Inr_iff split: if_splits)
        then show ?thesis
          using Cons parse_string_body_shorter parse_number_shorter by fastforce
      qed
    qed
  qed
next
  case (4 f acc s)
  show ?case
  proof (intro allI impI)
    fix xs r
    assume h: "parse_elems (Suc f) acc s = Some (Inr (xs, r))"
    from h [unfolded parse_elems_Suc_Inr] obtain v r0 c r' where v: "parse_value f s = Some (Inr (v, r0))" and c: "skip_ws r0 = c # r'"
      and rest: "c = 44 \<and> parse_elems f (acc @ [v]) (skip_ws r') = Some (Inr (xs, r)) \<or> r = r'"
      by blast
    have "length r0 < length s" using "4.IH"(1) v by blast
    moreover have "length r' < length r0" using c length_skip_ws [of r0] by simp
    moreover have "length r < length (skip_ws r') \<or> r = r'"
      using "4.IH"(2) [OF v refl refl c] rest by blast
    ultimately show "length r < length s" using length_skip_ws [of r'] by auto
  qed
next
  case (6 f ps s)
  show ?case
  proof (intro allI impI)
    fix qs r
    assume h: "parse_members (Suc f) ps s = Some (Inr (qs, r))"
    from h [unfolded parse_members_Suc_Inr] obtain r0 k r1 r2 v r3 c r4 where s: "s = 34 # r0" and k: "parse_string_body [] r0 = Inr (k, r1)"
      and r2: "skip_ws r1 = 58 # r2" and v: "parse_value f (skip_ws r2) = Some (Inr (v, r3))"
      and c: "skip_ws r3 = c # r4"
      and rest: "c = 44 \<and> parse_members f (obj_set ps k v) (skip_ws r4) = Some (Inr (qs, r)) \<or> r = r4"
      by blast
    have IH1: "\<forall>v r. parse_value f (skip_ws r2) = Some (Inr (v, r)) \<longrightarrow> length r < length (skip_ws r2)"
      by (rule "6.IH"(1) [OF s _ k refl r2]) simp_all
    have IH2: "c = 44 \<Longrightarrow> \<forall>qs r. parse_members f (obj_set ps k v) (skip_ws r4) = Some (Inr (qs, r))
        \<longrightarrow> length r < length (skip_ws r4)"
      by (rule "6.IH"(2) [OF s _ k refl r2 _ v refl refl c]) simp_all
    have "length r1 < length r0" using parse_string_body_shorter [OF k] .
    moreover have "length r2 < length r1" using r2 length_skip_ws [of r1] by simp
    moreover have "length r3 < length (skip_ws r2)" using IH1 v by simp
    moreover have "length r4 < length r3" using c length_skip_ws [of r3] by simp
    moreover have "length r < length (skip_ws r4) \<or> r = r4"
      using IH2 rest by auto
    ultimately show "length r < length s"
      using s length_skip_ws [of r2] length_skip_ws [of r4] by auto
  qed
qed simp_all

lemma parse_fuel_enough:
  shows "2 * length s < f \<Longrightarrow> parse_value f s \<noteq> None"
    and "2 * length s + 2 \<le> f \<Longrightarrow> parse_elems f acc s \<noteq> None"
    and "2 * length s + 2 \<le> f \<Longrightarrow> parse_members f ps s \<noteq> None"
proof (induction f s and f acc s and f ps s rule: parse_value_parse_elems_parse_members.induct)
  case (2 f s)
  show ?case
  proof (cases s)
    case (Cons c r')
    have ws: "2 * length (skip_ws r') + 2 \<le> f"
      using Cons "2.prems" length_skip_ws [of r'] by simp
    consider (obj) "c = 123" | (arr) "c \<noteq> 123" "c = 91" | (other) "c \<noteq> 123" "c \<noteq> 91"
      by blast
    then show ?thesis
    proof cases
      case obj
      show ?thesis
      proof (cases "skip_ws r' \<noteq> [] \<and> hd (skip_ws r') = 125")
        case False
        have "parse_members f [] (skip_ws r') \<noteq> None"
          by (rule "2.IH"(1) [of c r' "skip_ws r'"]) (use Cons obj False ws in simp_all)
        with Cons obj False show ?thesis by (simp add: Let_def)
      qed (use Cons obj in simp)
    next
      case arr
      show ?thesis
      proof (cases "skip_ws r' \<noteq> [] \<and> hd (skip_ws r') = 93")
        case False
        have "parse_elems f [] (skip_ws r') \<noteq> None"
          by (rule "2.IH"(2) [of c r' "skip_ws r'"]) (use Cons arr False ws in simp_all)
        with Cons arr False show ?thesis by (simp add: Let_def)
      qed (use Cons arr in simp)
    qed (use Cons in simp)
  qed simp
next
  case (4 f acc s)
  show ?case
  proof
    assume "parse_elems (Suc f) acc s = None"
    then consider "parse_value f s = None"
      | v r r' where "parse_value f s = Some (Inr (v, r))" "skip_ws r = 44 # r'"
          "parse_elems f (acc @ [v]) (skip_ws r') = None"
      unfolding parse_elems_Suc_None by auto
    then show False
    proof cases
      case 1
      with "4.IH"(1) "4.prems" show False by simp
    next
      case 2
      have "length r < length s" using parse_shorter(1) 2(1) by blast
      then have "2 * length (skip_ws r') + 2 \<le> f"
        using 2(2) "4.prems" length_skip_ws [of r] length_skip_ws [of r'] by simp
      with "4.IH"(2) [OF 2(1) refl refl 2(2) refl] 2(3) show False by simp
    qed
  qed
next
  case (6 f ps s)
  show ?case
  proof
    assume "parse_members (Suc f) ps s = None"
    then obtain r0 k r1 r2 where s: "s = 34 # r0" and k: "parse_string_body [] r0 = Inr (k, r1)"
      and r2: "skip_ws r1 = 58 # r2"
      and none: "parse_value f (skip_ws r2) = None \<or> (\<exists>v r3 r4. parse_value f (skip_ws r2) = Some (Inr (v, r3))
                 \<and> skip_ws r3 = 44 # r4 \<and> parse_members f (obj_set ps k v) (skip_ws r4) = None)"
      unfolding parse_members_Suc_None by blast
    have f1: "2 * length (skip_ws r2) < f"
      using parse_string_body_shorter [OF k] s r2 "6.prems" length_skip_ws [of r1] length_skip_ws [of r2]
      by simp
    have "parse_value f (skip_ws r2) \<noteq> None"
      by (rule "6.IH"(1) [OF s _ k refl r2 _ f1]) simp_all
    with none obtain v r3 r4 where v: "parse_value f (skip_ws r2) = Some (Inr (v, r3))"
      and r4: "skip_ws r3 = 44 # r4" and rest: "parse_members f (obj_set ps k v) (skip_ws r4) = None"
      by blast
    have "length r3 < length (skip_ws r2)" using parse_shorter(1) v by blast
    then have "2 * length (skip_ws r4) + 2 \<le> f"
      using f1 r4 length_skip_ws [of r3] length_skip_ws [of r4] by simp
    with "6.IH"(2) [OF s _ k refl r2 _ v refl refl r4 refl] rest show False by simp
  qed
qed simp_all

lemma json_parse_fuel_enough: "parse_value (2 * length s + 2) (skip_ws s) \<noteq> None"
  using length_skip_ws [of s] by (intro parse_fuel_enough(1)) simp

section \<open>The parsed value is well formed\<close>

text \<open>
  \<open>JSON.parse\<close> builds objects by property assignment, so a repeated key is stored once,
  and every number it returns is a double below \<open>10^21\<close>: every value it returns is well
  formed.
\<close>

lemma parse_number_wf: "parse_number s = Inr (v, r) \<Longrightarrow> wf_jsval v"
  by (auto simp: parse_number_def Let_def js_int_of_rounded round_nat_idem split: if_splits)

lemma parse_wf:
  shows "\<forall>v r. parse_value f s = Some (Inr (v, r)) \<longrightarrow> wf_jsval v"
    and "list_all wf_jsval acc \<Longrightarrow>
         \<forall>xs r. parse_elems f acc s = Some (Inr (xs, r)) \<longrightarrow> list_all wf_jsval xs"
    and "wf_jsval (JObject ps) \<Longrightarrow>
         \<forall>qs r. parse_members f ps s = Some (Inr (qs, r)) \<longrightarrow> wf_jsval (JObject qs)"
proof (induction f s and f acc s and f ps s rule: parse_value_parse_elems_parse_members.induct)
  case (2 f s)
  show ?case
  proof (intro allI impI)
    fix v r
    assume h: "parse_value (Suc f) s = Some (Inr (v, r))"
    show "wf_jsval v"
    proof (cases s)
      case (Cons c r')
      consider (obj) "c = 123" | (arr) "c \<noteq> 123" "c = 91" | (other) "c \<noteq> 123" "c \<noteq> 91"
        by blast
      then show ?thesis
      proof cases
        case obj
        show ?thesis
        proof (cases "skip_ws r' \<noteq> [] \<and> hd (skip_ws r') = 125")
          case False
          with h Cons obj obtain qs where "parse_members f [] (skip_ws r') = Some (Inr (qs, r))"
            and "v = JObject qs"
            by (auto simp: map_sum_eq_Inr_iff)
          with "2.IH"(1) [of c r' "skip_ws r'"] Cons obj False show ?thesis by auto
        qed (use h Cons obj in auto)
      next
        case arr
        show ?thesis
        proof (cases "skip_ws r' \<noteq> [] \<and> hd (skip_ws r') = 93")
          case False
          with h Cons arr obtain xs where "parse_elems f [] (skip_ws r') = Some (Inr (xs, r))"
            and "v = JArray xs"
            by (auto simp: map_sum_eq_Inr_iff)
          with "2.IH"(2) [of c r' "skip_ws r'"] Cons arr False show ?thesis by auto
        qed (use h Cons arr in auto)
      next
        case other
        with h Cons show ?thesis
          by (auto simp: map_sum_eq_Inr_iff parse_number_wf split: if_splits)
      qed
    qed (use h in simp)
  qed
next
  case (4 f acc s)
  show ?case
  proof (intro allI impI)
    fix xs r
    assume h: "parse_elems (Suc f) acc s = Some (Inr (xs, r))"
    from h [unfolded parse_elems_Suc_Inr] obtain v r0 c r' where v: "parse_value f s = Some (Inr (v, r0))"
      and c: "skip_ws r0 = c # r'"
      and rest: "c = 44 \<and> parse_elems f (acc @ [v]) (skip_ws r') = Some (Inr (xs, r))
                 \<or> xs = acc @ [v]"
      by blast
    have "list_all wf_jsval (acc @ [v])" using "4.IH"(1) "4.prems" v by simp
    then show "list_all wf_jsval xs"
      using "4.IH"(2) [OF v refl refl c] rest by blast
  qed
next
  case (6 f ps s)
  show ?case
  proof (intro allI impI)
    fix qs r
    assume h: "parse_members (Suc f) ps s = Some (Inr (qs, r))"
    from h [unfolded parse_members_Suc_Inr] obtain r0 k r1 r2 v r3 c r4 where s: "s = 34 # r0"
      and k: "parse_string_body [] r0 = Inr (k, r1)" and r2: "skip_ws r1 = 58 # r2"
      and v: "parse_value f (skip_ws r2) = Some (Inr (v, r3))" and c: "skip_ws r3 = c # r4"
      and rest: "c = 44 \<and> parse_members f (obj_set ps k v) (skip_ws r4) = Some (Inr (qs, r))
                 \<or> qs = obj_set ps k v"
      by blast
    have "wf_jsval v"
      using "6.IH"(1) [OF s _ k refl r2] v by simp
    with "6.prems" have wf: "wf_jsval (JObject (obj_set ps k v))" by (rule wf_obj_set)
    have "c = 44 \<Longrightarrow> \<forall>qs r. parse_members f (obj_set ps k v) (skip_ws r4) = Some (Inr (qs, r))
        \<longrightarrow> wf_jsval (JObject qs)"
      by (rule "6.IH"(2) [OF s _ k refl r2 _ v refl refl c _ wf]) simp_all
    with rest wf show "wf_jsval (JObject qs)" by blast
  qed
qed simp_all

lemma json_parse_wf: "json_parse s = Inr v \<Longrightarrow> wf_jsval v"
  using parse_wf(1) [of "2 * length s + 2" "skip_ws s"]
  by (auto simp: json_parse_def split: option.splits sum.splits if_splits)

end
