(* ===== verification/TransactionConsumer.thy ===== *)
theory TransactionConsumer
  imports Transport JsonBytes JsonParse
begin

text \<open>
  \<open>src/packages/exchange-consumer/src/consumers/TransactionConsumer.ts\<close>: the three
  async methods of \<open>TransactionConsumer\<close>. Each is split as the source is: building
  the request (which may throw before anything is sent) and the \<open>try\<close> block that sends
  it and rethrows a rejection as \<open>GrpcException(e.message)\<close>. A method returns its
  result or the exception it rejects with, and the call log after it.
\<close>

section \<open>Configuration and arguments\<close>

text \<open>
  The defaults imported from the utilities package (\<open>DEFAULT_GAS_LIMIT\<close>,
  \<open>DEFAULT_EXCHANGE_LIMIT\<close>, \<open>DEFAULT_BRIDGE_FEE_DENOM\<close>, \<open>DEFAULT_BRIDGE_FEE_PRICE\<close>)
  are configuration; every lemma holds for all of their values.
\<close>

record consumer_config =
  default_gas_limit :: int
  default_exchange_limit :: int
  default_bridge_fee_denom :: jstring
  default_bridge_fee_price :: jstring

text \<open>The destructured argument objects; an omitted optional argument is \<open>None\<close>.\<close>

record prepare_tx_args =
  address :: jstring
  chain_id :: chain_id
  message :: jsval
  gas_limit :: "int option"
  fee_denom :: "jstring option"
  fee_price :: "jstring option"

record prepare_exchange_tx_args = prepare_tx_args +
  delegated_fee :: "bool option"

record broadcast_tx_args =
  bc_signature :: jstring
  bc_chain_id :: chain_id
  bc_message :: jsval
  bc_tx_response :: prepare_tx_response

text \<open>
  \<open>recoverTypedSignaturePubKey(typedData, signature)\<close> of the signing utilities: the
  public key in hex, or the message of the error it throws.
\<close>

type_synonym recover_pub_key = "jsval \<Rightarrow> jstring \<Rightarrow> jstring + jstring"

section \<open>Shared steps\<close>

text \<open>A destructuring default applies when the argument is \<open>undefined\<close>.\<close>

definition arg_or_default :: "'a option \<Rightarrow> 'a \<Rightarrow> 'a" where
  "arg_or_default x d = (case x of None \<Rightarrow> d | Some v \<Rightarrow> v)"

text \<open>
  \<open>Buffer.from(JSON.stringify(v), 'utf8')\<close>: \<open>JSON.stringify\<close> returns
  \<open>undefined\<close> for \<open>undefined\<close>, and \<open>Buffer.from(undefined)\<close> throws a TypeError.
\<close>

definition json_buffer :: "jsval \<Rightarrow> js_error + bytes" where
  "json_buffer v =
     (case stringify v of
       None \<Rightarrow> Inl (TypeError BufferFromUndefined)
     | Some s \<Rightarrow> Inr (utf8_encode s))"

text \<open>\<open>catch (e) { throw new GrpcException(e.message) }\<close>.\<close>

definition grpc_rethrow :: "rpc_failure + 'a \<Rightarrow> js_error + 'a" where
  "grpc_rethrow r = (case r of Inl m \<Rightarrow> Inl (GrpcException m) | Inr x \<Rightarrow> Inr x)"

text \<open>The fee: a coin of the fee denomination and price, the gas limit, one price.\<close>

definition build_tx_fee :: "int \<Rightarrow> jstring \<Rightarrow> jstring \<Rightarrow> cosmos_tx_fee" where
  "build_tx_fee gas denom price =
     (let tx_fee_amount = new_coin\<lparr>coin_denom := denom, coin_amount := price\<rparr>
      in new_cosmos_tx_fee\<lparr>txfee_gas := gas, txfee_price := [tx_fee_amount]\<rparr>)"

text \<open>
  The request of both prepare methods, and the \<open>try\<close> block that sends it. The message
  buffer is computed before \<open>addMsgs\<close> and outside the \<open>try\<close>.
\<close>

definition build_prepare_tx_request ::
  "chain_id \<Rightarrow> jstring \<Rightarrow> cosmos_tx_fee \<Rightarrow> jsval \<Rightarrow> js_error + prepare_tx_request" where
  "build_prepare_tx_request cid addr fee msg =
     sum_bind (json_buffer msg) (\<lambda>msg_bytes.
       Inr (new_prepare_tx_request\<lparr>ptx_chain_id := cid, ptx_signer_address := addr,
              ptx_fee := Some fee,
              ptx_msgs := ptx_msgs new_prepare_tx_request @ [msg_bytes]\<rparr>))"

definition send_prepare_tx ::
  "transport \<Rightarrow> js_error + prepare_tx_request \<Rightarrow> call_log
   \<Rightarrow> (js_error + prepare_tx_response) \<times> call_log" where
  "send_prepare_tx t req log =
     (case req of
       Inl e \<Rightarrow> (Inl e, log)
     | Inr r \<Rightarrow> (let (res, log') = request_prepare_tx t r log in (grpc_rethrow res, log')))"

section \<open>prepareTxRequest\<close>

definition prepareTxRequest ::
  "consumer_config \<Rightarrow> transport \<Rightarrow> prepare_tx_args \<Rightarrow> call_log
   \<Rightarrow> (js_error + prepare_tx_response) \<times> call_log" where
  "prepareTxRequest cfg t a log =
     (let cosmos_tx_fee =
        build_tx_fee (arg_or_default (gas_limit a) (default_gas_limit cfg))
          (arg_or_default (fee_denom a) (default_bridge_fee_denom cfg))
          (arg_or_default (fee_price a) (default_bridge_fee_price cfg))
      in send_prepare_tx t (build_prepare_tx_request (chain_id a) (address a) cosmos_tx_fee (message a)) log)"

section \<open>prepareExchangeTxRequest\<close>

text \<open>\<open>if (delegatedFee) cosmosTxFee.setDelegateFee(delegatedFee)\<close>.\<close>

definition delegate_fee_if :: "bool option \<Rightarrow> cosmos_tx_fee \<Rightarrow> cosmos_tx_fee" where
  "delegate_fee_if d fee = (if d = Some True then fee\<lparr>txfee_delegate_fee := True\<rparr> else fee)"

definition prepareExchangeTxRequest ::
  "consumer_config \<Rightarrow> transport \<Rightarrow> 'x prepare_exchange_tx_args_scheme \<Rightarrow> call_log
   \<Rightarrow> (js_error + prepare_tx_response) \<times> call_log" where
  "prepareExchangeTxRequest cfg t a log =
     (let cosmos_tx_fee =
        delegate_fee_if (delegated_fee a)
          (build_tx_fee (arg_or_default (gas_limit a) (default_exchange_limit cfg))
            (arg_or_default (fee_denom a) (default_bridge_fee_denom cfg))
            (arg_or_default (fee_price a) (default_bridge_fee_price cfg)))
      in send_prepare_tx t (build_prepare_tx_request (chain_id a) (address a) cosmos_tx_fee (message a)) log)"

section \<open>broadcastTxRequest\<close>

text \<open>
  \<open>parsedTypedData.message.msgs = null\<close>: read \<open>message\<close> (a TypeError if the typed
  data is \<open>null\<close>), then assign \<open>msgs\<close> on it in strict mode. The result is the value
  \<open>parsedTypedData.message\<close> refers to afterwards, which the next statement serializes.
\<close>

definition clear_msgs :: "jsval \<Rightarrow> js_error + jsval" where
  "clear_msgs typed_data =
     sum_bind (get_prop typed_data (js_str ''message'')) (\<lambda>m.
       set_named_prop m (js_str ''msgs'') JNull)"

definition build_pub_key :: "jstring \<Rightarrow> jstring \<Rightarrow> cosmos_pub_key" where
  "build_pub_key key_type key_hex = new_cosmos_pub_key\<lparr>pk_type := key_type, pk_key := key_hex\<rparr>"

text \<open>Lines 124--145: everything up to the \<open>try\<close> block, in the order of the source.\<close>

definition build_broadcast_tx_request ::
  "recover_pub_key \<Rightarrow> broadcast_tx_args \<Rightarrow> js_error + broadcast_tx_request" where
  "build_broadcast_tx_request recover a =
     (let tx_response = bc_tx_response a in
      sum_bind (json_parse (ptr_data tx_response)) (\<lambda>parsed_typed_data.
      sum_bind (map_sum ExternalError id (recover parsed_typed_data (bc_signature a))) (\<lambda>public_key_hex.
      (let cosmos_pub_key = build_pub_key (ptr_pub_key_type tx_response) public_key_hex in
      sum_bind (clear_msgs parsed_typed_data) (\<lambda>typed_message.
      sum_bind (json_buffer typed_message) (\<lambda>tx_bytes.
      sum_bind (json_buffer (bc_message a)) (\<lambda>msg_bytes.
        Inr (new_broadcast_tx_request\<lparr>btx_mode := js_str ''block'', btx_chain_id := bc_chain_id a,
               btx_pub_key := Some cosmos_pub_key, btx_signature := bc_signature a,
               btx_tx := tx_bytes, btx_fee_payer := ptr_fee_payer tx_response,
               btx_fee_payer_sig := ptr_fee_payer_sig tx_response,
               btx_msgs := [msg_bytes]\<rparr>))))))))"

definition broadcastTxRequest ::
  "transport \<Rightarrow> recover_pub_key \<Rightarrow> broadcast_tx_args \<Rightarrow> call_log
   \<Rightarrow> (js_error + broadcast_tx_response_object) \<times> call_log" where
  "broadcastTxRequest t recover a log =
     (case build_broadcast_tx_request recover a of
       Inl e \<Rightarrow> (Inl e, log)
     | Inr r \<Rightarrow>
         (let (res, log') = request_broadcast_tx t r log
          in (map_sum id to_object (grpc_rethrow res), log')))"

section \<open>The consumer as a step function\<close>

text \<open>
  The three methods as operations of one interface: one call of any of them against the
  transport and the call log, its result tagged with the method it comes from.
\<close>

datatype consumer_op =
    PrepareOp prepare_tx_args
  | PrepareExchangeOp prepare_exchange_tx_args
  | BroadcastOp broadcast_tx_args

datatype consumer_result =
    Prepared prepare_tx_response
  | Broadcasted broadcast_tx_response_object

fun op_method :: "consumer_op \<Rightarrow> rpc_method" where
  "op_method (PrepareOp a) = PrepareTx"
| "op_method (PrepareExchangeOp a) = PrepareTx"
| "op_method (BroadcastOp a) = BroadcastTx"

fun consumer_step ::
  "consumer_config \<Rightarrow> transport \<Rightarrow> recover_pub_key \<Rightarrow> call_log \<Rightarrow> consumer_op
   \<Rightarrow> (js_error + consumer_result) \<times> call_log" where
  "consumer_step cfg t recover log (PrepareOp a) =
     (let (r, log') = prepareTxRequest cfg t a log in (map_sum id Prepared r, log'))"
| "consumer_step cfg t recover log (PrepareExchangeOp a) =
     (let (r, log') = prepareExchangeTxRequest cfg t a log in (map_sum id Prepared r, log'))"
| "consumer_step cfg t recover log (BroadcastOp a) =
     (let (r, log') = broadcastTxRequest t recover a log in (map_sum id Broadcasted r, log'))"

section \<open>Behaviour of the methods\<close>

subsection \<open>Building and sending\<close>

lemma json_buffer_undefined: "json_buffer JUndefined = Inl (TypeError BufferFromUndefined)"
  by (simp add: json_buffer_def)

lemma json_buffer_Some: "stringify v = Some s \<Longrightarrow> json_buffer v = Inr (utf8_encode s)"
  by (simp add: json_buffer_def)

lemma send_prepare_tx_Inl [simp]: "send_prepare_tx t (Inl e) log = (Inl e, log)"
  by (simp add: send_prepare_tx_def)

lemma send_prepare_tx_Inr [simp]:
  "send_prepare_tx t (Inr r) log = (grpc_rethrow (prepare_tx t r), log @ [PrepareTxCall r])"
  by (simp add: send_prepare_tx_def request_prepare_tx_def)

lemma build_prepare_tx_request_Some:
  "stringify msg = Some s \<Longrightarrow>
   build_prepare_tx_request cid addr fee msg =
     Inr \<lparr>ptx_chain_id = cid, ptx_signer_address = addr, ptx_fee = Some fee, ptx_msgs = [utf8_encode s]\<rparr>"
  by (simp add: build_prepare_tx_request_def json_buffer_Some new_prepare_tx_request_def)

lemma build_prepare_tx_request_undefined:
  "build_prepare_tx_request cid addr fee JUndefined = Inl (TypeError BufferFromUndefined)"
  by (simp add: build_prepare_tx_request_def json_buffer_undefined)

text \<open>C1: prepareTxRequest called without gasLimit, feeDenom and feePrice sends exactly one PrepareTx request, whose fee is one coin of the default bridge fee denomination and price with the default gas limit and no fee delegation, and whose message list is the UTF-8 bytes of JSON.stringify(message); it returns the transport's answer.\<close>

theorem prepareTxRequest_defaults:
  assumes "gas_limit a = None" and "fee_denom a = None" and "fee_price a = None"
    and "stringify (message a) = Some s"
  shows "\<exists>req. prepareTxRequest cfg t a log = (grpc_rethrow (prepare_tx t req), log @ [PrepareTxCall req])
     \<and> ptx_fee req = Some \<lparr>txfee_price = [\<lparr>coin_denom = default_bridge_fee_denom cfg,
                                           coin_amount = default_bridge_fee_price cfg\<rparr>],
                          txfee_gas = default_gas_limit cfg, txfee_delegate_fee = False\<rparr>
     \<and> ptx_msgs req = [utf8_encode s]"
  using assms
  by (simp add: prepareTxRequest_def Let_def build_prepare_tx_request_Some arg_or_default_def
      build_tx_fee_def new_coin_def new_cosmos_tx_fee_def)


lemma build_tx_fee_fields [simp]:
  "txfee_gas (build_tx_fee g d p) = g"
  "txfee_price (build_tx_fee g d p) = [\<lparr>coin_denom = d, coin_amount = p\<rparr>]"
  "txfee_delegate_fee (build_tx_fee g d p) = False"
  by (simp_all add: build_tx_fee_def new_coin_def new_cosmos_tx_fee_def)

lemma delegate_fee_if_fields [simp]:
  "txfee_gas (delegate_fee_if d f) = txfee_gas f"
  "txfee_price (delegate_fee_if d f) = txfee_price f"
  by (simp_all add: delegate_fee_if_def)

lemma prepareExchangeTxRequest_eq:
  "stringify (message a) = Some s \<Longrightarrow>
   prepareExchangeTxRequest cfg t a log =
     (let req = \<lparr>ptx_chain_id = chain_id a, ptx_signer_address = address a,
                 ptx_fee = Some (delegate_fee_if (delegated_fee a)
                   (build_tx_fee (arg_or_default (gas_limit a) (default_exchange_limit cfg))
                     (arg_or_default (fee_denom a) (default_bridge_fee_denom cfg))
                     (arg_or_default (fee_price a) (default_bridge_fee_price cfg)))),
                 ptx_msgs = [utf8_encode s]\<rparr>
      in (grpc_rethrow (prepare_tx t req), log @ [PrepareTxCall req]))"
  by (simp add: prepareExchangeTxRequest_def Let_def build_prepare_tx_request_Some)

text \<open>C2: prepareExchangeTxRequest called without gasLimit sends one PrepareTx request whose fee carries the exchange default gas limit (DEFAULT_EXCHANGE_LIMIT), not the generic one.\<close>

theorem prepareExchangeTxRequest_default_gas:
  assumes "gas_limit a = None" and "stringify (message a) = Some s"
  shows "\<exists>req fee. snd (prepareExchangeTxRequest cfg t a log) = log @ [PrepareTxCall req]
     \<and> ptx_fee req = Some fee \<and> txfee_gas fee = default_exchange_limit cfg"
  using assms by (simp add: prepareExchangeTxRequest_eq Let_def arg_or_default_def)

text \<open>C3: prepareExchangeTxRequest sets the delegate-fee flag of the fee it sends exactly when delegatedFee is true; when it is false or omitted the flag keeps its default false.\<close>

theorem prepareExchangeTxRequest_delegated_fee:
  assumes "stringify (message a) = Some s"
  shows "\<exists>req fee. snd (prepareExchangeTxRequest cfg t a log) = log @ [PrepareTxCall req]
     \<and> ptx_fee req = Some fee \<and> txfee_delegate_fee fee = (delegated_fee a = Some True)"
  using assms by (simp add: prepareExchangeTxRequest_eq Let_def delegate_fee_if_def)

text \<open>C7: When the transport rejects the PrepareTx request prepareTxRequest sent, the call rejects with GrpcException carrying the rejection's message, after exactly that one request.\<close>

theorem prepareTxRequest_transport_failure:
  assumes "snd (prepareTxRequest cfg t a log) = log @ [PrepareTxCall req]"
    and "prepare_tx t req = Inl m"
  shows "prepareTxRequest cfg t a log = (Inl (GrpcException m), log @ [PrepareTxCall req])"
proof (cases "stringify (message a)")
  case None
  then have "message a = JUndefined" by (simp add: stringify_None_iff)
  with assms(1) show ?thesis
    by (simp add: prepareTxRequest_def Let_def build_prepare_tx_request_undefined)
next
  case (Some s)
  with assms show ?thesis
    by (auto simp: prepareTxRequest_def Let_def build_prepare_tx_request_Some grpc_rethrow_def)
qed

text \<open>C11: prepareTxRequest with an undefined message rejects with the TypeError of Buffer.from(undefined), not a GrpcException, and sends nothing.\<close>

theorem prepareTxRequest_undefined_message:
  "message a = JUndefined \<Longrightarrow> prepareTxRequest cfg t a log = (Inl (TypeError BufferFromUndefined), log)"
  by (simp add: prepareTxRequest_def Let_def build_prepare_tx_request_undefined)

lemma broadcastTxRequest_Inl:
  "build_broadcast_tx_request recover a = Inl e \<Longrightarrow> broadcastTxRequest t recover a log = (Inl e, log)"
  by (simp add: broadcastTxRequest_def)

lemma broadcastTxRequest_Inr:
  "build_broadcast_tx_request recover a = Inr r \<Longrightarrow>
   broadcastTxRequest t recover a log =
     (map_sum id to_object (grpc_rethrow (broadcast_tx t r)), log @ [BroadcastTxCall r])"
  by (simp add: broadcastTxRequest_def request_broadcast_tx_def)

lemma build_broadcast_tx_request_Inr:
  "build_broadcast_tx_request recover a = Inr r \<longleftrightarrow>
   (\<exists>d pk m tx msg. json_parse (ptr_data (bc_tx_response a)) = Inr d
      \<and> recover d (bc_signature a) = Inr pk \<and> clear_msgs d = Inr m
      \<and> json_buffer m = Inr tx \<and> json_buffer (bc_message a) = Inr msg
      \<and> r = \<lparr>btx_mode = js_str ''block'', btx_chain_id = bc_chain_id a,
               btx_pub_key = Some (build_pub_key (ptr_pub_key_type (bc_tx_response a)) pk),
               btx_signature = bc_signature a, btx_tx = tx,
               btx_fee_payer = ptr_fee_payer (bc_tx_response a),
               btx_fee_payer_sig = ptr_fee_payer_sig (bc_tx_response a), btx_msgs = [msg]\<rparr>)"
  by (auto simp: build_broadcast_tx_request_def Let_def sum_bind_eq_Inr new_broadcast_tx_request_def
      map_sum_eq_Inr_iff)


text \<open>C5: When the typed data's message is an object, the transaction bytes broadcastTxRequest sends are the UTF-8 JSON text of that object with its msgs property set to null: the property is kept, with value null, not removed.\<close>

theorem broadcast_tx_keeps_null_msgs:
  assumes "build_broadcast_tx_request recover a = Inr r"
    and "json_parse (ptr_data (bc_tx_response a)) = Inr (JObject ps)"
    and "obj_get ps (js_str ''message'') = JObject qs"
  shows "\<exists>s. stringify (JObject (obj_set qs (js_str ''msgs'') JNull)) = Some s
           \<and> btx_tx r = utf8_encode s
           \<and> map_of (obj_set qs (js_str ''msgs'') JNull) (js_str ''msgs'') = Some JNull"
  using assms
  by (auto simp: build_broadcast_tx_request_Inr clear_msgs_def json_buffer_def map_of_obj_set)


text \<open>C9: When public-key recovery fails, broadcastTxRequest rejects with the recovery error itself (not a GrpcException) and sends no request.\<close>

theorem broadcast_recover_failure:
  assumes "json_parse (ptr_data (bc_tx_response a)) = Inr d"
    and "recover d (bc_signature a) = Inl m"
  shows "broadcastTxRequest t recover a log = (Inl (ExternalError m), log)"
  using assms by (simp add: broadcastTxRequest_def build_broadcast_tx_request_def Let_def)

text \<open>C10: Public-key recovery is consulted only on the typed data exactly as parsed from the prepare response, before msgs is cleared: two recovery functions that agree there give the same broadcastTxRequest behaviour.\<close>

theorem broadcast_recover_sees_parsed_data:
  assumes "json_parse (ptr_data (bc_tx_response a)) = Inr d"
    and "recover d (bc_signature a) = recover' d (bc_signature a)"
  shows "broadcastTxRequest t recover a log = broadcastTxRequest t recover' a log"
  using assms by (simp add: broadcastTxRequest_def build_broadcast_tx_request_def Let_def)

text \<open>C8: When the transport rejects the BroadcastTx request, broadcastTxRequest rejects with GrpcException carrying the rejection's message, after exactly that one request.\<close>

theorem broadcast_transport_failure:
  assumes "build_broadcast_tx_request recover a = Inr r" and "broadcast_tx t r = Inl m"
  shows "broadcastTxRequest t recover a log = (Inl (GrpcException m), log @ [BroadcastTxCall r])"
  using assms by (simp add: broadcastTxRequest_Inr grpc_rethrow_def)

text \<open>C13: When the BroadcastTx request succeeds, broadcastTxRequest returns the response converted by toObject, after exactly that one request.\<close>

theorem broadcast_success:
  assumes "build_broadcast_tx_request recover a = Inr r" and "broadcast_tx t r = Inr resp"
  shows "broadcastTxRequest t recover a log = (Inr (to_object resp), log @ [BroadcastTxCall r])"
  using assms by (simp add: broadcastTxRequest_Inr grpc_rethrow_def)

text \<open>C4: Every BroadcastTx request broadcastTxRequest builds has broadcast mode 'block', whatever the inputs.\<close>

theorem broadcast_mode_block:
  "build_broadcast_tx_request recover a = Inr r \<Longrightarrow> btx_mode r = js_str ''block''"
  by (auto simp: build_broadcast_tx_request_def Let_def sum_bind_eq_Inr)

text \<open>C6: The message list of every BroadcastTx request broadcastTxRequest builds has exactly one entry, the UTF-8 bytes of JSON.stringify(message).\<close>

theorem broadcast_msgs_list:
  "build_broadcast_tx_request recover a = Inr r \<Longrightarrow>
   \<exists>s. stringify (bc_message a) = Some s \<and> btx_msgs r = [utf8_encode s]"
  by (auto simp: build_broadcast_tx_request_Inr json_buffer_def split: option.splits)

lemma send_prepare_tx_one:
  "snd (send_prepare_tx t req log) = log
   \<or> (\<exists>c. snd (send_prepare_tx t req log) = log @ [c] \<and> call_method c = PrepareTx)"
  by (cases req) simp_all

lemma prepareTxRequest_one:
  "snd (prepareTxRequest cfg t a log) = log
   \<or> (\<exists>c. snd (prepareTxRequest cfg t a log) = log @ [c] \<and> call_method c = PrepareTx)"
  unfolding prepareTxRequest_def Let_def by (rule send_prepare_tx_one)

lemma prepareExchangeTxRequest_one:
  "snd (prepareExchangeTxRequest cfg t a log) = log
   \<or> (\<exists>c. snd (prepareExchangeTxRequest cfg t a log) = log @ [c] \<and> call_method c = PrepareTx)"
  unfolding prepareExchangeTxRequest_def Let_def by (rule send_prepare_tx_one)

lemma broadcastTxRequest_one:
  "snd (broadcastTxRequest t recover a log) = log
   \<or> (\<exists>c. snd (broadcastTxRequest t recover a log) = log @ [c] \<and> call_method c = BroadcastTx)"
  by (cases "build_broadcast_tx_request recover a")
     (simp_all add: broadcastTxRequest_Inl broadcastTxRequest_Inr)

text \<open>C12: Each of the three methods either sends nothing or appends exactly one request, to its own fixed remote method; there is no retry.\<close>

theorem consumer_step_one_request:
  "snd (consumer_step cfg t recover log op) = log
   \<or> (\<exists>c. snd (consumer_step cfg t recover log op) = log @ [c] \<and> call_method c = op_method op)"
proof (cases op)
  case (PrepareOp a)
  then show ?thesis
    using prepareTxRequest_one [of cfg t a log] by (simp add: split_def Let_def)
next
  case (PrepareExchangeOp a)
  then show ?thesis
    using prepareExchangeTxRequest_one [of cfg t a log] by (simp add: split_def Let_def)
next
  case (BroadcastOp a)
  then show ?thesis
    using broadcastTxRequest_one [of t recover a log] by (simp add: split_def Let_def)
qed

section \<open>The bytes of the messages and the transaction\<close>

text \<open>C14: The bytes the consumer sends for a value (line 50, 98, 139, 144) are exact: decoding
  the bytes of Buffer.from(JSON.stringify(v), 'utf8') as UTF-8 gives back the JSON text,
  with no character replaced.\<close>

theorem json_buffer_decode:
  "json_buffer v = Inr b \<Longrightarrow> \<exists>s. stringify v = Some s \<and> utf8_decode b = Some s"
  by (auto simp: json_buffer_def utf8_decode_encode to_well_formed_id stringify_well_formed
      split: option.splits)

lemma clear_msgs_wf: "wf_jsval d \<Longrightarrow> clear_msgs d = Inr m \<Longrightarrow> wf_jsval m"
proof -
  assume d: "wf_jsval d" and m: "clear_msgs d = Inr m"
  then obtain x where x: "get_prop d (js_str ''message'') = Inr x"
    and set: "set_named_prop x (js_str ''msgs'') JNull = Inr m"
    by (auto simp: clear_msgs_def sum_bind_eq_Inr)
  have ne: "js_str ''message'' \<noteq> js_str ''length''" by (simp add: js_str_inj)
  from d ne x have "wf_jsval x" by (rule wf_get_prop)
  moreover have "wf_jsval JNull" by simp
  ultimately show "wf_jsval m" using set by (rule wf_set_named_prop)
qed

text \<open>C15: parsedTypedData.message.msgs = null (line 131) succeeds exactly when the typed
  data is an object whose message is an object, which gets msgs set to null, or an array,
  which is left as it is; on any other typed data it throws.\<close>

theorem clear_msgs_Inr:
  "clear_msgs d = Inr m \<longleftrightarrow>
   (\<exists>ps. d = JObject ps \<and>
      ((\<exists>qs. obj_get ps (js_str ''message'') = JObject qs \<and> m = JObject (obj_set qs (js_str ''msgs'') JNull))
       \<or> (\<exists>xs. obj_get ps (js_str ''message'') = JArray xs \<and> m = JArray xs)))"
proof (cases d)
  case (JObject ps)
  then show ?thesis
    by (cases "obj_get ps (js_str ''message'')") (auto simp: clear_msgs_def)
qed (auto simp: clear_msgs_def array_index_def is_digit_def js_str_Cons)

text \<open>C16: prepareExchangeTxRequest (lines 65--111) repeats prepareTxRequest (lines 23--63):
  without fee delegation it is exactly prepareTxRequest with DEFAULT_EXCHANGE_LIMIT as the
  default gas limit, on the same arguments.\<close>

theorem prepareExchangeTxRequest_as_prepareTxRequest:
  "delegated_fee a \<noteq> Some True \<Longrightarrow>
   prepareExchangeTxRequest cfg t a log =
     prepareTxRequest (cfg\<lparr>default_gas_limit := default_exchange_limit cfg\<rparr>) t
       (prepare_tx_args.truncate a) log"
  by (simp add: prepareExchangeTxRequest_def prepareTxRequest_def delegate_fee_if_def
      prepare_tx_args.defs)

end
