(* ===== verification/JsonRoundTrip.thy ===== *)
theory JsonRoundTrip
  imports JsonParse JsonStringify "HOL-Library.Multiset"
begin

text \<open>
  \<open>JSON.parse\<close> inverts \<open>JSON.stringify\<close>. For a well-formed value the parser reads the
  serializer's text back as the value's JSON normal form \<open>json_norm\<close>: undefined array
  elements become null, undefined object members are dropped, and the members are in
  own-property order. \<open>jfuel\<close> bounds the fuel the parser needs on the printed text, and
  \<open>jfuel_bound\<close> shows the fuel \<open>json_parse\<close> gives always covers it. The proof goes
  through \<open>parses\<close>, the statement that a value's text followed by any text that may
  follow a value parses back, proved for all well-formed values by the serializer's
  induction. The last section reads an object of one member from its parts, the
  member's value given by its own parse, which need not be printed text.
\<close>

fun json_norm :: "jsval \<Rightarrow> jsval" where
  "json_norm (JArray xs) = JArray (map (\<lambda>x. if x = JUndefined then JNull else json_norm x) xs)"
| "json_norm (JObject ps) =
     JObject (own_entries (map (\<lambda>(k, v). (k, json_norm v)) (filter (\<lambda>(k, v). v \<noteq> JUndefined) ps)))"
| "json_norm v = v"

fun jfuel :: "jsval \<Rightarrow> nat" where
  "jfuel (JArray xs) = sum_list (map (\<lambda>x. jfuel x + 2) xs)"
| "jfuel (JObject ps) = sum_list (map (\<lambda>(k, v). if v = JUndefined then 0 else jfuel v + 2) ps)"
| "jfuel v = 0"

definition value_start :: "u16 \<Rightarrow> bool" where
  "value_start c \<longleftrightarrow> c = 123 \<or> c = 91 \<or> c = 34 \<or> c = 116 \<or> c = 102 \<or> c = 110 \<or> c = 45 \<or> is_digit c"

definition elem_text :: "jsval \<Rightarrow> jstring" where
  "elem_text x = (case stringify x of None \<Rightarrow> null_text | Some s \<Rightarrow> s)"

definition elem_norm :: "jsval \<Rightarrow> jsval" where
  "elem_norm x = (if x = JUndefined then JNull else json_norm x)"

definition member_text :: "jstring \<times> jsval \<Rightarrow> jstring" where
  "member_text p = quote_json_string (fst p) @ 58 # the (stringify (snd p))"

definition value_end :: "jstring \<Rightarrow> bool" where
  "value_end r \<longleftrightarrow> r = [] \<or> hd r = 44 \<or> hd r = 93 \<or> hd r = 125"

definition parses :: "jsval \<Rightarrow> bool" where
  "parses v \<longleftrightarrow> (\<forall>t rest f. stringify v = Some t \<longrightarrow> value_end rest \<longrightarrow> jfuel v < f
      \<longrightarrow> parse_value f (t @ rest) = Some (Inr (json_norm v, rest)))"

lemma unat_hex_digit: "d < 16 \<Longrightarrow> unat (hex_digit d) = (if d < 10 then 48 + d else 87 + d)"
  by (simp add: hex_digit_def unat_of_nat del: of_nat_add)

lemma hex_value_hex_digit: "d < 16 \<Longrightarrow> hex_value (hex_digit d) = Some d"
  by (simp add: hex_value_def unat_hex_digit)

lemma hex_digits_sum:
  "(n::nat) div 4096 * 4096 + n div 256 mod 16 * 256 + n div 16 mod 16 * 16 + n mod 16 = n"
proof -
  have "n mod 4096 = 256 * (n div 256 mod 16) + n mod 256" using mod_mult2_eq [of n 256 16] by simp
  moreover have "n mod 256 = 16 * (n div 16 mod 16) + n mod 16" using mod_mult2_eq [of n 16 16] by simp
  moreover have "n div 4096 * 4096 + n mod 4096 = n" by (rule div_mult_mod_eq)
  ultimately show ?thesis by linarith
qed

lemma hex4_unicode_escape:
  "hex4 (hex_digit (unat c div 4096)) (hex_digit (unat c div 256 mod 16))
        (hex_digit (unat c div 16 mod 16)) (hex_digit (unat c mod 16)) = Some c"
proof -
  have n: "unat c < 65536" by (rule unat_u16_less)
  then have "unat c div 4096 < 16" by simp
  then show ?thesis
    by (simp add: hex4_def hex_value_hex_digit hex_digits_sum del: of_nat_add of_nat_mult)
qed

lemma parse_escape_unit:
  "parse_string_body acc (escape_unit c @ t) = parse_string_body (acc @ [c]) t"
  by (simp add: escape_unit_def unicode_escape_def Let_def hex4_unicode_escape simple_escape_def)

lemma parse_quote_units:
  "parse_string_body acc (quote_units s @ 34 # rest) = Inr (acc @ s, rest)"
proof (induction s arbitrary: acc rule: quote_units.induct)
  case (2 c)
  then show ?case by (simp add: parse_escape_unit)
next
  case (3 c d ds)
  show ?case
  proof (cases "is_high_surrogate c \<and> is_low_surrogate d")
    case True
    then have "c \<noteq> 34 \<and> c \<noteq> 92 \<and> \<not> c < 0x20 \<and> d \<noteq> 34 \<and> d \<noteq> 92 \<and> \<not> d < 0x20"
      by (auto simp: is_high_surrogate_unat is_low_surrogate_unat word_less_nat_alt)
    with True "3.IH"(1) [of "acc @ [c, d]"] show ?thesis by simp
  next
    case False
    then have "quote_units (c # d # ds) @ 34 # rest = escape_unit c @ (quote_units (d # ds) @ 34 # rest)"
      by (simp only: quote_units.simps(3) if_not_P if_False append_assoc)
    with False "3.IH"(2) [of "acc @ [c]"] show ?thesis by (simp only: parse_escape_unit) simp
  qed
qed simp

lemma parse_quote_json_string:
  "parse_string_body [] (tl (quote_json_string s) @ rest) = Inr (s, rest)"
  by (simp add: quote_json_string_def parse_quote_units)

section \<open>Numbers\<close>

lemma nat_digits_nonempty: "nat_digits n \<noteq> []"
  by (subst nat_digits.simps) simp

lemma nat_digits_zero: "nat_digits 0 = [48]"
  by (subst nat_digits.simps) simp

lemma unat_digit: "d < 10 \<Longrightarrow> unat (of_nat (48 + d) :: u16) = 48 + d"
  by (simp add: unat_of_nat del: of_nat_add)

lemma is_digit_digit: "d < 10 \<Longrightarrow> is_digit (of_nat (48 + d))"
  by (simp add: is_digit_def word_le_nat_alt unat_digit del: of_nat_add)

lemma nat_digits_snoc:
  "nat_digits n = (if n < 10 then [] else nat_digits (n div 10)) @ [of_nat (48 + n mod 10)]"
  by (subst nat_digits.simps) simp

lemma nat_digits_digits: "list_all is_digit (nat_digits n)"
proof (induction n rule: nat_digits.induct)
  case (1 n)
  then show ?case by (subst nat_digits_snoc) (simp add: is_digit_digit del: of_nat_add)
qed

lemma decimal_value_snoc: "decimal_value (ds @ [c]) = 10 * decimal_value ds + (unat c - 48)"
  by (simp add: decimal_value_def)

lemma decimal_value_nat_digits: "decimal_value (nat_digits n) = n"
proof (induction n rule: nat_digits.induct)
  case (1 n)
  then show ?case
    by (subst nat_digits_snoc) (simp add: decimal_value_snoc unat_digit decimal_value_def del: of_nat_add)
qed

lemma hd_nat_digits: "hd (nat_digits n) = 48 \<longleftrightarrow> n = 0"
proof (induction n rule: nat_digits.induct)
  case (1 n)
  show ?case
  proof (cases "n < 10")
    case True
    then have "unat (hd (nat_digits n)) = 48 + n"
      by (subst nat_digits_snoc) (simp add: unat_digit del: of_nat_add)
    then show ?thesis by (auto simp: word_unat_eq_iff)
  next
    case False
    then have "hd (nat_digits n) = hd (nat_digits (n div 10))"
      by (subst nat_digits_snoc) (simp add: nat_digits_nonempty)
    with False "1.IH" show ?thesis by simp
  qed
qed

lemma value_end_not_digit: "value_end r \<Longrightarrow> r \<noteq> [] \<Longrightarrow> \<not> is_digit (hd r)"
  by (auto simp: value_end_def is_digit_def)

lemma digits_split:
  assumes "list_all is_digit ds" and "value_end rest"
  shows "takeWhile is_digit (ds @ rest) = ds" and "dropWhile is_digit (ds @ rest) = rest"
proof -
  have "takeWhile is_digit rest = [] \<and> dropWhile is_digit rest = rest"
    using value_end_not_digit [OF assms(2)] by (cases rest) auto
  with assms(1) show "takeWhile is_digit (ds @ rest) = ds" "dropWhile is_digit (ds @ rest) = rest"
    by (simp_all add: takeWhile_append2 dropWhile_append2 list_all_iff)
qed

lemma parse_nat_digits:
  assumes "value_end rest"
  shows "parse_number (nat_digits m @ rest) =
     (if round_nat m < json_int_limit then Inr (JNumber (int (round_nat m)), rest) else Inl UnmodelledNumber)"
    and "0 < m \<Longrightarrow> parse_number (45 # nat_digits m @ rest) =
     (if round_nat m < json_int_limit then Inr (JNumber (- int (round_nat m)), rest) else Inl UnmodelledNumber)"
proof -
  have tw: "takeWhile is_digit (nat_digits m @ rest) = nat_digits m"
    and dw: "dropWhile is_digit (nat_digits m @ rest) = rest"
    using digits_split [OF nat_digits_digits assms] by auto
  have lead: "\<not> (hd (nat_digits m) = 48 \<and> 1 < length (nat_digits m))"
    using nat_digits_zero by (auto simp: hd_nat_digits)
  have hd_digit: "is_digit (hd (nat_digits m))"
    using nat_digits_digits [of m] nat_digits_nonempty [of m] by (cases "nat_digits m") auto
  then have not_minus: "hd (nat_digits m @ rest) \<noteq> 45"
    using nat_digits_nonempty [of m] by (auto simp: is_digit_def)
  have not_frac: "\<not> (rest \<noteq> [] \<and> (hd rest = 46 \<or> hd rest = 101 \<or> hd rest = 69))"
    using assms by (auto simp: value_end_def)
  show "parse_number (nat_digits m @ rest) =
     (if round_nat m < json_int_limit then Inr (JNumber (int (round_nat m)), rest) else Inl UnmodelledNumber)"
    using tw dw lead not_frac not_minus nat_digits_nonempty [of m]
    by (auto simp: parse_number_def Let_def decimal_value_nat_digits)
  show "0 < m \<Longrightarrow> parse_number (45 # nat_digits m @ rest) =
     (if round_nat m < json_int_limit then Inr (JNumber (- int (round_nat m)), rest) else Inl UnmodelledNumber)"
    using tw dw lead not_frac nat_digits_nonempty [of m]
    by (auto simp: parse_number_def Let_def decimal_value_nat_digits)
qed

lemma parse_number_text:
  assumes "js_int n" and "value_end rest"
  shows "parse_number (number_text n @ rest) = Inr (JNumber n, rest)"
proof -
  let ?a = "nat \<bar>n\<bar>"
  have a: "round_nat ?a = ?a" "?a < json_int_limit" using js_int_nat_abs [OF assms(1)] by simp_all
  then have r: "round_nat (shortest_nat ?a) = ?a" by (simp add: round_shortest)
  show ?thesis
  proof (cases "n < 0")
    case True
    then have "0 < shortest_nat ?a" using shortest_eq_0 [OF a(1)] by simp
    then show ?thesis
      using True r a parse_nat_digits(2) [OF assms(2), of "shortest_nat ?a"] by (simp add: number_text_def)
  next
    case False
    then show ?thesis
      using r a parse_nat_digits(1) [OF assms(2), of "shortest_nat ?a"] by (simp add: number_text_def)
  qed
qed

section \<open>Shape of the serializer's output\<close>

lemma hd_nat_digits_digit: "is_digit (hd (nat_digits m))"
  using nat_digits_digits [of m] nat_digits_nonempty [of m] by (cases "nat_digits m") auto

lemma stringify_start:
  assumes "stringify v = Some t"
  shows "t \<noteq> [] \<and> value_start (hd t)"
proof (cases v)
  case (JNumber n)
  with assms have "t = number_text n" by simp
  then show ?thesis
    using hd_nat_digits_digit nat_digits_nonempty by (simp add: number_text_def value_start_def)
qed (use assms in \<open>auto simp: value_start_def null_text_def quote_json_string_def js_str_Cons split: if_splits\<close>)

lemma value_start_not_ws: "value_start c \<Longrightarrow> \<not> is_json_ws c"
  by (auto simp: value_start_def is_json_ws_def is_digit_def)

lemma skip_ws_value: "t \<noteq> [] \<Longrightarrow> value_start (hd t) \<Longrightarrow> skip_ws (t @ r) = t @ r"
  by (cases t) (simp_all add: skip_ws_def value_start_not_ws)

section \<open>Objects\<close>

lemma obj_set_new: "k \<notin> set (map fst ps) \<Longrightarrow> obj_set ps k v = ps @ [(k, v)]"
  by (induction ps) auto

lemma insort_key_map_snd:
  "insort_key f (k, g v) (map (\<lambda>(k, v). (k, g v)) xs)
   = map (\<lambda>(k, v). (k, g v)) (insort_key (\<lambda>p. f (fst p, g (snd p))) (k, v) xs)"
  by (induction xs) auto

lemma own_entries_map_snd:
  "own_entries (map (\<lambda>(k, v). (k, g v)) ps) = map (\<lambda>(k, v). (k, g v)) (own_entries ps)"
proof -
  have "sort_key (\<lambda>p. index_key (fst p)) (map (\<lambda>(k, v). (k, g v)) xs)
        = map (\<lambda>(k, v). (k, g v)) (sort_key (\<lambda>p. index_key (fst p)) xs)" for xs
    by (induction xs) (auto simp: insort_key_map_snd)
  moreover have "filter P (map (\<lambda>(k, v). (k, g v)) ps) = map (\<lambda>(k, v). (k, g v)) (filter (P \<circ> (\<lambda>(k, v). (k, g v))) ps)"
    for P by (simp add: filter_map)
  ultimately show ?thesis
    by (simp add: own_entries_def filter_map comp_def case_prod_beta)
qed

lemma own_entries_filter_snd:
  "own_entries (filter (\<lambda>(k, v). P v) ps) = filter (\<lambda>(k, v). P v) (own_entries ps)"
  by (simp add: own_entries_def filter_sort [symmetric] conj_commute split_def)

lemma mset_own_entries: "mset (own_entries ps) = mset ps"
  by (simp add: own_entries_def)

lemma distinct_own_entries: "distinct (map fst (own_entries ps)) = distinct (map fst ps)"
  using mset_eq_imp_distinct_iff [of "map fst (own_entries ps)" "map fst ps"]
  by (simp add: mset_own_entries)

lemma map_of_own_entries: "distinct (map fst ps) \<Longrightarrow> map_of (own_entries ps) = map_of ps"
  by (simp add: map_of_inject_set distinct_own_entries set_own_entries)

lemma json_norm_member:
  assumes "distinct (map fst ps)" and "map_of ps k = Some v" and "v \<noteq> JUndefined"
  shows "\<exists>qs. json_norm (JObject ps) = JObject qs \<and> map_of qs k = Some (json_norm v)"
proof -
  define L where "L = map (\<lambda>(k, v). (k, json_norm v)) (filter (\<lambda>(k, v). v \<noteq> JUndefined) ps)"
  have "map fst L = map fst (filter (\<lambda>(k, v). v \<noteq> JUndefined) ps)"
    unfolding L_def by (induction ps) auto
  then have "distinct (map fst L)" using assms(1) by (simp add: distinct_map_filter)
  moreover have "map_of (filter (\<lambda>(k, v). v \<noteq> JUndefined) ps) k = Some v"
    using assms(2,3) by (rule map_of_filter_in)
  ultimately have "map_of (own_entries L) k = Some (json_norm v)"
    by (simp add: map_of_own_entries L_def map_of_map)
  then show ?thesis by (simp add: L_def)
qed

lemma member_texts_stringify:
  "member_texts (map (\<lambda>(k, v). (k, stringify v)) L)
   = map member_text (filter (\<lambda>(k, v). v \<noteq> JUndefined) L)"
  by (induction L) (auto simp: member_texts_def map_filter_def member_text_def stringify_None_iff)

lemma stringify_elems_elem_text: "stringify_elems xs = map elem_text xs"
  by (induction xs) (simp_all add: elem_text_def)

section \<open>One step of the parser on printed text\<close>

lemma start_facts:
  assumes "value_start c"
  shows "\<not> is_json_ws c" "c \<noteq> 93" "c \<noteq> 125" "c \<noteq> 44"
  using assms by (auto simp: value_start_def is_json_ws_def is_digit_def)

lemma parse_elems_step:
  assumes "parse_value f (t @ c # r) = Some (Inr (w, c # r))" and "\<not> is_json_ws c"
  shows "parse_elems (Suc f) acc (t @ c # r) =
     (if c = 44 then parse_elems f (acc @ [w]) (skip_ws r)
      else if c = 93 then Some (Inr (acc @ [w], r)) else Some (Inl SyntaxError))"
  using assms by (simp add: skip_ws_def)

lemma parse_members_step:
  assumes "parse_value f (t @ c # r) = Some (Inr (w, c # r))" and "\<not> is_json_ws c"
    and "t \<noteq> []" and "value_start (hd t)"
  shows "parse_members (Suc f) ps (quote_json_string k @ 58 # t @ c # r) =
     (if c = 44 then parse_members f (obj_set ps k w) (skip_ws r)
      else if c = 125 then Some (Inr (obj_set ps k w, r)) else Some (Inl SyntaxError))"
proof -
  have "skip_ws (t @ c # r) = t @ c # r" by (rule skip_ws_value [OF assms(3,4)])
  moreover have "skip_ws (58 # t @ c # r) = 58 # t @ c # r" by (simp add: skip_ws_def is_json_ws_def)
  moreover have "skip_ws (c # r) = c # r" using assms(2) by (simp add: skip_ws_def)
  ultimately show ?thesis
    using assms(1) by (simp add: quote_json_string_def parse_quote_units)
qed

section \<open>Elements\<close>

lemma join_comma_Cons: "join_comma (t # ts) = t @ (if ts = [] then [] else 44 # join_comma ts)"
  by (cases ts) simp_all

lemma parse_null: "parse_value (Suc f) (null_text @ r) = Some (Inr (JNull, r))"
  by (simp add: null_text_def js_str_Cons)

lemma elem_text_start: "elem_text x \<noteq> [] \<and> value_start (hd (elem_text x))"
  using stringify_start [of x]
  by (auto simp: elem_text_def null_text_def js_str_Cons value_start_def split: option.splits)

lemma parse_elem:
  assumes "x \<noteq> JUndefined \<longrightarrow> parses x" and "value_end r" and "jfuel x < f"
  shows "parse_value f (elem_text x @ r) = Some (Inr (elem_norm x, r))"
proof (cases "x = JUndefined")
  case True
  with assms(3) obtain f' where "f = Suc f'" by (cases f) auto
  with True parse_null [of f' r] show ?thesis
    by (simp add: elem_text_def elem_norm_def del: parse_value.simps)
next
  case False
  then obtain t where "stringify x = Some t" by (cases "stringify x") (auto simp: stringify_None_iff)
  with False assms show ?thesis by (simp add: parses_def elem_text_def elem_norm_def)
qed

lemma parse_elems_list:
  assumes "\<forall>x\<in>set xs. x \<noteq> JUndefined \<longrightarrow> parses x"
    and "sum_list (map (\<lambda>x. jfuel x + 2) xs) \<le> f" and "xs \<noteq> []"
  shows "parse_elems f acc (join_comma (map elem_text xs) @ 93 # rest)
         = Some (Inr (acc @ map elem_norm xs, rest))"
  using assms
proof (induction xs arbitrary: acc f)
  case (Cons x xs)
  obtain f' where f: "f = Suc f'" using Cons.prems(2) by (cases f) auto
  have fx: "jfuel x < f'" using Cons.prems(2) f by simp
  show ?case
  proof (cases xs)
    case Nil
    have "parse_value f' (elem_text x @ 93 # rest) = Some (Inr (elem_norm x, 93 # rest))"
      using parse_elem Cons.prems(1) fx by (simp add: value_end_def)
    from parse_elems_step [OF this] f Nil show ?thesis by (simp add: is_json_ws_def)
  next
    case (Cons y ys)
    let ?r = "join_comma (map elem_text xs) @ 93 # rest"
    have v: "parse_value f' (elem_text x @ 44 # ?r) = Some (Inr (elem_norm x, 44 # ?r))"
      using parse_elem \<open>\<forall>x\<in>set (x # xs). _\<close> fx by (simp add: value_end_def)
    have "skip_ws ?r = ?r"
      using elem_text_start [of y] Cons skip_ws_value [of "elem_text y"] by (simp add: join_comma_Cons)
    moreover have "parse_elems f' (acc @ [elem_norm x]) ?r = Some (Inr (acc @ map elem_norm (x # xs), rest))"
      using "Cons.IH" [where acc = "acc @ [elem_norm x]" and f = f'] \<open>\<forall>x\<in>set (x # xs). _\<close> \<open>_ \<le> f\<close> f Cons
      by simp
    ultimately show ?thesis
      using parse_elems_step [OF v] f Cons by (simp add: is_json_ws_def)
  qed
qed simp

section \<open>Members\<close>

lemma member_text_start: "member_text p \<noteq> [] \<and> value_start (hd (member_text p))"
  by (simp add: member_text_def quote_json_string_def value_start_def)

lemma parse_members_list:
  assumes "\<forall>p\<in>set L. snd p \<noteq> JUndefined \<and> parses (snd p)"
    and "distinct (map fst (pre @ L))"
    and "sum_list (map (\<lambda>(k, v). jfuel v + 2) L) \<le> f" and "L \<noteq> []"
  shows "parse_members f pre (join_comma (map member_text L) @ 125 # rest)
         = Some (Inr (pre @ map (\<lambda>(k, v). (k, json_norm v)) L, rest))"
  using assms
proof (induction L arbitrary: pre f)
  case (Cons p L)
  obtain k v where p: "p = (k, v)" by (cases p)
  obtain f' where f: "f = Suc f'" using Cons.prems(3) p by (cases f) auto
  have fv: "jfuel v < f'" using Cons.prems(3) f p by simp
  have v: "v \<noteq> JUndefined" "parses v" using Cons.prems(1) p by auto
  then obtain t where t: "stringify v = Some t" by (cases "stringify v") (auto simp: stringify_None_iff)
  have start: "t \<noteq> []" "value_start (hd t)" using stringify_start [OF t] by auto
  have new: "obj_set pre k (json_norm v) = pre @ [(k, json_norm v)]"
    using Cons.prems(2) p by (simp add: obj_set_new)
  have mt: "member_text p = quote_json_string k @ 58 # t" by (simp add: member_text_def p t)
  show ?case
  proof (cases L)
    case Nil
    have "parse_value f' (t @ 125 # rest) = Some (Inr (json_norm v, 125 # rest))"
      using v t fv by (simp add: parses_def value_end_def)
    from parse_members_step [OF this _ start] f Nil mt new p show ?thesis
      by (simp add: is_json_ws_def del: parse_members.simps)
  next
    case (Cons q L')
    let ?r = "join_comma (map member_text L) @ 125 # rest"
    have pv: "parse_value f' (t @ 44 # ?r) = Some (Inr (json_norm v, 44 # ?r))"
      using v t fv by (simp add: parses_def value_end_def)
    have "skip_ws ?r = ?r"
      using member_text_start [of q] Cons skip_ws_value [of "member_text q"] by (simp add: join_comma_Cons)
    moreover have "parse_members f' (pre @ [(k, json_norm v)]) ?r
        = Some (Inr (pre @ map (\<lambda>(k, v). (k, json_norm v)) (p # L), rest))"
      using "Cons.IH" [where pre = "pre @ [(k, json_norm v)]" and f = f'] Cons.prems f p Cons
      by simp
    ultimately show ?thesis
      using parse_members_step [OF pv _ start] f Cons mt new
      by (simp add: is_json_ws_def join_comma_Cons del: parse_members.simps)
  qed
qed simp

section \<open>Values\<close>

lemma parse_literal_true: "parse_value (Suc f) (js_str ''true'' @ r) = Some (Inr (JBool True, r))"
  by (simp add: js_str_Cons)

lemma parse_literal_false: "parse_value (Suc f) (js_str ''false'' @ r) = Some (Inr (JBool False, r))"
  by (simp add: js_str_Cons)

lemma parse_string_value: "parse_value (Suc f) (quote_json_string s @ r) = Some (Inr (JString s, r))"
  by (simp add: quote_json_string_def parse_quote_units)

lemma parse_value_number:
  assumes "t \<noteq> []" and "hd t = 45 \<or> is_digit (hd t)"
  shows "parse_value (Suc f) t = Some (parse_number t)"
proof -
  obtain c u where cu: "t = c # u" using assms(1) by (cases t) auto
  with assms(2) have "c \<noteq> 123" "c \<noteq> 91" "c \<noteq> 34" "c \<noteq> 116" "c \<noteq> 102" "c \<noteq> 110"
    and "c = 45 \<or> is_digit c"
    by (auto simp: is_digit_def)
  with cu show ?thesis by (simp add: js_str_Cons)
qed

lemma parse_number_value:
  assumes "js_int n" and "value_end r"
  shows "parse_value (Suc f) (number_text n @ r) = Some (Inr (JNumber n, r))"
proof -
  have "number_text n \<noteq> [] \<and> (hd (number_text n) = 45 \<or> is_digit (hd (number_text n)))"
    using hd_nat_digits_digit nat_digits_nonempty by (simp add: number_text_def)
  then show ?thesis
    using parse_value_number [of "number_text n @ r" f] parse_number_text [OF assms] by simp
qed

lemma stringify_members_map: "stringify_members ps = map (\<lambda>(k, v). (k, stringify v)) ps"
  by (induction ps) auto

lemma sum_list_mset_eq:
  assumes "mset xs = mset ys"
  shows "sum_list (map (g :: 'a \<Rightarrow> nat) xs) = sum_list (map g ys)"
proof -
  have "sum_list (map g xs) = sum_mset (mset (map g xs))" by (rule sum_mset_sum_list [symmetric])
  also have "\<dots> = sum_mset (mset (map g ys))" by (simp add: assms)
  also have "\<dots> = sum_list (map g ys)" by (rule sum_mset_sum_list)
  finally show ?thesis .
qed

lemma jfuel_object:
  "jfuel (JObject ps) = sum_list (map (\<lambda>(k, v). jfuel v + 2) (filter (\<lambda>(k, v). v \<noteq> JUndefined) (own_entries ps)))"
proof -
  have "sum_list (map (\<lambda>(k, v). jfuel v + 2) (filter (\<lambda>(k, v). v \<noteq> JUndefined) (own_entries ps)))
      = sum_list (map (\<lambda>(k, v). if v = JUndefined then 0 else jfuel v + 2) (own_entries ps))"
    unfolding sum_list_map_filter'
    by (rule arg_cong [where f = sum_list], rule map_cong) (auto simp: case_prod_beta)
  then show ?thesis by (simp add: sum_list_mset_eq [OF mset_own_entries])
qed

lemma parses_array:
  assumes els: "\<forall>x\<in>set xs. x \<noteq> JUndefined \<longrightarrow> parses x"
  shows "parses (JArray xs)"
  unfolding parses_def
proof (intro allI impI)
  fix t rest f
  assume t: "stringify (JArray xs) = Some t" and "value_end rest" and fuel: "jfuel (JArray xs) < f"
  then obtain f' where f: "f = Suc f'" by (cases f) auto
  show "parse_value f (t @ rest) = Some (Inr (json_norm (JArray xs), rest))"
  proof (cases xs)
    case Nil
    with t have "t = [91, 93]" by simp
    with f Nil show ?thesis by (simp add: skip_ws_def is_json_ws_def)
  next
    case (Cons y ys)
    let ?r = "join_comma (map elem_text xs) @ 93 # rest"
    have ws: "skip_ws ?r = ?r" and nb: "hd ?r \<noteq> 93" "?r \<noteq> []"
      using elem_text_start [of y] Cons skip_ws_value [of "elem_text y"] start_facts [of "hd (elem_text y)"]
      by (simp_all add: join_comma_Cons)
    have "parse_elems f' [] ?r = Some (Inr (map elem_norm xs, rest))"
      using parse_elems_list [OF els, of f' "[]" rest] fuel f Cons by simp
    moreover have "t = 91 # join_comma (map elem_text xs) @ [93]"
      using t by (simp add: stringify_elems_elem_text)
    ultimately show ?thesis using f ws nb
      by (simp add: elem_norm_def del: parse_elems.simps)
  qed
qed

lemma parses_object:
  assumes dist0: "distinct (map fst ps)" and mem0: "\<forall>p\<in>set ps. parses (snd p)"
  shows "parses (JObject ps)"
  unfolding parses_def
proof (intro allI impI)
  fix t rest f
  assume t: "stringify (JObject ps) = Some t" and "value_end rest" and fuel: "jfuel (JObject ps) < f"
  then obtain f' where f: "f = Suc f'" by (cases f) auto
  define L where "L = filter (\<lambda>(k, v). v \<noteq> JUndefined) (own_entries ps)"
  have tx: "t = 123 # join_comma (map member_text L) @ [125]"
    using t by (simp add: L_def stringify_members_map own_entries_map_snd member_texts_stringify)
  have norm: "json_norm (JObject ps) = JObject (map (\<lambda>(k, v). (k, json_norm v)) L)"
    by (simp add: L_def own_entries_map_snd own_entries_filter_snd)
  show "parse_value f (t @ rest) = Some (Inr (json_norm (JObject ps), rest))"
  proof (cases L)
    case Nil
    with tx norm f show ?thesis by (simp add: skip_ws_def is_json_ws_def)
  next
    case (Cons q L')
    let ?r = "join_comma (map member_text L) @ 125 # rest"
    have mem: "\<forall>p\<in>set L. snd p \<noteq> JUndefined \<and> parses (snd p)"
      using mem0 by (auto simp: L_def set_own_entries)
    have "distinct (map fst (own_entries ps))"
      using dist0 by (simp add: distinct_own_entries)
    then have dist: "distinct (map fst ([] @ L))" by (simp add: L_def distinct_map_filter)
    have "sum_list (map (\<lambda>(k, v). jfuel v + 2) L) = jfuel (JObject ps)"
      unfolding L_def by (rule jfuel_object [symmetric])
    then have "sum_list (map (\<lambda>(k, v). jfuel v + 2) L) \<le> f'" using fuel f by simp
    then have "parse_members f' [] ?r = Some (Inr (map (\<lambda>(k, v). (k, json_norm v)) L, rest))"
      using parse_members_list [OF mem dist] Cons by simp
    moreover have "skip_ws ?r = ?r" and "hd ?r \<noteq> 125" "?r \<noteq> []"
      using member_text_start [of q] Cons skip_ws_value [of "member_text q"]
        start_facts [of "hd (member_text q)"]
      by (simp_all add: join_comma_Cons)
    ultimately show ?thesis using tx norm f by (simp del: parse_members.simps)
  qed
qed

lemma parses_all:
  shows "wf_jsval v \<Longrightarrow> parses v"
    and "list_all wf_jsval xs \<Longrightarrow> \<forall>x\<in>set xs. x \<noteq> JUndefined \<longrightarrow> parses x"
    and "list_all (\<lambda>p. wf_jsval (snd p)) (ps :: (jstring \<times> jsval) list) \<Longrightarrow> \<forall>p\<in>set ps. parses (snd p)"
proof (induction v and xs and ps rule: stringify_stringify_elems_stringify_members.induct)
  case 1
  then show ?case by (simp add: parses_def)
next
  case 2
  then show ?case by (auto simp: parses_def parse_null gr0_conv_Suc simp del: parse_value.simps)
next
  case (3 b)
  then show ?case
    by (auto simp: parses_def parse_literal_true parse_literal_false gr0_conv_Suc simp del: parse_value.simps)
next
  case (4 n)
  then show ?case by (auto simp: parses_def parse_number_value gr0_conv_Suc simp del: parse_value.simps)
next
  case (5 s)
  then show ?case by (auto simp: parses_def parse_string_value gr0_conv_Suc simp del: parse_value.simps)
next
  case (6 xs)
  then show ?case by (intro parses_array) simp
next
  case (7 ps)
  then show ?case by (intro parses_object) auto
qed auto

section \<open>The printed text is long enough for the fuel\<close>

lemma length_join_comma: "ts \<noteq> [] \<Longrightarrow> length (join_comma ts) + 1 = sum_list (map (\<lambda>t. length t + 1) ts)"
  by (induction ts rule: join_comma.induct) simp_all

lemma join_comma_bound:
  assumes "xs \<noteq> []" and "\<forall>x\<in>set xs. g x \<le> 2 * length (h x) + 1"
  shows "sum_list (map (\<lambda>x. g x + 1) xs) \<le> 2 * (length (join_comma (map h xs)) + 1)"
proof -
  have "sum_list (map (\<lambda>x. g x + 1) xs) \<le> sum_list (map (\<lambda>x. 2 * (length (h x) + 1)) xs)"
    using assms(2) by (intro sum_list_mono) auto
  also have "\<dots> = 2 * sum_list (map (\<lambda>t. length t + 1) (map h xs))"
    by (induction xs) simp_all
  also have "\<dots> = 2 * (length (join_comma (map h xs)) + 1)"
    using assms(1) length_join_comma [of "map h xs"] by simp
  finally show ?thesis .
qed

lemma jfuel_bound_all:
  shows "\<forall>t. stringify v = Some t \<longrightarrow> jfuel v + 1 \<le> 2 * length t"
    and "\<forall>x\<in>set xs. jfuel x + 1 \<le> 2 * length (elem_text x)"
    and "\<forall>p\<in>set (ps :: (jstring \<times> jsval) list). snd p \<noteq> JUndefined \<longrightarrow> jfuel (snd p) + 1 \<le> 2 * length (member_text p)"
proof (induction v and xs and ps rule: stringify_stringify_elems_stringify_members.induct)
  case (4 n)
  have "number_text n \<noteq> []" using nat_digits_nonempty by (simp add: number_text_def)
  then show ?case by (simp add: Suc_le_eq)
next
  case (6 xs)
  show ?case
  proof (cases xs)
    case (Cons y ys)
    have "sum_list (map (\<lambda>x. (jfuel x + 1) + 1) xs) \<le> 2 * (length (join_comma (map elem_text xs)) + 1)"
      using "6.IH" Cons by (intro join_comma_bound) auto
    then show ?thesis by (simp add: stringify_elems_elem_text)
  qed simp
next
  case (7 ps)
  define L where "L = filter (\<lambda>(k, v). v \<noteq> JUndefined) (own_entries ps)"
  show ?case
  proof (cases L)
    case (Cons q L')
    have "\<forall>p\<in>set L. jfuel (snd p) + 1 \<le> 2 * length (member_text p) + 1"
      using "7.IH" by (auto simp: L_def set_own_entries)
    then have "sum_list (map (\<lambda>p. (jfuel (snd p) + 1) + 1) L) \<le> 2 * (length (join_comma (map member_text L)) + 1)"
      using Cons by (intro join_comma_bound) auto
    moreover have "jfuel (JObject ps) = sum_list (map (\<lambda>p. (jfuel (snd p) + 1) + 1) L)"
      unfolding jfuel_object L_def by (simp add: split_def)
    ultimately show ?thesis
      by (simp add: L_def stringify_members_map own_entries_map_snd member_texts_stringify)
  next
    case Nil
    then have "jfuel (JObject ps) = 0" unfolding jfuel_object L_def by simp
    then show ?thesis by (simp del: jfuel.simps)
  qed
next
  case (9 x xs)
  then show ?case
    by (auto simp: elem_text_def null_text_def js_str_Cons stringify_None_iff split: option.splits)
next
  case (11 k v ps)
  have "v \<noteq> JUndefined \<Longrightarrow> jfuel v + 1 \<le> 2 * length (the (stringify v))"
    using "11.IH"(1) stringify_None_iff [of v] by (cases "stringify v") auto
  with "11.IH"(2) show ?case
    by (auto simp: member_text_def quote_json_string_def)
qed (auto simp: null_text_def js_str_Cons quote_json_string_def)

section \<open>Round trip\<close>

lemma jfuel_bound: "stringify v = Some t \<Longrightarrow> jfuel v + 1 \<le> 2 * length t"
  using jfuel_bound_all(1) [of v] by simp

theorem json_parse_stringify:
  assumes wf: "wf_jsval v" and s: "stringify v = Some t"
  shows "json_parse t = Inr (json_norm v)"
proof -
  have start: "t \<noteq> [] \<and> value_start (hd t)" by (rule stringify_start [OF s])
  then have ws: "skip_ws t = t" using skip_ws_value [of t "[]"] by simp
  have "jfuel v < 2 * length t + 2" using jfuel_bound [OF s] by simp
  then have "parse_value (2 * length t + 2) (t @ []) = Some (Inr (json_norm v, []))"
    using parses_all(1) [OF wf] s unfolding parses_def value_end_def by blast
  moreover have "skip_ws [] = []" by (simp add: skip_ws_def)
  ultimately show ?thesis by (simp add: json_parse_def ws del: parse_value.simps)
qed

section \<open>Objects of one member\<close>

lemma parse_value_nat_digits:
  assumes "round_nat m < json_int_limit" and "value_end r"
  shows "parse_value (Suc f) (nat_digits m @ r) = Some (Inr (JNumber (int (round_nat m)), r))"
  using parse_value_number [of "nat_digits m @ r" f] parse_nat_digits(1) [OF assms(2), of m] assms(1)
    nat_digits_nonempty [of m] hd_nat_digits_digit [of m]
  by simp

lemma parse_object_single:
  assumes v: "parse_value f (t @ 125 # r) = Some (Inr (w, 125 # r))"
    and t: "t \<noteq> []" "value_start (hd t)"
  shows "parse_value (Suc (Suc f)) (123 # quote_json_string k @ 58 # t @ 125 # r)
         = Some (Inr (JObject [(k, w)], r))"
proof -
  have "parse_members (Suc f) [] (quote_json_string k @ 58 # t @ 125 # r) = Some (Inr ([(k, w)], r))"
    using parse_members_step [OF v _ t, of "[]" k] by (simp add: is_json_ws_def del: parse_members.simps)
  moreover have "skip_ws (quote_json_string k @ 58 # t @ 125 # r) = quote_json_string k @ 58 # t @ 125 # r"
    by (simp add: quote_json_string_def skip_ws_def is_json_ws_def)
  ultimately show ?thesis by (simp add: quote_json_string_def del: parse_members.simps)
qed

end
