(* ===== verification/ConsumerBytes.thy ===== *)
theory ConsumerBytes
  imports TransactionConsumer JsonRoundTrip
begin

text \<open>
  What a receiver reads from the bytes the consumer sends. \<open>Buffer.from(JSON.stringify(v),
  'utf8')\<close> decodes as UTF-8 and parses back as \<open>JSON.parse\<close> to the JSON normal form
  of \<open>v\<close>; for \<open>broadcastTxRequest\<close> this means the transaction bytes parse to the
  typed data's message with \<open>msgs\<close> present and null (lines 131 and 141). Composed
  with the parser's round trip, typed data the server printed with \<open>JSON.stringify\<close>
  takes \<open>broadcastTxRequest\<close> through every step to the request. The last section
  follows an integer literal of the typed data through \<open>broadcastTxRequest\<close>: the
  parser rounds it to the nearest double (\<open>round_nat\<close>) and the transaction carries the
  shortest digits of that double (\<open>shortest_nat\<close>), not the literal.
\<close>

section \<open>Message bytes\<close>

lemma utf8_json_text:
  "wf_jsval v \<Longrightarrow> stringify v = Some s \<Longrightarrow>
   utf8_decode (utf8_encode s) = Some s \<and> json_parse s = Inr (json_norm v)"
  by (simp add: utf8_decode_encode to_well_formed_id stringify_well_formed json_parse_stringify)

text \<open>C19: The bytes Buffer.from(JSON.stringify(v), 'utf8') of a well-formed value decode
  as UTF-8 to a text that JSON.parse reads back as the JSON form of v.\<close>

theorem json_buffer_parses_back:
  assumes "wf_jsval v" and "json_buffer v = Inr b"
  shows "\<exists>s. utf8_decode b = Some s \<and> json_parse s = Inr (json_norm v)"
  using assms utf8_json_text [of v] by (auto simp: json_buffer_def split: option.splits)

section \<open>The transaction bytes of broadcastTxRequest\<close>

lemma broadcast_tx_message:
  assumes "build_broadcast_tx_request recover a = Inr r"
    and "json_parse (ptr_data (bc_tx_response a)) = Inr (JObject ps)"
    and "obj_get ps (js_str ''message'') = JObject qs"
  shows "json_buffer (JObject (obj_set qs (js_str ''msgs'') JNull)) = Inr (btx_tx r)
    \<and> wf_jsval (JObject (obj_set qs (js_str ''msgs'') JNull))"
proof -
  from assms(1) obtain d m where d: "json_parse (ptr_data (bc_tx_response a)) = Inr d"
    and m: "clear_msgs d = Inr m" and tx: "json_buffer m = Inr (btx_tx r)"
    by (auto simp: build_broadcast_tx_request_Inr)
  have mq: "m = JObject (obj_set qs (js_str ''msgs'') JNull)"
    using m d assms(2,3) by (auto simp: clear_msgs_def)
  have "wf_jsval m" using clear_msgs_wf [OF json_parse_wf [OF d] m] .
  with tx mq show ?thesis by simp
qed

text \<open>C20: The transaction bytes broadcastTxRequest sends decode and parse back to an object
  whose msgs member is null: the message is sent with msgs: null, not without msgs.\<close>

theorem broadcast_tx_parses_back:
  assumes "build_broadcast_tx_request recover a = Inr r"
    and "json_parse (ptr_data (bc_tx_response a)) = Inr (JObject ps)"
    and "obj_get ps (js_str ''message'') = JObject qs"
  shows "\<exists>s qs'. utf8_decode (btx_tx r) = Some s \<and> json_parse s = Inr (JObject qs')
           \<and> map_of qs' (js_str ''msgs'') = Some JNull"
proof -
  let ?m = "obj_set qs (js_str ''msgs'') JNull"
  have buf: "json_buffer (JObject ?m) = Inr (btx_tx r)" and wf: "wf_jsval (JObject ?m)"
    using broadcast_tx_message [OF assms] by simp_all
  from buf obtain s where "stringify (JObject ?m) = Some s" "btx_tx r = utf8_encode s"
    by (auto simp: json_buffer_def split: option.splits)
  with wf have s: "utf8_decode (btx_tx r) = Some s" "json_parse s = Inr (json_norm (JObject ?m))"
    using utf8_json_text [of "JObject ?m" s] by simp_all
  obtain qs' where "json_norm (JObject ?m) = JObject qs'" "map_of qs' (js_str ''msgs'') = Some JNull"
    using json_norm_member [of ?m "js_str ''msgs''" JNull] wf by (auto simp: map_of_obj_set)
  with s show ?thesis by auto
qed

section \<open>From the prepare response to the broadcast request\<close>

lemma json_buffer_defined: "v \<noteq> JUndefined \<Longrightarrow> \<exists>b. json_buffer v = Inr b"
  using stringify_None_iff [of v] by (cases "stringify v") (auto simp: json_buffer_def)

text \<open>C21: When the prepare response carries the JSON text of a well-formed typed-data object
  whose message is an object, the recovery succeeds on the data as parsed, and the caller's
  message is defined, broadcastTxRequest gets past every step of lines 124--145 and sends
  exactly one BroadcastTx request, carrying the recovered public key, and returns the
  transport's answer to it.\<close>

theorem broadcast_sends_on_printed_data:
  assumes wf: "wf_jsval (JObject ps)"
    and s: "stringify (JObject ps) = Some (ptr_data (bc_tx_response a))"
    and msg: "map_of ps (js_str ''message'') = Some (JObject qs)"
    and rec: "recover (json_norm (JObject ps)) (bc_signature a) = Inr pk"
    and defined: "bc_message a \<noteq> JUndefined"
  shows "\<exists>r. broadcastTxRequest t recover a log
              = (map_sum id to_object (grpc_rethrow (broadcast_tx t r)), log @ [BroadcastTxCall r])
           \<and> btx_pub_key r = Some (build_pub_key (ptr_pub_key_type (bc_tx_response a)) pk)"
proof -
  have parse: "json_parse (ptr_data (bc_tx_response a)) = Inr (json_norm (JObject ps))"
    using json_parse_stringify [OF wf s] .
  obtain ps' where n: "json_norm (JObject ps) = JObject ps'"
    and m: "map_of ps' (js_str ''message'') = Some (json_norm (JObject qs))"
    using json_norm_member [of ps "js_str ''message''" "JObject qs"] wf msg by auto
  obtain qs' where "json_norm (JObject qs) = JObject qs'" by simp
  with m have clear: "clear_msgs (JObject ps') = Inr (JObject (obj_set qs' (js_str ''msgs'') JNull))"
    by (simp add: clear_msgs_def obj_get_def)
  obtain tx where tx: "json_buffer (JObject (obj_set qs' (js_str ''msgs'') JNull)) = Inr tx"
    using json_buffer_defined by blast
  obtain mb where mb: "json_buffer (bc_message a) = Inr mb"
    using json_buffer_defined [OF defined] by blast
  obtain r where r: "build_broadcast_tx_request recover a = Inr r"
    and pk: "btx_pub_key r = Some (build_pub_key (ptr_pub_key_type (bc_tx_response a)) pk)"
    using parse n rec clear tx mb by (auto simp: build_broadcast_tx_request_Inr)
  show ?thesis using broadcastTxRequest_Inr [OF r] pk by blast
qed

section \<open>Integers beyond 2^53\<close>

lemma quote_key_texts:
  "quote_json_string (js_str ''message'') = js_str ''\"message\"''"
  "quote_json_string (js_str ''amount'') = js_str ''\"amount\"''"
  "quote_json_string (js_str ''msgs'') = js_str ''\"msgs\"''"
  by code_simp+

lemma typed_amount_text:
  "js_str ''{\"message\":{\"amount\":'' @ ds @ js_str ''}}''
   = 123 # quote_json_string (js_str ''message'') @ 58 #
       (123 # quote_json_string (js_str ''amount'') @ 58 # ds @ [125]) @ [125]"
  unfolding quote_key_texts by (simp add: js_str_Cons)

lemma cleared_amount_text:
  "stringify (JObject [(js_str ''amount'', JNumber x), (js_str ''msgs'', JNull)])
   = Some (js_str ''{\"amount\":'' @ number_text x @ js_str '',\"msgs\":null}'')"
proof -
  have "own_entries [(js_str ''amount'', Some (number_text x)), (js_str ''msgs'', Some null_text)]
        = [(js_str ''amount'', Some (number_text x)), (js_str ''msgs'', Some null_text)]"
    by (simp add: own_entries_def array_index_def js_str_Cons is_digit_def)
  then show ?thesis
    by (simp add: member_texts_def map_filter_def quote_key_texts null_text_def) (simp add: js_str_Cons)
qed

lemma json_parse_typed_amount:
  assumes "round_nat m < json_int_limit"
  shows "json_parse (js_str ''{\"message\":{\"amount\":'' @ nat_digits m @ js_str ''}}'')
         = Inr (JObject [(js_str ''message'', JObject [(js_str ''amount'', JNumber (int (round_nat m)))])])"
proof -
  let ?n = "JNumber (int (round_nat m))"
  let ?inner = "123 # quote_json_string (js_str ''amount'') @ 58 # nat_digits m @ [125]"
  let ?T = "123 # quote_json_string (js_str ''message'') @ 58 # ?inner @ [125]"
  have num: "parse_value (Suc f) (nat_digits m @ 125 # r) = Some (Inr (?n, 125 # r))" for f r
    using parse_value_nat_digits [OF assms] by (simp add: value_end_def)
  have inner: "parse_value (Suc (Suc (Suc f))) (?inner @ 125 # r)
               = Some (Inr (JObject [(js_str ''amount'', ?n)], 125 # r))" for f r
    using parse_object_single [where f = "Suc f" and t = "nat_digits m" and r = "125 # r"
        and k = "js_str ''amount''" and w = ?n, OF num nat_digits_nonempty]
      hd_nat_digits_digit [of m] by (simp add: value_start_def del: parse_value.simps)
  have outer: "parse_value (Suc (Suc (Suc (Suc (Suc f))))) (?T @ r)
               = Some (Inr (JObject [(js_str ''message'', JObject [(js_str ''amount'', ?n)])], r))" for f r
    using parse_object_single [where f = "Suc (Suc (Suc f))" and t = ?inner and r = r
        and k = "js_str ''message''" and w = "JObject [(js_str ''amount'', ?n)]", OF inner]
    by (simp add: value_start_def del: parse_value.simps)
  obtain f where f: "2 * length ?T + 2 = Suc (Suc (Suc (Suc (Suc f))))"
    by (rule that [of "2 * length ?T - 3"]) simp
  have "skip_ws ?T = ?T" by (simp add: skip_ws_def is_json_ws_def)
  moreover have "skip_ws [] = []" by (simp add: skip_ws_def)
  ultimately have "json_parse ?T = Inr (JObject [(js_str ''message'', JObject [(js_str ''amount'', ?n)])])"
    using outer [of f "[]"] f by (simp add: json_parse_def del: parse_value.simps)
  then show ?thesis by (simp only: typed_amount_text)
qed

text \<open>C22: An integer in the typed data reaches the transaction as the digits of its nearest
  double: for prepare-response data {"message":{"amount":m}} with m a decimal integer
  whose double is below 10^21, broadcastTxRequest recovers the key from the parsed data,
  in which m is already rounded to the nearest double, and sends the transaction
  {"amount":d,"msgs":null} where d are the shortest digits of that double. For m above
  2^53 the digits sent may differ from those the prepare response carried.\<close>

theorem broadcast_tx_rounds_integer:
  assumes "ptr_data (bc_tx_response a) = js_str ''{\"message\":{\"amount\":'' @ nat_digits m @ js_str ''}}''"
    and "round_nat m < json_int_limit"
    and "recover (JObject [(js_str ''message'', JObject [(js_str ''amount'', JNumber (int (round_nat m)))])])
           (bc_signature a) = Inr pk"
    and "bc_message a \<noteq> JUndefined"
  shows "\<exists>r. broadcastTxRequest t recover a log
             = (map_sum id to_object (grpc_rethrow (broadcast_tx t r)), log @ [BroadcastTxCall r])
         \<and> btx_tx r = utf8_encode (js_str ''{\"amount\":'' @ nat_digits (shortest_nat (round_nat m))
                                    @ js_str '',\"msgs\":null}'')"
proof -
  let ?n = "JNumber (int (round_nat m))"
  have parse: "json_parse (ptr_data (bc_tx_response a))
               = Inr (JObject [(js_str ''message'', JObject [(js_str ''amount'', ?n)])])"
    using json_parse_typed_amount [OF assms(2)] assms(1) by simp
  have clear: "clear_msgs (JObject [(js_str ''message'', JObject [(js_str ''amount'', ?n)])])
               = Inr (JObject [(js_str ''amount'', ?n), (js_str ''msgs'', JNull)])"
    by (simp add: clear_msgs_def obj_get_def js_str_Cons)
  have tx: "json_buffer (JObject [(js_str ''amount'', ?n), (js_str ''msgs'', JNull)])
            = Inr (utf8_encode (js_str ''{\"amount\":'' @ nat_digits (shortest_nat (round_nat m))
                                 @ js_str '',\"msgs\":null}''))"
    using json_buffer_Some [OF cleared_amount_text] by (simp add: number_text_def)
  obtain mb where mb: "json_buffer (bc_message a) = Inr mb"
    using json_buffer_defined [OF assms(4)] by blast
  obtain r where r: "build_broadcast_tx_request recover a = Inr r"
    and rt: "btx_tx r = utf8_encode (js_str ''{\"amount\":'' @ nat_digits (shortest_nat (round_nat m))
                                       @ js_str '',\"msgs\":null}'')"
    using parse assms(3) clear tx mb by (auto simp: build_broadcast_tx_request_Inr)
  show ?thesis using broadcastTxRequest_Inr [OF r] rt by blast
qed

end
