(* ===== verification/ConsumerSpec.thy ===== *)
theory ConsumerSpec
  imports ConsumerBytes
begin

text \<open>
  The abstract data model the consumer promises (the specification's FeeSpec and
  PrepareRequest): a fee of gas limit, denomination, price and delegation flag, and a
  prepare request of chain, signer, fee and the message bytes. \<open>prepare_spec\<close> is the
  request each prepare method must send, computed from the arguments and the defaults;
  \<open>abs_prepare_request\<close> reads a protobuf \<open>PrepareTxRequest\<close> as such a value. The
  refinement lemmas show that the methods send exactly the specified request, and send
  nothing when the message cannot be serialized. For broadcastTxRequest the specified
  BroadcastRequest is a record of values (\<open>broadcast_spec\<close>); \<open>abs_broadcast_request\<close>
  decodes and parses the protobuf request's byte fields back to values, and the
  refinement shows that the method sends a request reading back to the specified one or
  rejects with the specified error. The last section shows that the gas limit is sent as
  given, the specified bound \<open>gasLimit > 0\<close> being checked nowhere.
\<close>

section \<open>Abstract model\<close>

record fee_spec =
  fs_gas :: int
  fs_denom :: jstring
  fs_price :: jstring
  fs_delegated :: bool

record prepare_request_spec =
  pr_chain :: chain_id
  pr_signer :: jstring
  pr_fee :: fee_spec
  pr_message :: bytes

text \<open>
  The request specified for arguments \<open>a\<close>, default gas limit \<open>gas\<close> and delegation
  \<open>deleg\<close>; \<open>None\<close> when the message has no JSON text (\<open>undefined\<close>).
\<close>

definition prepare_spec ::
  "int \<Rightarrow> consumer_config \<Rightarrow> 'x prepare_tx_args_scheme \<Rightarrow> bool \<Rightarrow> prepare_request_spec option" where
  "prepare_spec gas cfg a deleg =
     map_option (\<lambda>s.
       \<lparr>pr_chain = chain_id a, pr_signer = address a,
        pr_fee = \<lparr>fs_gas = (case gas_limit a of None \<Rightarrow> gas | Some g \<Rightarrow> g),
                  fs_denom = (case fee_denom a of None \<Rightarrow> default_bridge_fee_denom cfg | Some d \<Rightarrow> d),
                  fs_price = (case fee_price a of None \<Rightarrow> default_bridge_fee_price cfg | Some p \<Rightarrow> p),
                  fs_delegated = deleg\<rparr>,
        pr_message = utf8_encode s\<rparr>)
       (stringify (message a))"

text \<open>A \<open>PrepareTxRequest\<close> read abstractly: a fee with one price coin and one message.\<close>

definition abs_prepare_request :: "prepare_tx_request \<Rightarrow> prepare_request_spec option" where
  "abs_prepare_request r =
     (case (ptx_fee r, ptx_msgs r) of
       (Some f, [m]) \<Rightarrow>
         (case txfee_price f of
           [c] \<Rightarrow> Some \<lparr>pr_chain = ptx_chain_id r, pr_signer = ptx_signer_address r,
                        pr_fee = \<lparr>fs_gas = txfee_gas f, fs_denom = coin_denom c,
                                  fs_price = coin_amount c, fs_delegated = txfee_delegate_fee f\<rparr>,
                        pr_message = m\<rparr>
         | _ \<Rightarrow> None)
     | _ \<Rightarrow> None)"

text \<open>
  A prepare method refines the specification when it sends nothing if the specification
  gives no request, and otherwise sends one request, read abstractly as the specified
  one, and returns the transport's answer to it.
\<close>

definition refines_prepare ::
  "prepare_request_spec option \<Rightarrow> transport \<Rightarrow> call_log
   \<Rightarrow> (js_error + prepare_tx_response) \<times> call_log \<Rightarrow> bool" where
  "refines_prepare p t log res =
     (case p of
       None \<Rightarrow> snd res = log
     | Some q \<Rightarrow> (\<exists>r. res = (grpc_rethrow (prepare_tx t r), log @ [PrepareTxCall r])
                      \<and> abs_prepare_request r = Some q))"

text \<open>
  The specified BroadcastRequest, in values: mode \<open>block\<close>, the chain, the public key (type
  from the prepare response, key recovered from the typed data), the signature, the
  transaction as the JSON value of the typed data's message with \<open>msgs\<close> null, the fee
  payer and its signature, and the caller's message. Values are compared in JSON normal
  form, the form a receiver parses them back to.
\<close>

record broadcast_request_spec =
  br_mode :: jstring
  br_chain :: chain_id
  br_pub_key_type :: jstring
  br_pub_key :: jstring
  br_signature :: jstring
  br_tx :: jsval
  br_fee_payer :: jstring
  br_fee_payer_sig :: jstring
  br_msg :: jsval

text \<open>
  The request specified for broadcast arguments \<open>a\<close>, or the error the specification
  says is thrown: the typed data does not parse, the key cannot be recovered, the typed
  data has no \<open>message\<close> that can take a property, or the caller's message is undefined.
\<close>

definition broadcast_spec ::
  "recover_pub_key \<Rightarrow> broadcast_tx_args \<Rightarrow> js_error + broadcast_request_spec" where
  "broadcast_spec recover a =
     sum_bind (json_parse (ptr_data (bc_tx_response a))) (\<lambda>d.
     sum_bind (map_sum ExternalError id (recover d (bc_signature a))) (\<lambda>pk.
     sum_bind (get_prop d (js_str ''message'')) (\<lambda>m.
     sum_bind (set_named_prop m (js_str ''msgs'') JNull) (\<lambda>tx.
       if bc_message a = JUndefined then Inl (TypeError BufferFromUndefined)
       else Inr \<lparr>br_mode = js_str ''block'', br_chain = bc_chain_id a,
                 br_pub_key_type = ptr_pub_key_type (bc_tx_response a), br_pub_key = pk,
                 br_signature = bc_signature a, br_tx = json_norm tx,
                 br_fee_payer = ptr_fee_payer (bc_tx_response a),
                 br_fee_payer_sig = ptr_fee_payer_sig (bc_tx_response a),
                 br_msg = json_norm (bc_message a)\<rparr>))))"

text \<open>A \<open>BroadcastTxRequest\<close> read abstractly: its byte fields decoded and parsed as JSON.\<close>

definition abs_broadcast_request :: "broadcast_tx_request \<Rightarrow> broadcast_request_spec option" where
  "abs_broadcast_request r =
     (case (btx_pub_key r, btx_msgs r) of
       (Some pk, [mb]) \<Rightarrow>
         (case (utf8_decode (btx_tx r), utf8_decode mb) of
           (Some s, Some u) \<Rightarrow>
             (case (json_parse s, json_parse u) of
               (Inr tx, Inr mv) \<Rightarrow>
                 Some \<lparr>br_mode = btx_mode r, br_chain = btx_chain_id r,
                       br_pub_key_type = pk_type pk, br_pub_key = pk_key pk,
                       br_signature = btx_signature r, br_tx = tx,
                       br_fee_payer = btx_fee_payer r, br_fee_payer_sig = btx_fee_payer_sig r,
                       br_msg = mv\<rparr>
             | _ \<Rightarrow> None)
         | _ \<Rightarrow> None)
     | _ \<Rightarrow> None)"

definition refines_broadcast ::
  "js_error + broadcast_request_spec \<Rightarrow> transport \<Rightarrow> call_log
   \<Rightarrow> (js_error + broadcast_tx_response_object) \<times> call_log \<Rightarrow> bool" where
  "refines_broadcast p t log res =
     (case p of
       Inl e \<Rightarrow> res = (Inl e, log)
     | Inr q \<Rightarrow> (\<exists>r. res = (map_sum id to_object (grpc_rethrow (broadcast_tx t r)), log @ [BroadcastTxCall r])
                      \<and> abs_broadcast_request r = Some q))"

section \<open>Refinement\<close>

text \<open>C17: prepareTxRequest refines the specification: for every argument object it sends
  exactly the specified PrepareRequest (given or default gas limit, denomination and price,
  no delegation, the UTF-8 JSON of the message) and returns the transport's answer, or
  sends nothing when the message has no JSON text.\<close>

theorem prepareTxRequest_refines:
  "refines_prepare (prepare_spec (default_gas_limit cfg) cfg a False) t log (prepareTxRequest cfg t a log)"
proof (cases "stringify (message a)")
  case None
  then show ?thesis
    by (simp add: refines_prepare_def prepare_spec_def prepareTxRequest_def Let_def
        stringify_None_iff build_prepare_tx_request_undefined)
next
  case (Some s)
  then show ?thesis
    by (auto simp: refines_prepare_def prepare_spec_def prepareTxRequest_def Let_def
        build_prepare_tx_request_Some abs_prepare_request_def arg_or_default_def
        split: option.splits)
qed

text \<open>C18: prepareExchangeTxRequest refines the specification with the exchange default gas
  limit and the delegation flag set exactly when delegatedFee is true.\<close>

theorem prepareExchangeTxRequest_refines:
  "refines_prepare (prepare_spec (default_exchange_limit cfg) cfg a (delegated_fee a = Some True))
     t log (prepareExchangeTxRequest cfg t a log)"
proof (cases "stringify (message a)")
  case None
  then show ?thesis
    by (simp add: refines_prepare_def prepare_spec_def prepareExchangeTxRequest_def Let_def
        stringify_None_iff build_prepare_tx_request_undefined)
next
  case (Some s)
  then show ?thesis
    by (auto simp: refines_prepare_def prepare_spec_def prepareExchangeTxRequest_eq Let_def
        abs_prepare_request_def arg_or_default_def delegate_fee_if_def split: option.splits)
qed

section \<open>Refinement of broadcastTxRequest\<close>

lemma set_named_prop_defined: "set_named_prop m k x = Inr m' \<Longrightarrow> m' \<noteq> JUndefined"
  by (cases m) auto

lemma broadcast_spec_errors:
  "build_broadcast_tx_request recover a = Inl e \<longleftrightarrow> broadcast_spec recover a = Inl e"
  by (auto simp: broadcast_spec_def build_broadcast_tx_request_def Let_def clear_msgs_def json_buffer_def
      sum_bind_eq_Inl sum_bind_eq_Inr stringify_None_iff dest: set_named_prop_defined split: option.splits)

lemma broadcast_spec_success:
  assumes r: "build_broadcast_tx_request recover a = Inr r" and wf: "wf_jsval (bc_message a)"
  shows "\<exists>q. broadcast_spec recover a = Inr q \<and> abs_broadcast_request r = Some q"
proof -
  from r obtain d pk m tx msg where d: "json_parse (ptr_data (bc_tx_response a)) = Inr d"
    and pk: "recover d (bc_signature a) = Inr pk" and m: "clear_msgs d = Inr m"
    and tx: "json_buffer m = Inr tx" and msg: "json_buffer (bc_message a) = Inr msg"
    and req: "r = \<lparr>btx_mode = js_str ''block'', btx_chain_id = bc_chain_id a,
               btx_pub_key = Some (build_pub_key (ptr_pub_key_type (bc_tx_response a)) pk),
               btx_signature = bc_signature a, btx_tx = tx,
               btx_fee_payer = ptr_fee_payer (bc_tx_response a),
               btx_fee_payer_sig = ptr_fee_payer_sig (bc_tx_response a), btx_msgs = [msg]\<rparr>"
    by (auto simp: build_broadcast_tx_request_Inr)
  from m obtain x where x: "get_prop d (js_str ''message'') = Inr x"
    and set: "set_named_prop x (js_str ''msgs'') JNull = Inr m"
    by (auto simp: clear_msgs_def sum_bind_eq_Inr)
  have wfm: "wf_jsval m" using clear_msgs_wf [OF json_parse_wf [OF d] m] .
  from tx obtain s where s: "stringify m = Some s" "tx = utf8_encode s"
    by (auto simp: json_buffer_def split: option.splits)
  from msg obtain u where u: "stringify (bc_message a) = Some u" "msg = utf8_encode u"
    by (auto simp: json_buffer_def split: option.splits)
  then have def: "bc_message a \<noteq> JUndefined" by auto
  have ts: "utf8_decode tx = Some s \<and> json_parse s = Inr (json_norm m)"
    using utf8_json_text [OF wfm s(1)] s(2) by simp
  have tu: "utf8_decode msg = Some u \<and> json_parse u = Inr (json_norm (bc_message a))"
    using utf8_json_text [OF wf u(1)] u(2) by simp
  show ?thesis
    using d pk x set def ts tu req
    by (simp add: broadcast_spec_def abs_broadcast_request_def build_pub_key_def new_cosmos_pub_key_def)
qed

text \<open>C23: broadcastTxRequest refines the specification: it rejects with exactly the error
  the specification gives, sending nothing, or it sends one BroadcastTx request whose
  fields are the specified ones -- its transaction and message bytes decoding and parsing
  to the specified values -- and returns the transport's answer as toObject().\<close>

theorem broadcastTxRequest_refines:
  assumes "wf_jsval (bc_message a)"
  shows "refines_broadcast (broadcast_spec recover a) t log (broadcastTxRequest t recover a log)"
proof (cases "build_broadcast_tx_request recover a")
  case (Inl e)
  then show ?thesis
    using broadcast_spec_errors [of recover a e]
    by (simp add: refines_broadcast_def broadcastTxRequest_Inl)
next
  case (Inr r)
  then obtain q where "broadcast_spec recover a = Inr q" and "abs_broadcast_request r = Some q"
    using broadcast_spec_success [OF Inr assms] by blast
  with Inr show ?thesis by (auto simp: refines_broadcast_def broadcastTxRequest_Inr)
qed

section \<open>The gas limit is passed through\<close>

text \<open>C24: neither prepare method enforces the specified invariant gasLimit > 0: the fee
  each sends carries the gasLimit argument as given, so a zero or negative gas limit
  reaches the transport in the PrepareTx request.\<close>

theorem prepare_gas_unchecked:
  assumes "gas_limit a = Some g" and "gas_limit b = Some g"
    and "stringify (message a) = Some s" and "stringify (message b) = Some s'"
  shows "(\<exists>req fee. snd (prepareTxRequest cfg t a log) = log @ [PrepareTxCall req]
            \<and> ptx_fee req = Some fee \<and> txfee_gas fee = g)
       \<and> (\<exists>req fee. snd (prepareExchangeTxRequest cfg t b log) = log @ [PrepareTxCall req]
            \<and> ptx_fee req = Some fee \<and> txfee_gas fee = g)"
  using assms by (simp add: prepareTxRequest_def prepareExchangeTxRequest_eq Let_def
      build_prepare_tx_request_Some arg_or_default_def)

end
