(* ===== verification/Spec2Isabelle.thy ===== *)
theory Spec2Isabelle
  imports ConsumerSpec ConsumerBytes
begin

text \<open>
  \<^bold>\<open>A verification model of the exchange transaction consumer.\<close>

  The program is \<open>src/packages/exchange-consumer/src/consumers/TransactionConsumer.ts\<close>,
  the class \<open>TransactionConsumer\<close> with three async methods:

  \<^item> \<open>prepareTxRequest\<close> (lines 23--63) builds a \<open>PrepareTxRequest\<close> (chain id, signer,
    a \<open>CosmosTxFee\<close> of one \<open>Coin\<close> with the fee denomination and price and the gas
    limit, and one message: the UTF-8 bytes of \<open>JSON.stringify(message)\<close>), sends it to
    \<open>InjectiveExchangeRPC.PrepareTx\<close> and rethrows a transport failure as
    \<open>GrpcException(e.message)\<close>;
  \<^item> \<open>prepareExchangeTxRequest\<close> (lines 65--111) does the same with the exchange
    default gas limit, and sets the fee's delegate flag when \<open>delegatedFee\<close> is truthy;
  \<^item> \<open>broadcastTxRequest\<close> (lines 113--158) parses the typed data the prepare response
    carries, recovers the signer's public key from it, sets \<open>message.msgs\<close> to
    \<open>null\<close>, builds a \<open>BroadcastTxRequest\<close> in mode \<open>'block'\<close> whose transaction is the
    UTF-8 JSON of the typed data's \<open>message\<close> and whose message list is the UTF-8 JSON
    of the caller's \<open>message\<close>, sends it to \<open>InjectiveExchangeRPC.BroadcastTx\<close> and
    returns \<open>response.toObject()\<close>, again rethrowing a transport failure.

  The methods call the JavaScript runtime (\<open>JSON.stringify\<close>, \<open>JSON.parse\<close>,
  \<open>Buffer.from(s, 'utf8')\<close>, property access and assignment), the generated protobuf
  classes, and \<open>BaseConsumer.request\<close>; these are not under \<open>src/\<close> and are modelled
  from their specifications (ECMAScript, Node, proto3), as the theories below say.

  \<^bold>\<open>Theories.\<close>

  \<^item> \<open>Prelude\<close>: UTF-16 code units (\<open>u16 = 16 word\<close>), bytes (\<open>8 word\<close>), \<open>js_str\<close> for
    the source's ASCII literals, surrogate tests, the exception monad \<open>sum_bind\<close> over
    \<open>'e + 'a\<close> (\<open>Inl\<close> a thrown error), the collection \<open>js_simps\<close> and shared lemmas.
  \<^item> \<open>JsNumber\<close>: JavaScript numbers that are integers, as doubles. \<open>round_nat\<close> is the
    Number value for an integer literal (nearest double, 53 significant bits, ties to
    even); \<open>shortest_nat\<close> is \<open>Number::toString\<close>'s choice of the fewest significant
    digits that round back; \<open>js_int\<close> are the integer doubles below \<open>10^21\<close> (printed
    without an exponent). Rounding is exact up to \<open>2^53\<close>, idempotent and off by at
    most half a unit in the last place; the shortest digits round back to the double, and
    a safe integer prints as its own digits.
  \<^item> \<open>JsValue\<close>: \<open>js_error\<close> (the errors the methods can throw), \<open>jsval\<close> (JSON values;
    an object is its list of own properties in creation order), the own-key order
    \<open>own_entries\<close>, \<open>obj_set\<close>/\<open>obj_get\<close>, the strict-mode read \<open>get_prop\<close> and write
    \<open>set_named_prop\<close> used at line 131, and the invariant \<open>wf_jsval\<close>.
  \<^item> \<open>JsonStringify\<close>: \<open>stringify\<close>, \<open>JSON.stringify\<close> on \<open>jsval\<close> (well-formed
    \<open>QuoteJSONString\<close>, own-key order, \<open>undefined\<close> members skipped and elements
    written \<open>null\<close>; \<open>None\<close> is the \<open>undefined\<close> result of \<open>JSON.stringify(undefined)\<close>).
  \<^item> \<open>JsonParse\<close>: \<open>json_parse\<close>, \<open>JSON.parse\<close> as recursive descent with fuel. The fuel
    \<open>2 * length s + 2\<close> is enough: every step consumes input and a nested value starts at
    least two characters further in, so \<open>json_parse_fuel_enough\<close> shows the out-of-fuel
    branch is never taken. \<open>json_parse_wf\<close>: every parsed value is well formed.
  \<^item> \<open>Utf8\<close>: \<open>utf8_encode\<close>, \<open>Buffer.from(s, 'utf8')\<close> (lone surrogates become
    \<open>U+FFFD\<close>), and a strict decoder \<open>utf8_decode\<close> used as its specification, with the
    round trip \<open>utf8_decode_encode\<close>.
  \<^item> \<open>JsonBytes\<close>: the text \<open>JSON.stringify\<close> produces is well-formed UTF-16
    (\<open>stringify_well_formed\<close>), so its UTF-8 bytes replace nothing.
  \<^item> \<open>JsonRoundTrip\<close>: \<open>JSON.parse\<close> inverts \<open>JSON.stringify\<close>: for a well-formed
    value the parser reads the printed text back as its JSON normal form \<open>json_norm\<close>
    (\<open>undefined\<close> elements as \<open>null\<close>, \<open>undefined\<close> members dropped, own-key order),
    \<open>json_parse_stringify\<close>. The fuel the parser needs on printed text is bounded by
    \<open>jfuel\<close>, and \<open>jfuel_bound\<close> shows \<open>2 * length s + 2\<close> always covers it.
  \<^item> \<open>Base64\<close>: the encoding \<open>toObject()\<close> uses for \<open>bytes\<close> fields.
  \<^item> \<open>Messages\<close>: the protobuf records (\<open>PrepareTxRequest\<close>, \<open>CosmosTxFee\<close>,
    \<open>Coin\<close>, \<open>BroadcastTxRequest\<close>, \<open>CosmosPubKey\<close>, the responses), each starting from
    the proto3 defaults, and \<open>to_object\<close>, \<open>toObject()\<close> with \<open>bytes\<close> as Base64.
  \<^item> \<open>Transport\<close>: the interface \<open>transport\<close>, any pair of endpoints that answer or
    reject, and the \<open>call_log\<close> of requests handed to it (the state the consumer changes).
  \<^item> \<open>TransactionConsumer\<close>: the three methods as \<open>prepareTxRequest\<close>,
    \<open>prepareExchangeTxRequest\<close> and \<open>broadcastTxRequest\<close>, each a function of a
    configuration (the four default constants), a transport, the argument object and the
    call log, returning the method's result (\<open>Inl\<close> the rejection) and the new log. The
    statements of each body are separate definitions in source order (\<open>build_tx_fee\<close>,
    \<open>build_prepare_tx_request\<close>, \<open>send_prepare_tx\<close>, \<open>clear_msgs\<close>, \<open>build_pub_key\<close>,
    \<open>build_broadcast_tx_request\<close>, \<open>grpc_rethrow\<close>). A destructuring default is
    \<open>arg_or_default\<close>; \<open>recoverTypedSignaturePubKey\<close> is a parameter \<open>recover\<close> that
    may fail. \<open>consumer_step\<close> is one call of any of the three methods.
  \<^item> \<open>ConsumerSpec\<close>: the specification's data model of a prepare request (chain,
    signer, fee of gas, denomination, price and delegation, message bytes) as records,
    \<open>prepare_spec\<close> (the request specified for given arguments and defaults), the
    abstraction \<open>abs_prepare_request\<close> of a protobuf \<open>PrepareTxRequest\<close>, and the
    refinement relation \<open>refines_prepare\<close> between a specified request and a method run;
    likewise the specified BroadcastRequest (\<open>broadcast_spec\<close>: mode, chain, key,
    signature, the transaction and message as JSON values, fee payer and signature), the
    abstraction \<open>abs_broadcast_request\<close>, which decodes and parses the request's byte
    fields, and \<open>refines_broadcast\<close>.
  \<^item> \<open>ConsumerBytes\<close>: what a receiver reads from the bytes sent: they decode as UTF-8
    and parse back to the JSON normal form of the value serialized; the progress of
    \<open>broadcastTxRequest\<close> on typed data printed by \<open>JSON.stringify\<close>; and what it
    sends for typed data holding an integer literal.

  \<^bold>\<open>What is proved.\<close>
  The functional behaviour of each method on every branch: the request built (defaults,
  fee, delegate flag, mode, messages, the transaction with \<open>msgs\<close> kept as \<open>null\<close>), the
  result on success, and each error path (transport failure as \<open>GrpcException\<close>,
  recovery failure and \<open>undefined\<close> message passed on unwrapped, with no request sent;
  line 131 succeeds exactly on an object whose \<open>message\<close> is an object or an array).
  Every call sends at most one request, to its own remote method. For the bytes the
  methods send (\<open>json_buffer\<close>, lines 50, 98, 139, 144): decoding them gives back the
  JSON text exactly, and \<open>JSON.parse\<close> of that text is the JSON normal form of the value
  serialized; the transaction of \<open>broadcastTxRequest\<close> parses to an object whose
  \<open>msgs\<close> is present and \<open>null\<close>. Progress: typed data the server printed as JSON, with a
  message object, a successful key recovery and a defined message, always takes
  \<open>broadcastTxRequest\<close> to its one request. Numbers: an integer literal of the typed
  data is read as its nearest double, key recovery sees that double, and the transaction
  carries its shortest digits, so \<open>9007199254740993\<close> is sent as \<open>9007199254740992\<close>.
  Equivalence: without delegation \<open>prepareExchangeTxRequest\<close> is \<open>prepareTxRequest\<close>
  with the exchange default gas limit. Refinement: both prepare methods send exactly the
  request \<open>prepare_spec\<close> specifies, read through \<open>abs_prepare_request\<close>, or nothing;
  \<open>broadcastTxRequest\<close> rejects with exactly the error \<open>broadcast_spec\<close> gives, sending
  nothing, or sends one request whose fields, its bytes decoded and parsed, are the
  specified ones. \<open>broadcast_spec\<close> is the contract the code keeps, with the transaction
  being the message with \<open>msgs\<close> null (\<open>ex_broadcast_spec\<close> computes it on the example);
  the specification's text says \<open>msgs\<close> is removed, a divergence the findings record.
  Bounds the code does not enforce: the gas limit of either prepare method is sent as
  given, zero and negative values included. Termination of the parser is its fuel bound
  (\<open>json_parse_fuel_enough\<close>); the serializer, the encoders and the decoders are total
  functions with structural or measured recursion. The root theory runs the methods on
  the specification's example inputs, and each claim with hypotheses is applied there
  (the \<open>_witness\<close> theorems).

  \<^bold>\<open>Not modelled.\<close> Concurrency of calls: the class keeps no state, each method
  reads only its arguments and the transport's answer and writes only its own request,
  so concurrent calls interact only through the server, which is outside this
  repository; an interleaving model of the awaits would prove only facts that hold for
  any method bodies, and the calls are modelled one at a time. Timing and cancellation
  of requests (an answer is the transport's function of the request); the network
  behind \<open>BaseConsumer.request\<close>;
  the cryptography of \<open>recoverTypedSignaturePubKey\<close>; JSON numbers with a fraction or an
  exponent and integers whose double reaches \<open>10^21\<close> (\<open>UnmodelledNumber\<close>: their
  \<open>Number::toString\<close> uses exponent notation); the protobuf wire encoding; the values of the four
  default constants (an input \<open>consumer_config\<close>).
\<close>

section \<open>The specification's example\<close>

definition ex_config :: consumer_config where
  "ex_config =
     \<lparr>default_gas_limit = 400000, default_exchange_limit = 200000,
      default_bridge_fee_denom = js_str ''inj'', default_bridge_fee_price = js_str ''500000000''\<rparr>"

definition ex_message :: jsval where
  "ex_message =
     JObject [(js_str ''type'', JString (js_str ''order'')), (js_str ''amount'', JString (js_str ''100''))]"

definition ex_prepare_args :: prepare_tx_args where
  "ex_prepare_args =
     \<lparr>address = js_str ''inj1abc'', chain_id = 888, message = ex_message,
      gas_limit = None, fee_denom = None, fee_price = None\<rparr>"

definition ex_exchange_args :: prepare_exchange_tx_args where
  "ex_exchange_args =
     \<lparr>address = js_str ''inj1abc'', chain_id = 888, message = ex_message,
      gas_limit = None, fee_denom = None, fee_price = None, delegated_fee = Some True\<rparr>"

definition ex_undefined_args :: prepare_tx_args where
  "ex_undefined_args = ex_prepare_args\<lparr>message := JUndefined\<rparr>"

definition ex_prepare_request :: prepare_tx_request where
  "ex_prepare_request =
     \<lparr>ptx_chain_id = 888, ptx_signer_address = js_str ''inj1abc'',
      ptx_fee = Some \<lparr>txfee_price = [\<lparr>coin_denom = js_str ''inj'', coin_amount = js_str ''500000000''\<rparr>],
                      txfee_gas = 400000, txfee_delegate_fee = False\<rparr>,
      ptx_msgs = [utf8_encode (js_str ''{\"type\":\"order\",\"amount\":\"100\"}'')]\<rparr>"

definition ex_prepare_response :: prepare_tx_response where
  "ex_prepare_response =
     \<lparr>ptr_data = js_str ''{\"message\":{\"msgs\":[1],\"other\":\"x\"}}'',
      ptr_pub_key_type = js_str ''ethsecp256k1'', ptr_fee_payer = js_str ''inj1payer'',
      ptr_fee_payer_sig = js_str ''0xfeed''\<rparr>"

definition ex_broadcast_response :: broadcast_tx_response where
  "ex_broadcast_response =
     \<lparr>brs_tx_hash = js_str ''0xabc'', brs_height = 7, brs_index = 0, brs_codespace = [],
      brs_code = 0, brs_data = [1, 2, 3], brs_raw_log = [], brs_timestamp = []\<rparr>"

definition ex_transport :: transport where
  "ex_transport = \<lparr>prepare_tx = (\<lambda>r. Inr ex_prepare_response),
                   broadcast_tx = (\<lambda>r. Inr ex_broadcast_response)\<rparr>"

definition failing_transport :: transport where
  "failing_transport = \<lparr>prepare_tx = (\<lambda>r. Inl (Some (js_str ''unavailable''))),
                        broadcast_tx = (\<lambda>r. Inl (Some (js_str ''unavailable'')))\<rparr>"

definition ex_recover :: recover_pub_key where
  "ex_recover d s = Inr (js_str ''02ab'')"

definition failing_recover :: recover_pub_key where
  "failing_recover d s = Inl (js_str ''invalid signature'')"

definition ex_broadcast_args :: broadcast_tx_args where
  "ex_broadcast_args =
     \<lparr>bc_signature = js_str ''0x1234'', bc_chain_id = 888, bc_message = ex_message,
      bc_tx_response = ex_prepare_response\<rparr>"

definition ex_broadcast_request :: broadcast_tx_request where
  "ex_broadcast_request =
     \<lparr>btx_mode = js_str ''block'', btx_chain_id = 888,
      btx_pub_key = Some \<lparr>pk_type = js_str ''ethsecp256k1'', pk_key = js_str ''02ab''\<rparr>,
      btx_signature = js_str ''0x1234'',
      btx_tx = utf8_encode (js_str ''{\"msgs\":null,\"other\":\"x\"}''),
      btx_fee_payer = js_str ''inj1payer'', btx_fee_payer_sig = js_str ''0xfeed'',
      btx_msgs = [utf8_encode (js_str ''{\"type\":\"order\",\"amount\":\"100\"}'')]\<rparr>"

definition ex_inner :: "(jstring \<times> jsval) list" where
  "ex_inner = [(js_str ''msgs'', JArray [JNumber 1]), (js_str ''other'', JString (js_str ''x''))]"

definition ex_typed_data :: jsval where
  "ex_typed_data = JObject [(js_str ''message'', JObject ex_inner)]"

definition ex_cleared :: jsval where
  "ex_cleared = JObject [(js_str ''msgs'', JNull), (js_str ''other'', JString (js_str ''x''))]"

text \<open>A prepare response whose typed data carries the integer \<open>2^53 + 1\<close>, which no double holds.\<close>

definition ex_big_args :: broadcast_tx_args where
  "ex_big_args = ex_broadcast_args\<lparr>bc_tx_response := ex_prepare_response\<lparr>ptr_data :=
     js_str ''{\"message\":{\"amount\":'' @ nat_digits 9007199254740993 @ js_str ''}}''\<rparr>\<rparr>"

text \<open>A recovery that answers only for the typed data exactly as the prepare response holds it.\<close>

definition strict_recover :: recover_pub_key where
  "strict_recover d s = (if d = ex_typed_data then Inr (js_str ''02ab'') else Inl (js_str ''wrong data''))"

section \<open>Evaluation of the example\<close>

lemma ex_prepare_response_fields:
  "ptr_data ex_prepare_response = js_str ''{\"message\":{\"msgs\":[1],\"other\":\"x\"}}''"
  "ptr_pub_key_type ex_prepare_response = js_str ''ethsecp256k1''"
  "ptr_fee_payer ex_prepare_response = js_str ''inj1payer''"
  "ptr_fee_payer_sig ex_prepare_response = js_str ''0xfeed''"
  by (simp_all add: ex_prepare_response_def)

lemma ex_parse:
  "json_parse (js_str ''{\"message\":{\"msgs\":[1],\"other\":\"x\"}}'') = Inr ex_typed_data"
  unfolding ex_typed_data_def ex_inner_def by code_simp

lemma ex_clear: "clear_msgs ex_typed_data = Inr ex_cleared"
  unfolding ex_typed_data_def ex_inner_def ex_cleared_def by code_simp

lemma ex_tx_text: "stringify ex_cleared = Some (js_str ''{\"msgs\":null,\"other\":\"x\"}'')"
  unfolding ex_cleared_def by code_simp

lemma ex_message_text:
  "stringify ex_message = Some (js_str ''{\"type\":\"order\",\"amount\":\"100\"}'')"
  unfolding ex_message_def by code_simp

lemma ex_typed_data_text:
  "stringify ex_typed_data = Some (js_str ''{\"message\":{\"msgs\":[1],\"other\":\"x\"}}'')"
  unfolding ex_typed_data_def ex_inner_def by code_simp

lemma ex_typed_data_wf: "wf_jsval ex_typed_data"
  unfolding ex_typed_data_def ex_inner_def by code_simp

lemma ex_message_wf: "wf_jsval ex_message"
  unfolding ex_message_def by code_simp

lemma ex_broadcast_spec:
  "broadcast_spec ex_recover ex_broadcast_args =
     Inr \<lparr>br_mode = js_str ''block'', br_chain = 888, br_pub_key_type = js_str ''ethsecp256k1'',
          br_pub_key = js_str ''02ab'', br_signature = js_str ''0x1234'', br_tx = ex_cleared,
          br_fee_payer = js_str ''inj1payer'', br_fee_payer_sig = js_str ''0xfeed'', br_msg = ex_message\<rparr>"
  by code_simp

lemma ex_build_broadcast:
  "build_broadcast_tx_request ex_recover ex_broadcast_args = Inr ex_broadcast_request"
  by (simp add: build_broadcast_tx_request_def Let_def ex_broadcast_args_def ex_prepare_response_fields
      ex_parse ex_clear json_buffer_Some [OF ex_tx_text] json_buffer_Some [OF ex_message_text]
      ex_recover_def ex_broadcast_request_def new_broadcast_tx_request_def build_pub_key_def
      new_cosmos_pub_key_def)

lemma ex_prepare_call:
  "prepareTxRequest ex_config t ex_prepare_args log =
     (grpc_rethrow (prepare_tx t ex_prepare_request), log @ [PrepareTxCall ex_prepare_request])"
  by (simp add: prepareTxRequest_def Let_def ex_prepare_args_def ex_config_def ex_prepare_request_def
      build_prepare_tx_request_Some [OF ex_message_text] arg_or_default_def build_tx_fee_def
      new_coin_def new_cosmos_tx_fee_def)

section \<open>The properties at the example\<close>

theorem prepareTxRequest_defaults_witness:
  "gas_limit ex_prepare_args = None \<and> fee_denom ex_prepare_args = None \<and> fee_price ex_prepare_args = None
   \<and> stringify (message ex_prepare_args) = Some (js_str ''{\"type\":\"order\",\"amount\":\"100\"}'')
   \<and> (\<exists>req. prepareTxRequest ex_config ex_transport ex_prepare_args [] =
           (grpc_rethrow (prepare_tx ex_transport req), [PrepareTxCall req])
        \<and> ptx_fee req = Some \<lparr>txfee_price = [\<lparr>coin_denom = js_str ''inj'', coin_amount = js_str ''500000000''\<rparr>],
                              txfee_gas = 400000, txfee_delegate_fee = False\<rparr>
        \<and> ptx_msgs req = [utf8_encode (js_str ''{\"type\":\"order\",\"amount\":\"100\"}'')])"
  using prepareTxRequest_defaults [of ex_prepare_args "js_str ''{\"type\":\"order\",\"amount\":\"100\"}''"
      ex_config ex_transport "[]"]
  by (simp add: ex_prepare_args_def ex_message_text ex_config_def)

theorem prepareExchangeTxRequest_default_gas_witness:
  "gas_limit ex_exchange_args = None
   \<and> stringify (message ex_exchange_args) = Some (js_str ''{\"type\":\"order\",\"amount\":\"100\"}'')
   \<and> (\<exists>req fee. snd (prepareExchangeTxRequest ex_config ex_transport ex_exchange_args []) = [PrepareTxCall req]
        \<and> ptx_fee req = Some fee \<and> txfee_gas fee = 200000)"
  using prepareExchangeTxRequest_default_gas [of ex_exchange_args "js_str ''{\"type\":\"order\",\"amount\":\"100\"}''"
      ex_config ex_transport "[]"]
  by (simp add: ex_exchange_args_def ex_message_text ex_config_def)

theorem prepareExchangeTxRequest_delegated_fee_witness:
  "stringify (message ex_exchange_args) = Some (js_str ''{\"type\":\"order\",\"amount\":\"100\"}'')
   \<and> (\<exists>req fee. snd (prepareExchangeTxRequest ex_config ex_transport ex_exchange_args []) = [PrepareTxCall req]
        \<and> ptx_fee req = Some fee \<and> txfee_delegate_fee fee)"
  using prepareExchangeTxRequest_delegated_fee [of ex_exchange_args "js_str ''{\"type\":\"order\",\"amount\":\"100\"}''"
      ex_config ex_transport "[]"]
  by (simp add: ex_exchange_args_def ex_message_text)

theorem broadcast_mode_block_witness:
  "build_broadcast_tx_request ex_recover ex_broadcast_args = Inr ex_broadcast_request
   \<and> btx_mode ex_broadcast_request = js_str ''block''"
  using broadcast_mode_block [OF ex_build_broadcast] ex_build_broadcast by simp

theorem broadcast_tx_keeps_null_msgs_witness:
  "build_broadcast_tx_request ex_recover ex_broadcast_args = Inr ex_broadcast_request
   \<and> json_parse (ptr_data (bc_tx_response ex_broadcast_args)) = Inr (JObject [(js_str ''message'', JObject ex_inner)])
   \<and> obj_get [(js_str ''message'', JObject ex_inner)] (js_str ''message'') = JObject ex_inner
   \<and> (\<exists>s. stringify (JObject (obj_set ex_inner (js_str ''msgs'') JNull)) = Some s
        \<and> btx_tx ex_broadcast_request = utf8_encode s
        \<and> map_of (obj_set ex_inner (js_str ''msgs'') JNull) (js_str ''msgs'') = Some JNull)"
proof -
  have parse: "json_parse (ptr_data (bc_tx_response ex_broadcast_args))
      = Inr (JObject [(js_str ''message'', JObject ex_inner)])"
    using ex_parse by (simp add: ex_broadcast_args_def ex_prepare_response_fields ex_typed_data_def)
  have get: "obj_get [(js_str ''message'', JObject ex_inner)] (js_str ''message'') = JObject ex_inner"
    by (simp add: obj_get_def)
  show ?thesis
    using broadcast_tx_keeps_null_msgs [OF ex_build_broadcast parse get] ex_build_broadcast parse get
    by blast
qed

theorem broadcast_msgs_list_witness:
  "build_broadcast_tx_request ex_recover ex_broadcast_args = Inr ex_broadcast_request
   \<and> (\<exists>s. stringify (bc_message ex_broadcast_args) = Some s \<and> btx_msgs ex_broadcast_request = [utf8_encode s])"
  using broadcast_msgs_list [OF ex_build_broadcast] ex_build_broadcast by simp

theorem prepareTxRequest_transport_failure_witness:
  "snd (prepareTxRequest ex_config failing_transport ex_prepare_args []) = [PrepareTxCall ex_prepare_request]
   \<and> prepare_tx failing_transport ex_prepare_request = Inl (Some (js_str ''unavailable''))
   \<and> prepareTxRequest ex_config failing_transport ex_prepare_args [] =
       (Inl (GrpcException (Some (js_str ''unavailable''))), [PrepareTxCall ex_prepare_request])"
proof -
  have sent: "snd (prepareTxRequest ex_config failing_transport ex_prepare_args []) = [] @ [PrepareTxCall ex_prepare_request]"
    by (simp add: ex_prepare_call)
  have fails: "prepare_tx failing_transport ex_prepare_request = Inl (Some (js_str ''unavailable''))"
    by (simp add: failing_transport_def)
  show ?thesis
    using prepareTxRequest_transport_failure [OF sent fails] sent fails by simp
qed

theorem broadcast_transport_failure_witness:
  "build_broadcast_tx_request ex_recover ex_broadcast_args = Inr ex_broadcast_request
   \<and> broadcast_tx failing_transport ex_broadcast_request = Inl (Some (js_str ''unavailable''))
   \<and> broadcastTxRequest failing_transport ex_recover ex_broadcast_args [] =
       (Inl (GrpcException (Some (js_str ''unavailable''))), [BroadcastTxCall ex_broadcast_request])"
proof -
  have fails: "broadcast_tx failing_transport ex_broadcast_request = Inl (Some (js_str ''unavailable''))"
    by (simp add: failing_transport_def)
  show ?thesis
    using broadcast_transport_failure [OF ex_build_broadcast fails, of "[]"] ex_build_broadcast fails by simp
qed

theorem broadcast_recover_failure_witness:
  "json_parse (ptr_data (bc_tx_response ex_broadcast_args)) = Inr ex_typed_data
   \<and> failing_recover ex_typed_data (bc_signature ex_broadcast_args) = Inl (js_str ''invalid signature'')
   \<and> broadcastTxRequest ex_transport failing_recover ex_broadcast_args [] =
       (Inl (ExternalError (js_str ''invalid signature'')), [])"
proof -
  have parse: "json_parse (ptr_data (bc_tx_response ex_broadcast_args)) = Inr ex_typed_data"
    using ex_parse by (simp add: ex_broadcast_args_def ex_prepare_response_fields)
  have fails: "failing_recover ex_typed_data (bc_signature ex_broadcast_args) = Inl (js_str ''invalid signature'')"
    by (simp add: failing_recover_def)
  show ?thesis
    using broadcast_recover_failure [of ex_broadcast_args ex_typed_data failing_recover "js_str ''invalid signature''"
        ex_transport "[]", OF parse fails] parse fails by simp
qed

theorem broadcast_recover_sees_parsed_data_witness:
  "json_parse (ptr_data (bc_tx_response ex_broadcast_args)) = Inr ex_typed_data
   \<and> ex_recover ex_typed_data (bc_signature ex_broadcast_args)
       = strict_recover ex_typed_data (bc_signature ex_broadcast_args)
   \<and> broadcastTxRequest ex_transport strict_recover ex_broadcast_args [] =
       (Inr (to_object ex_broadcast_response), [BroadcastTxCall ex_broadcast_request])"
proof -
  have parse: "json_parse (ptr_data (bc_tx_response ex_broadcast_args)) = Inr ex_typed_data"
    using ex_parse by (simp add: ex_broadcast_args_def ex_prepare_response_fields)
  have agree: "ex_recover ex_typed_data (bc_signature ex_broadcast_args)
      = strict_recover ex_typed_data (bc_signature ex_broadcast_args)"
    by (simp add: ex_recover_def strict_recover_def)
  show ?thesis
    using broadcast_recover_sees_parsed_data [of ex_broadcast_args ex_typed_data ex_recover strict_recover
        ex_transport "[]", OF parse agree] parse agree
    by (simp add: broadcastTxRequest_Inr [OF ex_build_broadcast] ex_transport_def grpc_rethrow_def)
qed

theorem prepareTxRequest_undefined_message_witness:
  "message ex_undefined_args = JUndefined
   \<and> prepareTxRequest ex_config ex_transport ex_undefined_args [] = (Inl (TypeError BufferFromUndefined), [])"
  using prepareTxRequest_undefined_message [of ex_undefined_args ex_config ex_transport "[]"]
  by (simp add: ex_undefined_args_def)

theorem broadcast_success_witness:
  "build_broadcast_tx_request ex_recover ex_broadcast_args = Inr ex_broadcast_request
   \<and> broadcast_tx ex_transport ex_broadcast_request = Inr ex_broadcast_response
   \<and> broadcastTxRequest ex_transport ex_recover ex_broadcast_args [] =
       (Inr (to_object ex_broadcast_response), [BroadcastTxCall ex_broadcast_request])"
proof -
  have ok: "broadcast_tx ex_transport ex_broadcast_request = Inr ex_broadcast_response"
    by (simp add: ex_transport_def)
  show ?thesis
    using broadcast_success [OF ex_build_broadcast ok, of "[]"] ex_build_broadcast ok by simp
qed

theorem consumer_step_one_request_witness:
  "snd (consumer_step ex_config ex_transport ex_recover [] (BroadcastOp ex_broadcast_args)) = []
   \<or> (\<exists>c. snd (consumer_step ex_config ex_transport ex_recover [] (BroadcastOp ex_broadcast_args)) = [c]
        \<and> call_method c = BroadcastTx)"
  using consumer_step_one_request [of ex_config ex_transport ex_recover "[]" "BroadcastOp ex_broadcast_args"]
  by simp

theorem json_buffer_decode_witness:
  "json_buffer ex_message = Inr (utf8_encode (js_str ''{\"type\":\"order\",\"amount\":\"100\"}''))
   \<and> utf8_decode (utf8_encode (js_str ''{\"type\":\"order\",\"amount\":\"100\"}''))
       = Some (js_str ''{\"type\":\"order\",\"amount\":\"100\"}'')"
proof -
  have buf: "json_buffer ex_message = Inr (utf8_encode (js_str ''{\"type\":\"order\",\"amount\":\"100\"}''))"
    by (rule json_buffer_Some [OF ex_message_text])
  show ?thesis
    using json_buffer_decode [OF buf] buf ex_message_text by auto
qed

theorem clear_msgs_Inr_witness:
  "clear_msgs ex_typed_data = Inr ex_cleared
   \<and> (\<exists>ps. ex_typed_data = JObject ps \<and>
      ((\<exists>qs. obj_get ps (js_str ''message'') = JObject qs \<and> ex_cleared = JObject (obj_set qs (js_str ''msgs'') JNull))
       \<or> (\<exists>xs. obj_get ps (js_str ''message'') = JArray xs \<and> ex_cleared = JArray xs)))"
  using clear_msgs_Inr [of ex_typed_data ex_cleared] ex_clear by blast

theorem prepareExchangeTxRequest_as_prepareTxRequest_witness:
  "delegated_fee (ex_exchange_args\<lparr>delegated_fee := None\<rparr>) \<noteq> Some True
   \<and> prepareExchangeTxRequest ex_config ex_transport (ex_exchange_args\<lparr>delegated_fee := None\<rparr>) [] =
       prepareTxRequest (ex_config\<lparr>default_gas_limit := 200000\<rparr>) ex_transport ex_prepare_args []"
  using prepareExchangeTxRequest_as_prepareTxRequest
      [of "ex_exchange_args\<lparr>delegated_fee := None\<rparr>" ex_config ex_transport "[]"]
  by (simp add: ex_exchange_args_def ex_prepare_args_def ex_config_def prepare_tx_args.defs)

theorem prepareTxRequest_refines_witness:
  "refines_prepare
     (Some \<lparr>pr_chain = 888, pr_signer = js_str ''inj1abc'',
            pr_fee = \<lparr>fs_gas = 400000, fs_denom = js_str ''inj'', fs_price = js_str ''500000000'',
                      fs_delegated = False\<rparr>,
            pr_message = utf8_encode (js_str ''{\"type\":\"order\",\"amount\":\"100\"}'')\<rparr>)
     ex_transport [] (prepareTxRequest ex_config ex_transport ex_prepare_args [])"
  using prepareTxRequest_refines [of ex_config ex_prepare_args ex_transport "[]"]
  by (simp add: prepare_spec_def ex_prepare_args_def ex_message_text ex_config_def)

theorem prepareExchangeTxRequest_refines_witness:
  "refines_prepare
     (Some \<lparr>pr_chain = 888, pr_signer = js_str ''inj1abc'',
            pr_fee = \<lparr>fs_gas = 200000, fs_denom = js_str ''inj'', fs_price = js_str ''500000000'',
                      fs_delegated = True\<rparr>,
            pr_message = utf8_encode (js_str ''{\"type\":\"order\",\"amount\":\"100\"}'')\<rparr>)
     ex_transport [] (prepareExchangeTxRequest ex_config ex_transport ex_exchange_args [])"
  using prepareExchangeTxRequest_refines [of ex_config ex_exchange_args ex_transport "[]"]
  by (simp add: prepare_spec_def ex_exchange_args_def ex_message_text ex_config_def)

theorem json_buffer_parses_back_witness:
  "wf_jsval ex_message
   \<and> json_buffer ex_message = Inr (utf8_encode (js_str ''{\"type\":\"order\",\"amount\":\"100\"}''))
   \<and> (\<exists>s. utf8_decode (utf8_encode (js_str ''{\"type\":\"order\",\"amount\":\"100\"}'')) = Some s
        \<and> json_parse s = Inr (json_norm ex_message))"
proof -
  note wf = ex_message_wf
  have buf: "json_buffer ex_message = Inr (utf8_encode (js_str ''{\"type\":\"order\",\"amount\":\"100\"}''))"
    by (rule json_buffer_Some [OF ex_message_text])
  show ?thesis using json_buffer_parses_back [OF wf buf] wf buf by blast
qed

theorem broadcast_tx_parses_back_witness:
  "build_broadcast_tx_request ex_recover ex_broadcast_args = Inr ex_broadcast_request
   \<and> json_parse (ptr_data (bc_tx_response ex_broadcast_args)) = Inr (JObject [(js_str ''message'', JObject ex_inner)])
   \<and> obj_get [(js_str ''message'', JObject ex_inner)] (js_str ''message'') = JObject ex_inner
   \<and> (\<exists>s qs'. utf8_decode (btx_tx ex_broadcast_request) = Some s \<and> json_parse s = Inr (JObject qs')
        \<and> map_of qs' (js_str ''msgs'') = Some JNull)"
proof -
  have parse: "json_parse (ptr_data (bc_tx_response ex_broadcast_args))
      = Inr (JObject [(js_str ''message'', JObject ex_inner)])"
    using ex_parse by (simp add: ex_broadcast_args_def ex_prepare_response_fields ex_typed_data_def)
  have get: "obj_get [(js_str ''message'', JObject ex_inner)] (js_str ''message'') = JObject ex_inner"
    by (simp add: obj_get_def)
  show ?thesis
    using broadcast_tx_parses_back [OF ex_build_broadcast parse get] ex_build_broadcast parse get
    by blast
qed

theorem broadcast_sends_on_printed_data_witness:
  "wf_jsval (JObject [(js_str ''message'', JObject ex_inner)])
   \<and> stringify (JObject [(js_str ''message'', JObject ex_inner)]) = Some (ptr_data (bc_tx_response ex_broadcast_args))
   \<and> map_of [(js_str ''message'', JObject ex_inner)] (js_str ''message'') = Some (JObject ex_inner)
   \<and> ex_recover (json_norm (JObject [(js_str ''message'', JObject ex_inner)])) (bc_signature ex_broadcast_args)
       = Inr (js_str ''02ab'')
   \<and> bc_message ex_broadcast_args \<noteq> JUndefined
   \<and> (\<exists>r. broadcastTxRequest ex_transport ex_recover ex_broadcast_args []
            = (map_sum id to_object (grpc_rethrow (broadcast_tx ex_transport r)), [BroadcastTxCall r])
        \<and> btx_pub_key r = Some (build_pub_key (js_str ''ethsecp256k1'') (js_str ''02ab'')))"
proof -
  have wf: "wf_jsval (JObject [(js_str ''message'', JObject ex_inner)])"
    using ex_typed_data_wf by (simp add: ex_typed_data_def)
  have s: "stringify (JObject [(js_str ''message'', JObject ex_inner)]) = Some (ptr_data (bc_tx_response ex_broadcast_args))"
    using ex_typed_data_text by (simp add: ex_typed_data_def ex_broadcast_args_def ex_prepare_response_fields)
  have m: "map_of [(js_str ''message'', JObject ex_inner)] (js_str ''message'') = Some (JObject ex_inner)"
    by simp
  have r: "ex_recover (json_norm (JObject [(js_str ''message'', JObject ex_inner)])) (bc_signature ex_broadcast_args)
      = Inr (js_str ''02ab'')"
    by (simp add: ex_recover_def)
  have d: "bc_message ex_broadcast_args \<noteq> JUndefined"
    by (simp add: ex_broadcast_args_def ex_message_def)
  show ?thesis
    using broadcast_sends_on_printed_data [where ps = "[(js_str ''message'', JObject ex_inner)]"
        and a = ex_broadcast_args and qs = ex_inner and recover = ex_recover and pk = "js_str ''02ab''"
        and t = ex_transport and log = "[]", OF wf s m r d] wf s m r d
    by (simp add: ex_broadcast_args_def ex_prepare_response_fields)
qed

theorem prepare_gas_unchecked_witness:
  "gas_limit (ex_prepare_args\<lparr>gas_limit := Some 0\<rparr>) = Some 0
   \<and> gas_limit (ex_exchange_args\<lparr>gas_limit := Some 0\<rparr>) = Some 0
   \<and> stringify (message (ex_prepare_args\<lparr>gas_limit := Some 0\<rparr>)) = Some (js_str ''{\"type\":\"order\",\"amount\":\"100\"}'')
   \<and> stringify (message (ex_exchange_args\<lparr>gas_limit := Some 0\<rparr>)) = Some (js_str ''{\"type\":\"order\",\"amount\":\"100\"}'')
   \<and> (\<exists>req fee. snd (prepareTxRequest ex_config ex_transport (ex_prepare_args\<lparr>gas_limit := Some 0\<rparr>) []) = [PrepareTxCall req]
        \<and> ptx_fee req = Some fee \<and> txfee_gas fee = 0)
   \<and> (\<exists>req fee. snd (prepareExchangeTxRequest ex_config ex_transport (ex_exchange_args\<lparr>gas_limit := Some 0\<rparr>) []) = [PrepareTxCall req]
        \<and> ptx_fee req = Some fee \<and> txfee_gas fee = 0)"
  using prepare_gas_unchecked [where a = "ex_prepare_args\<lparr>gas_limit := Some 0\<rparr>"
      and b = "ex_exchange_args\<lparr>gas_limit := Some 0\<rparr>" and g = 0
      and s = "js_str ''{\"type\":\"order\",\"amount\":\"100\"}''" and s' = "js_str ''{\"type\":\"order\",\"amount\":\"100\"}''"
      and cfg = ex_config and t = ex_transport and log = "[]"]
  by (simp add: ex_prepare_args_def ex_exchange_args_def ex_message_text)

theorem broadcastTxRequest_refines_witness:
  "wf_jsval (bc_message ex_broadcast_args)
   \<and> refines_broadcast (broadcast_spec ex_recover ex_broadcast_args) ex_transport []
       (broadcastTxRequest ex_transport ex_recover ex_broadcast_args [])"
  using broadcastTxRequest_refines [where a = ex_broadcast_args and recover = ex_recover
      and t = ex_transport and log = "[]"]
  by (simp add: ex_broadcast_args_def ex_message_wf)

theorem broadcast_tx_rounds_integer_witness:
  "ptr_data (bc_tx_response ex_big_args)
     = js_str ''{\"message\":{\"amount\":'' @ nat_digits 9007199254740993 @ js_str ''}}''
   \<and> round_nat 9007199254740993 < json_int_limit
   \<and> ex_recover (JObject [(js_str ''message'', JObject [(js_str ''amount'', JNumber (int (round_nat 9007199254740993)))])])
       (bc_signature ex_big_args) = Inr (js_str ''02ab'')
   \<and> bc_message ex_big_args \<noteq> JUndefined
   \<and> (\<exists>r. broadcastTxRequest ex_transport ex_recover ex_big_args []
          = (map_sum id to_object (grpc_rethrow (broadcast_tx ex_transport r)), [BroadcastTxCall r])
        \<and> btx_tx r = utf8_encode (js_str ''{\"amount\":'' @ nat_digits 9007199254740992 @ js_str '',\"msgs\":null}''))
   \<and> nat_digits (9007199254740992 :: nat) \<noteq> nat_digits 9007199254740993"
proof -
  have r: "round_nat 9007199254740993 = 9007199254740992"
    by (simp add: round_nat_def bitlen.simps)
  then have lim: "round_nat 9007199254740993 < json_int_limit" by (simp add: json_int_limit_def)
  have s: "shortest_nat 9007199254740992 = 9007199254740992" by (rule shortest_safe) simp
  have d: "nat_digits (9007199254740992 :: nat) \<noteq> nat_digits 9007199254740993"
    using decimal_value_nat_digits [of 9007199254740992] decimal_value_nat_digits [of 9007199254740993]
    by auto
  have data: "ptr_data (bc_tx_response ex_big_args)
     = js_str ''{\"message\":{\"amount\":'' @ nat_digits 9007199254740993 @ js_str ''}}''"
    by (simp add: ex_big_args_def)
  have rec: "ex_recover (JObject [(js_str ''message'', JObject [(js_str ''amount'', JNumber (int (round_nat 9007199254740993)))])])
       (bc_signature ex_big_args) = Inr (js_str ''02ab'')"
    by (simp add: ex_recover_def)
  have msg: "bc_message ex_big_args \<noteq> JUndefined"
    by (simp add: ex_big_args_def ex_broadcast_args_def ex_message_def)
  show ?thesis
    using broadcast_tx_rounds_integer [where a = ex_big_args and m = 9007199254740993 and recover = ex_recover
        and pk = "js_str ''02ab''" and t = ex_transport and log = "[]", OF data lim rec msg]
      data lim rec msg d r s
    by simp
qed

end
